(* ===== verification/Prelude.thy ===== *)
theory Prelude
  imports Main "HOL-Library.Word"
begin

text \<open>
  Shared vocabulary of the development: the C integer types as words, the result
  codes of main/constants.h, the error codes of ESP-IDF the sources test for, the
  generic state-machine interface used by every interrupt handler and task loop, and
  the word and list lemmas the components share.
\<close>

unbundle bit_operations_syntax

section \<open>Types\<close>

type_synonym u8 = "8 word"
type_synonym u16 = "16 word"
type_synonym u32 = "32 word"
type_synonym u64 = "64 word"

text \<open>\<open>address24_t\<close> is a \<open>uint32_t\<close> in the source; only the low 24 bits are used.\<close>

type_synonym address24_t = u32

datatype DALI_Status =
    DALI_OK
  | DALI_ERR_NO_RESPONSE
  | DALI_ERR_NO_RESPONSE_ON_BUS
  | DALI_ERR_BUS_CORRUPTED
  | DALI_ERR_BUS_NOT_COMMISIONED

text \<open>\<open>esp_err_t\<close> is a C \<open>int\<close>; \<open>ESP_OK\<close> is 0 and everything else is a failure.\<close>

type_synonym esp_err = int

abbreviation (input) ESP_OK :: esp_err where
  "ESP_OK \<equiv> 0"

section \<open>Pins\<close>

datatype gpio_mode = GPIO_MODE_INPUT | GPIO_MODE_OUTPUT
datatype gpio_int_type = GPIO_INTR_DISABLE | GPIO_INTR_ANYEDGE

record gpio_config =
  cfg_mode :: gpio_mode
  cfg_intr_type :: gpio_int_type
  cfg_pin_bit_mask :: u64
  cfg_pull_down_en :: bool
  cfg_pull_up_en :: bool

text \<open>Messages on the log, at error and at information level.\<close>

datatype log_entry = LOGE string | LOGI string

section \<open>Collections of proof rules\<close>

named_theorems state_simps \<open>effect of an operation on the state variable of the gateway\<close>

section \<open>State machines\<close>

text \<open>
  Every interrupt service routine and every task loop of the firmware is a step
  function on its globals, driven by an event (what the hardware or the other tasks
  answered). What is kept by one step is kept by every run.
\<close>

locale machine =
  fixes step :: "'e \<Rightarrow> 's \<Rightarrow> 's"
    and inv :: "'s \<Rightarrow> bool"
  assumes step_inv: "inv s \<Longrightarrow> inv (step e s)"
begin

lemma run_inv: "inv s \<Longrightarrow> inv (fold step es s)"
  by (induction es arbitrary: s) (auto intro: step_inv)

lemma run_prefix_inv: "inv s \<Longrightarrow> inv (fold step (take n es) s)"
  by (rule run_inv)

end

text \<open>
  A run of steps that can fail ends at the first failure. What every step that succeeds
  keeps is kept by every run that succeeds.
\<close>

locale runner =
  fixes step :: "'e \<Rightarrow> 's \<Rightarrow> 'f + 's"
    and run :: "'e list \<Rightarrow> 's \<Rightarrow> 'f + 's"
  assumes run_Nil: "run [] s = Inr s"
    and run_Cons: "run (e # es) s = (case step e s of Inl f \<Rightarrow> Inl f | Inr s \<Rightarrow> run es s)"
begin

lemma run_append: "run (es @ fs) s = (case run es s of Inl f \<Rightarrow> Inl f | Inr s \<Rightarrow> run fs s)"
  by (induction es arbitrary: s) (auto simp: run_Nil run_Cons split: sum.split)

lemma run_kept:
  assumes "\<And>e s s'. e \<in> set es \<Longrightarrow> step e s = Inr s' \<Longrightarrow> P s \<Longrightarrow> P s'"
  shows "run es s = Inr s' \<Longrightarrow> P s \<Longrightarrow> P s'"
  using assms
proof (induction es arbitrary: s)
  case (Cons e es)
  from Cons.prems(1) obtain s1 where "step e s = Inr s1" "run es s1 = Inr s'"
    by (auto simp: run_Cons split: sum.splits)
  with Cons show ?case
    by (meson list.set_intros)
qed (simp add: run_Nil)

lemma run_safe:
  assumes "\<And>e s. e \<in> set es \<Longrightarrow> P s \<Longrightarrow> \<exists>s'. step e s = Inr s' \<and> P s'"
  shows "P s \<Longrightarrow> \<exists>s'. run es s = Inr s' \<and> P s'"
  using assms
proof (induction es arbitrary: s)
  case (Cons e es)
  then obtain s1 where "step e s = Inr s1" "P s1"
    by (meson list.set_intros(1))
  with Cons show ?case
    by (simp add: run_Cons)
qed (simp add: run_Nil)

end

section \<open>Words\<close>

lemma unat_ucast_8_16 [simp]: "unat (ucast (b :: u8) :: u16) = unat b"
proof -
  have "unat b < 65536"
    using unsigned_less [of b, where ?'a = nat] by simp
  then show ?thesis
    by (simp add: unsigned_ucast_eq take_bit_nat_eq_self_iff)
qed

lemma ucast_8_16_8 [simp]: "(ucast (ucast (b :: u8) :: u16) :: u8) = b"
  by (rule bit_word_eqI) (auto simp: bit_simps)

lemma bit_ucast_8_16: "bit (ucast (b :: u8) :: u16) n \<longleftrightarrow> n < 8 \<and> bit b n"
  by (auto simp: bit_simps dest: bit_imp_le_length)

lemma bit_255: "bit (0xFF :: 'a::len word) k \<longleftrightarrow> k < 8 \<and> k < LENGTH('a)"
proof -
  have "(0xFF :: 'a word) = mask 8"
    by (simp add: mask_eq_exp_minus_1)
  then show ?thesis
    by (simp only: bit_mask_iff) auto
qed

lemma bit_less_exp:
  assumes "bit (w :: 'a::len word) n" and "unat w < 2 ^ m"
  shows "n < m"
proof -
  have "bit (unat w) n"
    using assms(1) by (simp add: bit_unsigned_iff bit_imp_le_length)
  moreover have "take_bit m (unat w) = unat w"
    using assms(2) by (simp add: take_bit_nat_eq_self_iff)
  ultimately show ?thesis
    by (metis bit_take_bit_iff)
qed

text \<open>The two bytes of a special command.\<close>

lemma frame_bytes:
  fixes b :: u8
  assumes "unat c = 256 * n" and "n < 255"
  shows "drop_bit 8 ((c :: u16) + ucast b) = of_nat n" and "ucast (c + ucast b) = b"
proof -
  have "unat (c + ucast b) = 256 * n + unat b"
    using assms unsigned_less [of b, where ?'a = nat] by (simp add: unat_word_ariths)
  moreover have "unat b < 256"
    using unsigned_less [of b, where ?'a = nat] by simp
  ultimately show "drop_bit 8 (c + ucast b) = of_nat n" and "ucast (c + ucast b) = b"
    using assms
    by (auto intro!: word_unat_eq_iff [THEN iffD2]
        simp: unat_drop_bit_eq drop_bit_eq_div unat_div unat_of_nat unsigned_ucast_eq take_bit_eq_mod)
qed

text \<open>A word is determined by, and can be read off, the list of its bits.\<close>

definition bits_msb :: "nat \<Rightarrow> 'a::len word \<Rightarrow> bool list" where
  "bits_msb n w = map (bit w) (rev [0..<n])"

lemma length_bits_msb [simp]: "length (bits_msb n w) = n"
  by (simp add: bits_msb_def)

lemma bits_msb_Suc: "bits_msb (Suc n) w = bit w n # bits_msb n w"
  by (simp add: bits_msb_def)

lemma bits_msb_inject:
  assumes "bits_msb (LENGTH('a)) v = bits_msb (LENGTH('a)) (w :: 'a::len word)"
  shows "v = w"
proof (rule bit_word_eqI)
  fix n assume "n < LENGTH('a)"
  then show "bit v n = bit w n"
    using assms by (auto simp: bits_msb_def)
qed

end
