(* ===== verification/Dali_Communication.thy ===== *)
theory Dali_Communication
  imports Prelude
begin

text \<open>
  components/DALI_communication: the bit-level driver of the DALI line. A forward frame
  is Manchester-encoded by \<open>manchester_encode\<close> and shifted out, half a bit per timer
  alarm, by \<open>transmit_bit_on_timer_alarm\<close>; a backward frame is read edge by edge by the
  pin interrupt \<open>receive_dali_data\<close>. The record \<open>link\<close> holds the globals the callers
  of the driver can observe, with the gears on the line as the environment \<open>'w\<close>; the
  record \<open>comm\<close> adds the globals private to the two interrupt routines. Waiting on the
  line (\<open>vTaskDelay\<close>) is described on \<open>link\<close>, and shown to be what the two interrupt
  routines leave behind.
\<close>

section \<open>Globals\<close>

datatype State = START_BIT | DATA | STOP_BIT

record 'w link =
  dataToTransmit :: u32
  timerOn :: bool
  newDataFlag :: bool
  rx_data_buffer :: "int list"
  err :: esp_err
  rx_intr :: bool            \<comment> \<open>the GPIO_PIN_RX interrupt is enabled\<close>
  tx_timer_running :: bool   \<comment> \<open>timer_tx is counting\<close>
  gears :: 'w                \<comment> \<open>the devices on the line\<close>

text \<open>
  The general-purpose timer timer_rx of the driver library: it counts the time since
  its count was last set while it runs, and holds its count while stopped.
\<close>

record gptimer =
  tm_running :: bool
  tm_base :: u64
  tm_held :: u64

definition gptimer_get_raw_count :: "u64 \<Rightarrow> gptimer \<Rightarrow> u64" where
  "gptimer_get_raw_count now tm = (if tm_running tm then now - tm_base tm else tm_held tm)"

definition gptimer_set_raw_count :: "u64 \<Rightarrow> u64 \<Rightarrow> gptimer \<Rightarrow> gptimer" where
  "gptimer_set_raw_count v now tm =
     (if tm_running tm then tm\<lparr>tm_base := now - v\<rparr> else tm\<lparr>tm_held := v\<rparr>)"

definition gptimer_start :: "u64 \<Rightarrow> gptimer \<Rightarrow> gptimer" where
  "gptimer_start now tm =
     (if tm_running tm then tm else tm\<lparr>tm_running := True, tm_base := now - tm_held tm\<rparr>)"

definition gptimer_stop :: "u64 \<Rightarrow> gptimer \<Rightarrow> gptimer" where
  "gptimer_stop now tm =
     (if tm_running tm then tm\<lparr>tm_running := False, tm_held := now - tm_base tm\<rparr> else tm)"

record 'w comm = "'w link" +
  manchesterClock :: bool
  stateTx :: State           \<comment> \<open>the global state of the source\<close>
  stateRx :: State
  counter :: int             \<comment> \<open>int8_t; its range is an invariant below\<close>
  tx_counter :: int          \<comment> \<open>int8_t; its range is an invariant below\<close>
  timerOnRx :: bool
  rxT :: u64                 \<comment> \<open>the global T of the source\<close>
  T_offset :: u64
  currentTime :: u64
  totalRxInterrupt :: int
  incrementer :: int
  incrementer2 :: int
  tx_pin :: bool             \<comment> \<open>level driven on GPIO_PIN_TX\<close>
  rx_timer :: gptimer

section \<open>Manchester encoding\<close>

definition MANCHESTER_ENCODED_0 :: u32 where
  "MANCHESTER_ENCODED_0 = 2"

definition MANCHESTER_ENCODED_1 :: u32 where
  "MANCHESTER_ENCODED_1 = 1"

text \<open>One iteration of the loop of \<open>manchester_encode\<close>, and the loop over i = 0..15.\<close>

definition manchester_encode_bit :: "u16 \<Rightarrow> nat \<Rightarrow> u32 \<Rightarrow> u32" where
  "manchester_encode_bit data i acc =
     (if (drop_bit i data) AND 1 = 1
      then acc OR push_bit (2 * i) MANCHESTER_ENCODED_1
      else acc OR push_bit (2 * i) MANCHESTER_ENCODED_0)"

definition manchester_encode :: "u16 \<Rightarrow> u32" where
  "manchester_encode data = fold (manchester_encode_bit data) [0..<16] 0"

text \<open>What a receiver on the line reads: the second half of each bit cell.\<close>

definition manchester_decode :: "u32 \<Rightarrow> u16" where
  "manchester_decode w = horner_sum of_bool 2 (map (\<lambda>i. bit w (2 * i)) [0..<16])"

lemma drop_bit_and_1_iff: "(drop_bit i w) AND 1 = 1 \<longleftrightarrow> bit w i" for w :: "'a::len word"
  by (simp add: bit_iff_odd_drop_bit and_one_eq odd_iff_mod_2_eq_one)

lemma bit_manchester_fold:
  assumes "n \<le> 16" and "j < 32"
  shows "bit (fold (manchester_encode_bit d) [0..<n] 0) j \<longleftrightarrow>
    j < 2 * n \<and> (if even j then bit d (j div 2) else \<not> bit d (j div 2))"
  using assms(1)
proof (induction n)
  case 0
  then show ?case by simp
next
  case (Suc n)
  have cell: "bit (push_bit (2 * n) MANCHESTER_ENCODED_1) j \<longleftrightarrow> j = 2 * n"
    "bit (push_bit (2 * n) MANCHESTER_ENCODED_0) j \<longleftrightarrow> j = 2 * n + 1"
    using assms(2) Suc.prems
    by (auto simp: MANCHESTER_ENCODED_1_def MANCHESTER_ENCODED_0_def bit_simps
        numeral_2_eq_2 [symmetric] nat_eq_iff)
  have "j < 2 * Suc n \<longleftrightarrow> j < 2 * n \<or> j = 2 * n \<or> j = 2 * n + 1"
    by auto
  with Suc cell show ?case
    by (auto simp: manchester_encode_bit_def drop_bit_and_1_iff bit_or_iff)
qed

lemma bit_manchester_encode:
  assumes "j < 32"
  shows "bit (manchester_encode d) j \<longleftrightarrow> (if even j then bit d (j div 2) else \<not> bit d (j div 2))"
  using bit_manchester_fold [of 16 j d] assms by (simp add: manchester_encode_def)

lemma manchester_decode_encode: "manchester_decode (manchester_encode d) = d"
  by (rule bit_word_eqI)
    (auto simp: manchester_decode_def bit_horner_sum_bit_word_iff bit_manchester_encode)

text \<open>
  The interface between the two ends of the line: an encoder whose output the other
  side can read back.
\<close>

locale line_code =
  fixes enc :: "'d \<Rightarrow> 'c"
    and dec :: "'c \<Rightarrow> 'd"
  assumes dec_enc: "dec (enc d) = d"
begin

lemma enc_inject: "enc d = enc e \<longleftrightarrow> d = e"
  by (metis dec_enc)

lemma dec_surj: "\<exists>c. dec c = d"
  using dec_enc by blast

end

interpretation manchester: line_code manchester_encode manchester_decode
  by unfold_locales (rule manchester_decode_encode)

section \<open>Transmission\<close>

definition send_DALI_Tx :: "esp_err \<Rightarrow> u16 \<Rightarrow> ('w, 'z) link_scheme \<Rightarrow> ('w, 'z) link_scheme" where
  "send_DALI_Tx e cmd s =
     (let s = s\<lparr>rx_intr := False\<rparr>;
          s = s\<lparr>dataToTransmit := manchester_encode cmd\<rparr>
      in if \<not> timerOn s
         then s\<lparr>err := e, timerOn := True,
                tx_timer_running := (e = ESP_OK \<or> tx_timer_running s)\<rparr>
         else s)"

text \<open>
  \<open>gpio_set_level(GPIO_PIN_TX, l)\<close> returning \<open>e\<close>: the pin changes only on success.
\<close>

definition gpio_set_tx :: "esp_err \<Rightarrow> bool \<Rightarrow> ('w, 'z) comm_scheme \<Rightarrow> ('w, 'z) comm_scheme" where
  "gpio_set_tx e l s = s\<lparr>err := e, tx_pin := (if e = ESP_OK then l else tx_pin s)\<rparr>"

text \<open>
  The timer alarm handler. \<open>e\<close> is the result of the driver call the branch makes
  (\<open>gpio_set_level\<close> or \<open>gptimer_stop\<close>).
\<close>

definition transmit_bit_on_timer_alarm ::
    "esp_err \<Rightarrow> ('w, 'z) comm_scheme \<Rightarrow> bool \<times> ('w, 'z) comm_scheme" where
  "transmit_bit_on_timer_alarm e s =
     (case stateTx s of
        START_BIT \<Rightarrow>
          if tx_counter s < 1
          then let s = gpio_set_tx e False s
               in (e = ESP_OK, s\<lparr>tx_counter := tx_counter s + 1\<rparr>)
          else let s = gpio_set_tx e True s;
                   s = s\<lparr>manchesterClock := False\<rparr>
               in (e = ESP_OK, s\<lparr>stateTx := DATA, tx_counter := 31\<rparr>)
      | DATA \<Rightarrow>
          if tx_counter s \<ge> 0
          then let bitToSend = (drop_bit (nat (tx_counter s)) (dataToTransmit s)) AND 1;
                   s = gpio_set_tx e (bitToSend \<noteq> 0) s
               in (e = ESP_OK, s\<lparr>tx_counter := tx_counter s - 1\<rparr>)
          else let s = gpio_set_tx e True s
               in (e = ESP_OK, s\<lparr>stateTx := STOP_BIT, tx_counter := 0\<rparr>)
      | STOP_BIT \<Rightarrow>
          if tx_counter s = 0
          then let s = gpio_set_tx e True s
               in (True, s\<lparr>tx_counter := tx_counter s + 1\<rparr>)
          else if tx_counter s < 3
          then (True, s\<lparr>tx_counter := tx_counter s + 1\<rparr>)
          else (e = ESP_OK,
                s\<lparr>err := e, tx_timer_running := (if e = ESP_OK then False else tx_timer_running s),
                  stateTx := START_BIT, timerOn := False, tx_counter := 0, rx_intr := True\<rparr>))"

abbreviation tx_step :: "esp_err \<Rightarrow> ('w, 'z) comm_scheme \<Rightarrow> ('w, 'z) comm_scheme" where
  "tx_step e s \<equiv> snd (transmit_bit_on_timer_alarm e s)"

text \<open>The level of the pin after each of a sequence of alarms.\<close>

fun tx_trace :: "esp_err list \<Rightarrow> ('w, 'z) comm_scheme \<Rightarrow> bool list" where
  "tx_trace [] s = []"
| "tx_trace (e # es) s = tx_pin (tx_step e s) # tx_trace es (tx_step e s)"

lemma tx_trace_append: "tx_trace (xs @ ys) s = tx_trace xs s @ tx_trace ys (fold tx_step xs s)"
  by (induction xs arbitrary: s) auto

text \<open>The handler's counter stays in the range its state allows, so its int8_t never wraps.\<close>

definition tx_inv :: "('w, 'z) comm_scheme \<Rightarrow> bool" where
  "tx_inv s \<longleftrightarrow>
     (case stateTx s of
        START_BIT \<Rightarrow> 0 \<le> tx_counter s \<and> tx_counter s \<le> 1
      | DATA \<Rightarrow> -1 \<le> tx_counter s \<and> tx_counter s \<le> 31
      | STOP_BIT \<Rightarrow> 0 \<le> tx_counter s \<and> tx_counter s \<le> 3)"

lemma tx_step_inv: "tx_inv s \<Longrightarrow> tx_inv (tx_step e s)"
  by (auto simp: tx_inv_def transmit_bit_on_timer_alarm_def gpio_set_tx_def Let_def
      split: State.splits)

interpretation tx: machine tx_step tx_inv
  by unfold_locales (rule tx_step_inv)

subsection \<open>The waveform of a frame\<close>

text \<open>
  The abstract forward frame of the DALI line code: start bit, the sixteen bits most
  significant first (a one is low then high, a zero high then low), and stop
  condition (the line held at its idle level).
\<close>

definition half_bits :: "bool \<Rightarrow> bool list" where
  "half_bits b = (if b then [False, True] else [True, False])"

definition forward_waveform :: "u16 \<Rightarrow> bool list" where
  "forward_waveform cmd =
     half_bits True @ concat (map half_bits (bits_msb 16 cmd)) @ replicate 5 True"

definition tx_idle :: "('w, 'z) comm_scheme \<Rightarrow> bool" where
  "tx_idle s \<longleftrightarrow> stateTx s = START_BIT \<and> tx_counter s = 0"

lemma tx_start_phase:
  assumes "tx_idle s"
  shows "tx_trace (replicate 2 ESP_OK) s = [False, True]"
    and "fold tx_step (replicate 2 ESP_OK) s =
      s\<lparr>err := 0, tx_pin := True, manchesterClock := False, stateTx := DATA, tx_counter := 31\<rparr>"
  using assms
  by (simp_all add: tx_idle_def numeral_2_eq_2 transmit_bit_on_timer_alarm_def gpio_set_tx_def)

lemma tx_data_step:
  assumes "stateTx s = DATA" and "tx_counter s = int (Suc n) - 1"
  shows "tx_step ESP_OK s = s\<lparr>err := 0, tx_pin := bit (dataToTransmit s) n,
      tx_counter := int n - 1\<rparr>"
  using assms by (simp add: transmit_bit_on_timer_alarm_def gpio_set_tx_def
      bit_iff_odd_drop_bit and_one_eq mod_2_eq_odd)

lemma tx_data_trace:
  assumes "stateTx s = DATA" and "tx_counter s = int n - 1"
  shows "tx_trace (replicate n ESP_OK) s = bits_msb n (dataToTransmit s)"
  using assms
proof (induction n arbitrary: s)
  case 0
  then show ?case by (simp add: bits_msb_def)
next
  case (Suc n)
  from tx_data_step [OF Suc.prems] Suc.IH [of "tx_step ESP_OK s"] Suc.prems(1) show ?case
    by (simp add: bits_msb_Suc)
qed

lemma tx_data_phase:
  assumes "stateTx s = DATA" and "tx_counter s = int (Suc n) - 1"
  shows "fold tx_step (replicate (Suc n) ESP_OK) s =
      s\<lparr>err := 0, tx_pin := bit (dataToTransmit s) 0, tx_counter := -1\<rparr>"
  using assms
proof (induction n arbitrary: s)
  case 0
  with tx_data_step [OF 0] show ?case by simp
next
  case (Suc n)
  from tx_data_step [OF Suc.prems] Suc.IH [of "tx_step ESP_OK s"] Suc.prems(1) show ?case
    by simp
qed

lemma tx_stop_phase:
  assumes "stateTx s = DATA" and "tx_counter s = -1" and "tx_pin s = p"
  shows "tx_trace (replicate 5 ESP_OK) s = replicate 5 True"
    and "fold tx_step (replicate 5 ESP_OK) s =
      s\<lparr>err := 0, tx_pin := True, tx_timer_running := False, stateTx := START_BIT,
        timerOn := False, tx_counter := 0, rx_intr := True\<rparr>"
  using assms
  by (simp_all add: numeral_eq_Suc transmit_bit_on_timer_alarm_def gpio_set_tx_def)

lemma bits_msb_manchester_cells:
  assumes "n \<le> 16"
  shows "bits_msb (2 * n) (manchester_encode d) = concat (map half_bits (bits_msb n d))"
  using assms
proof (induction n)
  case 0
  then show ?case by (simp add: bits_msb_def)
next
  case (Suc n)
  have "bits_msb (2 * Suc n) (manchester_encode d) =
      bit (manchester_encode d) (2 * n + 1) # bit (manchester_encode d) (2 * n)
        # bits_msb (2 * n) (manchester_encode d)"
    by (simp add: bits_msb_Suc)
  also have "\<dots> = half_bits (bit d n) @ bits_msb (2 * n) (manchester_encode d)"
    using Suc.prems by (simp add: bit_manchester_encode half_bits_def)
  finally show ?case
    using Suc by (simp add: bits_msb_Suc)
qed

text \<open>The state the alarm handler leaves behind after the 39 alarms of a frame.\<close>

lemma alarms_39: "replicate 39 ESP_OK = replicate 2 ESP_OK @ replicate (Suc 31) ESP_OK @ replicate 5 ESP_OK"
  by (simp add: replicate_add [symmetric] del: replicate_Suc)

lemma tx_phases:
  assumes "tx_idle s"
  obtains u v where
    "fold tx_step (replicate 2 ESP_OK) s = u"
    "fold tx_step (replicate (Suc 31) ESP_OK) u = v"
    "u = s\<lparr>err := 0, tx_pin := True, manchesterClock := False, stateTx := DATA, tx_counter := 31\<rparr>"
    "v = u\<lparr>err := 0, tx_pin := bit (dataToTransmit u) 0, tx_counter := -1\<rparr>"
proof -
  define u where "u = s\<lparr>err := 0, tx_pin := True, manchesterClock := False, stateTx := DATA,
    tx_counter := 31\<rparr>"
  have "fold tx_step (replicate (Suc 31) ESP_OK) u
      = u\<lparr>err := 0, tx_pin := bit (dataToTransmit u) 0, tx_counter := -1\<rparr>"
    by (rule tx_data_phase) (simp_all add: u_def)
  with tx_start_phase(2) [OF assms] show thesis
    by (intro that [of u]) (simp_all only: u_def)
qed

lemma tx_frame_state:
  assumes "tx_idle s"
  shows "fold tx_step (replicate 39 ESP_OK) s =
    s\<lparr>err := 0, tx_pin := True, manchesterClock := False, tx_timer_running := False,
      stateTx := START_BIT, timerOn := False, tx_counter := 0, rx_intr := True\<rparr>"
proof -
  obtain u v where uv: "fold tx_step (replicate 2 ESP_OK) s = u"
    "fold tx_step (replicate (Suc 31) ESP_OK) u = v"
    and u: "u = s\<lparr>err := 0, tx_pin := True, manchesterClock := False, stateTx := DATA, tx_counter := 31\<rparr>"
    and v: "v = u\<lparr>err := 0, tx_pin := bit (dataToTransmit u) 0, tx_counter := -1\<rparr>"
    by (rule tx_phases [OF assms])
  have "fold tx_step (replicate 39 ESP_OK) s = fold tx_step (replicate 5 ESP_OK) v"
    by (simp only: alarms_39 fold_append o_apply uv)
  also have "\<dots> = v\<lparr>err := 0, tx_pin := True, tx_timer_running := False, stateTx := START_BIT,
        timerOn := False, tx_counter := 0, rx_intr := True\<rparr>"
    by (rule tx_stop_phase(2) [OF _ _ refl]) (simp_all add: v u)
  finally show ?thesis
    by (simp add: v u)
qed

lemma tx_frame_trace:
  assumes "tx_idle s" and "dataToTransmit s = manchester_encode cmd"
  shows "tx_trace (replicate 39 ESP_OK) s = forward_waveform cmd"
proof -
  obtain u v where uv: "fold tx_step (replicate 2 ESP_OK) s = u"
    "fold tx_step (replicate (Suc 31) ESP_OK) u = v"
    and u: "u = s\<lparr>err := 0, tx_pin := True, manchesterClock := False, stateTx := DATA, tx_counter := 31\<rparr>"
    and v: "v = u\<lparr>err := 0, tx_pin := bit (dataToTransmit u) 0, tx_counter := -1\<rparr>"
    by (rule tx_phases [OF assms(1)])
  have "tx_trace (replicate 39 ESP_OK) s = tx_trace (replicate 2 ESP_OK) s
      @ tx_trace (replicate (Suc 31) ESP_OK) u @ tx_trace (replicate 5 ESP_OK) v"
    by (simp only: alarms_39 tx_trace_append uv)
  moreover have "tx_trace (replicate (Suc 31) ESP_OK) u = bits_msb (2 * 16) (manchester_encode cmd)"
    using tx_data_trace [of u "Suc 31"] by (simp add: u assms(2) del: tx_trace.simps replicate_Suc)
  moreover have "tx_trace (replicate 5 ESP_OK) v = replicate 5 True"
    by (rule tx_stop_phase(1) [OF _ _ refl]) (simp_all add: v u)
  ultimately show ?thesis
    by (simp only: tx_start_phase(1) [OF assms(1)] bits_msb_manchester_cells order_refl
        forward_waveform_def) (simp add: half_bits_def)
qed

section \<open>Reception\<close>

text \<open>
  \<open>T_offset = T * 0.75\<close>: the product is formed in floating point and truncated, which
  is the exact quotient for every T a count of microseconds can reach (T below 2^53).
\<close>

definition offset_75 :: "u64 \<Rightarrow> u64" where
  "offset_75 t = word_of_nat (3 * unat t div 4)"

definition rx_done :: "u64 \<Rightarrow> ('w, 'z) comm_scheme \<Rightarrow> ('w, 'z) comm_scheme" where
  "rx_done now s =
     s\<lparr>stateRx := START_BIT, counter := 0, rx_timer := gptimer_stop now (rx_timer s),
       timerOnRx := False, newDataFlag := True, incrementer2 := incrementer2 s + 1\<rparr>"

text \<open>
  The edge interrupt of GPIO_PIN_RX at time \<open>now\<close>; \<open>level\<close> is what \<open>gpio_get_level\<close>
  reads after the edge.
\<close>

definition receive_dali_data :: "u64 \<Rightarrow> bool \<Rightarrow> ('w, 'z) comm_scheme \<Rightarrow> ('w, 'z) comm_scheme" where
  "receive_dali_data now level s =
     (let s = s\<lparr>currentTime := gptimer_get_raw_count now (rx_timer s)\<rparr>;
          s = s\<lparr>rx_intr := False, totalRxInterrupt := totalRxInterrupt s + 1\<rparr>;
          s = (case stateRx s of
                 START_BIT \<Rightarrow>
                   if counter s = 0
                   then s\<lparr>rx_timer := gptimer_start now (gptimer_set_raw_count 0 now (rx_timer s)),
                          counter := counter s + 1\<rparr>
                   else s\<lparr>incrementer := incrementer s + 1,
                          rxT := currentTime s * 2,
                          T_offset := offset_75 (currentTime s * 2),
                          stateRx := DATA, counter := 0,
                          rx_timer := gptimer_set_raw_count 0 now (rx_timer s)\<rparr>
               | DATA \<Rightarrow>
                   let gpioValue = (if level then 0 else 1)
                   in if currentTime s > T_offset s
                      then let s = s\<lparr>rx_data_buffer := (rx_data_buffer s)[nat (counter s) := gpioValue],
                                     counter := counter s + 1,
                                     rx_timer := gptimer_set_raw_count 0 now (rx_timer s)\<rparr>
                           in if counter s = 8
                              then if rx_data_buffer s ! 7 = 0
                                   then s\<lparr>stateRx := STOP_BIT\<rparr>
                                   else rx_done now s
                              else s
                      else s
               | STOP_BIT \<Rightarrow>
                   if counter s < 0 then s\<lparr>counter := counter s + 1\<rparr> else rx_done now s)
      in s\<lparr>rx_intr := True\<rparr>)"

definition rx_step :: "u64 \<times> bool \<Rightarrow> ('w, 'z) comm_scheme \<Rightarrow> ('w, 'z) comm_scheme" where
  "rx_step ev s = receive_dali_data (fst ev) (snd ev) s"

text \<open>
  Whatever edges arrive and whenever, the buffer index stays inside the eight entries
  of the buffer, and only 0 and 1 are ever stored.
\<close>

definition rx_inv :: "('w, 'z) comm_scheme \<Rightarrow> bool" where
  "rx_inv s \<longleftrightarrow> length (rx_data_buffer s) = 8 \<and>
     (case stateRx s of
        START_BIT \<Rightarrow> 0 \<le> counter s \<and> counter s \<le> 1
      | DATA \<Rightarrow> 0 \<le> counter s \<and> counter s \<le> 7
      | STOP_BIT \<Rightarrow> counter s = 8)"

lemma rx_step_inv: "rx_inv s \<Longrightarrow> rx_inv (rx_step ev s)"
  by (auto simp: rx_inv_def rx_step_def receive_dali_data_def rx_done_def Let_def
      split: State.splits)

interpretation rx: machine rx_step rx_inv
  by unfold_locales (rule rx_step_inv)

definition bit_entry :: "bool \<Rightarrow> int" where
  "bit_entry b = (if b then 1 else 0)"

definition shift_in :: "u8 \<Rightarrow> int \<Rightarrow> u8" where
  "shift_in new_data v = push_bit 1 new_data OR word_of_int v"

definition get_new_data :: "('w, 'z) link_scheme \<Rightarrow> u8" where
  "get_new_data s = fold (\<lambda>i new_data. shift_in new_data (rx_data_buffer s ! i)) [0..<8] 0"

definition new_data_available :: "('w, 'z) link_scheme \<Rightarrow> bool" where
  "new_data_available s = newDataFlag s"

definition clear_new_data_flag :: "('w, 'z) link_scheme \<Rightarrow> ('w, 'z) link_scheme" where
  "clear_new_data_flag s = s\<lparr>newDataFlag := False\<rparr>"

lemma bit_shift_in:
  "bit (shift_in d (bit_entry x)) n \<longleftrightarrow> (if n = 0 then x else n < 8 \<and> bit d (n - 1))"
proof -
  have "bit (word_of_int (bit_entry x) :: u8) n \<longleftrightarrow> n = 0 \<and> x"
    by (auto simp: bit_entry_def bit_simps)
  moreover have "bit (push_bit 1 d) n \<longleftrightarrow> 1 \<le> n \<and> n < 8 \<and> bit d (n - 1)"
    by (simp only: bit_push_bit_iff) (auto dest: bit_imp_le_length)
  ultimately show ?thesis
    by (auto simp: shift_in_def bit_or_iff)
qed

lemma get_new_data_bits:
  assumes "rx_data_buffer s = map bit_entry (bits_msb 8 b)"
  shows "get_new_data s = b"
proof -
  have upt: "[0..<8] = [0, 1, 2, 3, 4, 5, 6, 7::nat]"
    by (simp add: upt_rec)
  have "rx_data_buffer s = map (\<lambda>i. bit_entry (bit b i)) [7, 6, 5, 4, 3, 2, 1, 0]"
    by (simp add: assms bits_msb_def upt)
  then have at: "bit (get_new_data s) n \<longleftrightarrow> bit b n" if "n \<in> {0, 1, 2, 3, 4, 5, 6, 7}" for n
    using that by (elim insertE emptyE) (simp_all add: get_new_data_def upt bit_shift_in)
  show ?thesis
  proof (rule bit_word_eqI)
    fix n assume "n < LENGTH(8)"
    then have "n \<in> {0, 1, 2, 3, 4, 5, 6, 7}" by auto
    then show "bit (get_new_data s) n \<longleftrightarrow> bit b n" by (rule at)
  qed
qed

subsection \<open>The edges of a backward frame\<close>

text \<open>
  The receive pin is the inverse of the line: it rests low. A backward frame is a start
  bit (a one) and eight bits, most significant first; a one is high then low at the pin.
  Every bit has an edge in its middle; there is an edge between two bits only where the
  pin is not already at the level the next bit starts with. \<open>ds\<close> gives, for each bit,
  how long after the middle of the previous bit its boundary and its middle come; the
  last entry is the return to rest.
\<close>

fun data_edges :: "u64 \<Rightarrow> bool \<Rightarrow> (u64 \<times> u64) list \<Rightarrow> bool list \<Rightarrow> (u64 \<times> bool) list" where
  "data_edges t lvl [] bs = []"
| "data_edges t lvl ((d1, d2) # ds) [] = (if lvl then [(t + d1, False)] else [])"
| "data_edges t lvl ((d1, d2) # ds) (b # bs) =
     (if lvl \<noteq> b then [(t + d1, b)] else []) @ (t + d2, \<not> b) # data_edges (t + d2) (\<not> b) ds bs"

definition reply_edges :: "u64 \<Rightarrow> u64 \<Rightarrow> (u64 \<times> u64) list \<Rightarrow> u8 \<Rightarrow> (u64 \<times> bool) list" where
  "reply_edges t0 h ds b = (t0, True) # (t0 + h, False) # data_edges (t0 + h) False ds (bits_msb 8 b)"

text \<open>
  What the decoder needs of the line's timing, with \<open>h\<close> the measured half bit: a bit
  boundary comes within three quarters of a bit time after the previous middle, and
  the next middle after more than that.
\<close>

definition good_timing :: "u64 \<Rightarrow> (u64 \<times> u64) list \<Rightarrow> bool" where
  "good_timing h ds \<longleftrightarrow> length ds = 9 \<and>
     list_all (\<lambda>(d1, d2). d1 \<le> offset_75 (h * 2) \<and> offset_75 (h * 2) < d2) ds"

definition rx_idle :: "('w, 'z) comm_scheme \<Rightarrow> bool" where
  "rx_idle s \<longleftrightarrow> stateRx s = START_BIT \<and> counter s = 0 \<and> length (rx_data_buffer s) = 8"

definition rx_at :: "u64 \<Rightarrow> u64 \<Rightarrow> bool list \<Rightarrow> ('w, 'z) comm_scheme \<Rightarrow> bool" where
  "rx_at t off bs s \<longleftrightarrow> stateRx s = DATA \<and> counter s = int (length bs) \<and>
     length (rx_data_buffer s) = 8 \<and>
     take (length bs) (rx_data_buffer s) = map bit_entry bs \<and>
     tm_running (rx_timer s) \<and> tm_base (rx_timer s) = t \<and> T_offset s = off"

definition rx_received :: "bool list \<Rightarrow> ('w, 'z) comm_scheme \<Rightarrow> bool" where
  "rx_received bs s \<longleftrightarrow> rx_idle s \<and> newDataFlag s \<and> rx_data_buffer s = map bit_entry bs"

lemma rx_start:
  assumes "rx_idle s"
  shows "rx_at (t0 + h) (offset_75 (h * 2)) [] (rx_step (t0 + h, False) (rx_step (t0, True) s))"
  using assms
  by (auto simp: rx_idle_def rx_at_def rx_step_def receive_dali_data_def Let_def
      gptimer_start_def gptimer_set_raw_count_def gptimer_get_raw_count_def)

lemma rx_boundary:
  assumes "rx_at t off bs s" and "d \<le> off"
  shows "rx_at t off bs (rx_step (t + d, l) s)"
  using assms
  by (auto simp: rx_at_def rx_step_def receive_dali_data_def Let_def gptimer_get_raw_count_def
      not_less)

lemma rx_mid:
  assumes "rx_at t off bs s" and "off < d" and "length bs < 7"
  shows "rx_at (t + d) off (bs @ [b]) (rx_step (t + d, \<not> b) s)"
  using assms
  by (auto simp: rx_at_def rx_step_def receive_dali_data_def Let_def gptimer_get_raw_count_def
      gptimer_set_raw_count_def bit_entry_def take_Suc_conv_app_nth)

lemma rx_last:
  assumes "rx_at t off bs s" and "off < d" and "length bs = 7"
  shows "b \<Longrightarrow> rx_received (bs @ [b]) (rx_step (t + d, \<not> b) s)"
    and "\<not> b \<Longrightarrow> rx_received (bs @ [b]) (rx_step (t', l) (rx_step (t + d, \<not> b) s))"
proof -
  have buf: "(rx_data_buffer s)[7 := bit_entry b] = map bit_entry (bs @ [b])"
    using assms by (simp add: rx_at_def upd_conv_take_nth_drop)
  show "b \<Longrightarrow> rx_received (bs @ [b]) (rx_step (t + d, \<not> b) s)"
    using assms buf
    by (auto simp: rx_at_def rx_received_def rx_idle_def rx_step_def receive_dali_data_def
        rx_done_def Let_def gptimer_get_raw_count_def bit_entry_def)
  show "\<not> b \<Longrightarrow> rx_received (bs @ [b]) (rx_step (t', l) (rx_step (t + d, \<not> b) s))"
    using assms buf
    by (auto simp: rx_at_def rx_received_def rx_idle_def rx_step_def receive_dali_data_def
        rx_done_def Let_def gptimer_get_raw_count_def bit_entry_def)
qed

lemma rx_data_edges:
  assumes "rx_at t off bs s" and "length bs + length cs = 8" and "cs \<noteq> []"
    and "length ds = Suc (length cs)"
    and "list_all (\<lambda>(d1, d2). d1 \<le> off \<and> off < d2) ds"
  shows "rx_received (bs @ cs) (fold rx_step (data_edges t lvl ds cs) s)"
  using assms
proof (induction cs arbitrary: t bs s lvl ds)
  case Nil
  then show ?case by simp
next
  case (Cons c cs)
  from Cons.prems(4) obtain d1 d2 ds' where ds: "ds = (d1, d2) # ds'" "length ds' = Suc (length cs)"
    by (cases ds) auto
  with Cons.prems(5) have d: "d1 \<le> off" "off < d2" "list_all (\<lambda>(d1, d2). d1 \<le> off \<and> off < d2) ds'"
    by auto
  define s1 where "s1 = (if lvl \<noteq> c then rx_step (t + d1, c) s else s)"
  have at1: "rx_at t off bs s1"
    using Cons.prems(1) d(1) by (simp add: s1_def rx_boundary)
  have run: "fold rx_step (data_edges t lvl ds (c # cs)) s =
      fold rx_step (data_edges (t + d2) (\<not> c) ds' cs) (rx_step (t + d2, \<not> c) s1)"
    by (simp add: ds s1_def)
  show ?case
  proof (cases "cs = []")
    case True
    with Cons.prems(2) have "length bs = 7" by simp
    moreover from True ds obtain e1 e2 where "ds' = [(e1, e2)]"
      by (cases ds') auto
    ultimately show ?thesis
      using rx_last [OF at1 d(2)] True run by (cases c) simp_all
  next
    case False
    with Cons.prems(2) have "length bs < 7" by (cases cs) auto
    then have "rx_at (t + d2) off (bs @ [c]) (rx_step (t + d2, \<not> c) s1)"
      by (rule rx_mid [OF at1 d(2)])
    from Cons.IH [OF this _ False ds(2) d(3)] Cons.prems(2) show ?thesis
      by (simp add: run)
  qed
qed

lemma rx_reply:
  assumes "rx_idle s" and "good_timing h ds"
  shows "rx_received (bits_msb 8 b) (fold rx_step (reply_edges t0 h ds b) s)"
  using rx_data_edges [OF rx_start [OF assms(1), of t0 h], where cs = "bits_msb 8 b" and ds = ds
      and lvl = False] assms(2)
  by (simp add: reply_edges_def good_timing_def bits_msb_def)

text \<open>Receiving touches none of the transmitter's state, nor the gears.\<close>

definition tx_side :: "('w, 'z) comm_scheme \<Rightarrow> u32 \<times> bool \<times> esp_err \<times> bool \<times> 'w \<times> State \<times> int \<times> bool" where
  "tx_side s = (dataToTransmit s, timerOn s, err s, tx_timer_running s, gears s,
     stateTx s, tx_counter s, tx_pin s)"

lemma tx_side_rx_step [simp]: "tx_side (rx_step ev s) = tx_side s"
  by (simp add: tx_side_def rx_step_def receive_dali_data_def rx_done_def Let_def split: State.split)

lemma tx_side_rx_run [simp]: "tx_side (fold rx_step evs s) = tx_side s"
  by (induction evs arbitrary: s) simp_all

lemma tx_side_rx_fields [simp]:
  "tx_side (s\<lparr>newDataFlag := f, rx_data_buffer := d\<rparr>) = tx_side s"
  by (simp add: tx_side_def)

lemma rx_intr_rx_step [simp]: "rx_intr (rx_step ev s)"
  by (simp add: rx_step_def receive_dali_data_def Let_def)

lemma rx_intr_rx_run: "evs \<noteq> [] \<Longrightarrow> rx_intr (fold rx_step evs s)"
  by (cases evs rule: rev_cases) simp_all

section \<open>Waiting on the line\<close>

text \<open>
  While a task waits, the interrupts run: a frame in the shift register goes out, the
  gears read it, and a gear that answers leaves its byte in the receive buffer. What
  the gears do with a frame is the environment: \<open>bus w f\<close> is their state after
  reading \<open>f\<close> and the backward frame they answer with, if any.
\<close>

type_synonym 'w bus = "'w \<Rightarrow> u16 \<Rightarrow> 'w \<times> u8 option"

definition vTaskDelay :: "'w bus \<Rightarrow> 'w link \<Rightarrow> 'w link" where
  "vTaskDelay bus s =
     (if tx_timer_running s
      then let (w, reply) = bus (gears s) (manchester_decode (dataToTransmit s));
               s = s\<lparr>gears := w, err := 0, timerOn := False, tx_timer_running := False, rx_intr := True\<rparr>
           in case reply of
                None \<Rightarrow> s
              | Some b \<Rightarrow> s\<lparr>newDataFlag := True, rx_data_buffer := map bit_entry (bits_msb 8 b)\<rparr>
      else s)"

text \<open>The same wait, carried out alarm by alarm and edge by edge by the interrupt handlers.\<close>

definition isr_wait :: "'w bus \<Rightarrow> u64 \<Rightarrow> u64 \<Rightarrow> (u64 \<times> u64) list \<Rightarrow> 'w comm \<Rightarrow> 'w comm" where
  "isr_wait bus t0 h ds s =
     (if tx_timer_running s
      then let s = fold tx_step (replicate 39 ESP_OK) s;
               (w, reply) = bus (gears s) (manchester_decode (dataToTransmit s));
               s = s\<lparr>gears := w\<rparr>
           in case reply of
                None \<Rightarrow> s
              | Some b \<Rightarrow> fold rx_step (reply_edges t0 h ds b) s
      else s)"

lemma link_truncate_eqI:
  assumes "tx_side s = tx_side s'" "newDataFlag s = newDataFlag s'"
    "rx_data_buffer s = rx_data_buffer s'" "rx_intr s = rx_intr s'"
  shows "link.truncate (s :: 'w comm) = link.truncate (s' :: 'w comm)"
  using assms by (simp add: link.truncate_def tx_side_def)

lemma isr_wait_vTaskDelay:
  assumes "tx_idle s" and "rx_idle s" and "good_timing h ds"
  shows "link.truncate (isr_wait bus t0 h ds s) = vTaskDelay bus (link.truncate s)"
proof (cases "tx_timer_running s")
  case True
  define u where "u = s\<lparr>err := 0, tx_pin := True, manchesterClock := False,
      tx_timer_running := False, stateTx := START_BIT, timerOn := False, tx_counter := 0,
      rx_intr := True\<rparr>"
  obtain w reply where bus: "bus (gears s) (manchester_decode (dataToTransmit s)) = (w, reply)"
    by (cases "bus (gears s) (manchester_decode (dataToTransmit s))")
  show ?thesis
  proof (cases reply)
    case None
    with bus True tx_frame_state [OF assms(1)] show ?thesis
      by (simp add: isr_wait_def vTaskDelay_def link.truncate_def Let_def)
  next
    case (Some b)
    let ?evs = "reply_edges t0 h ds b"
    have "rx_idle (u\<lparr>gears := w\<rparr>)"
      using assms(2) by (simp add: u_def rx_idle_def)
    from rx_reply [OF this assms(3), of b t0]
    have rec: "rx_received (bits_msb 8 b) (fold rx_step ?evs (u\<lparr>gears := w\<rparr>))" .
    have intr: "rx_intr (fold rx_step ?evs (u\<lparr>gears := w\<rparr>))"
      by (rule rx_intr_rx_run) (simp add: reply_edges_def)
    have "isr_wait bus t0 h ds s = fold rx_step ?evs (u\<lparr>gears := w\<rparr>)"
      using bus True Some tx_frame_state [OF assms(1)]
      by (simp add: isr_wait_def u_def Let_def)
    moreover have "link.truncate (fold rx_step ?evs (u\<lparr>gears := w\<rparr>)) =
        link.truncate (u\<lparr>gears := w, newDataFlag := True,
          rx_data_buffer := map bit_entry (bits_msb 8 b)\<rparr>)"
      using rec intr
      by (intro link_truncate_eqI) (simp_all only: tx_side_rx_run tx_side_rx_fields, simp_all add: rx_received_def u_def)
    ultimately show ?thesis
      using bus True Some by (simp add: vTaskDelay_def link.truncate_def Let_def u_def)
  qed
next
  case False
  then show ?thesis
    by (simp add: isr_wait_def vTaskDelay_def link.truncate_def)
qed

section \<open>Brightness mapping\<close>

text \<open>
  \<open>2.54 * input + 1\<close> in floating point, truncated to a byte. For the inputs the clamp
  leaves (0..100) the truncated value is that of the exact rational.
\<close>

definition percent_to_dali_mapping :: "u8 \<Rightarrow> u8" where
  "percent_to_dali_mapping input =
     (let input = (if input > 100 then 100 else input)
      in word_of_nat (254 * unat input div 100 + 1))"

section \<open>Properties\<close>

text \<open>
  C3: Sending a command on an idle line and letting the timer fire 39 times puts exactly
  the DALI forward frame of the command on the pin - start bit, sixteen Manchester cells
  most significant bit first, stop condition - and leaves the transmitter idle, its timer
  stopped and the receive interrupt enabled again.
\<close>

theorem transmit_frame_waveform:
  assumes "tx_idle s" and "\<not> timerOn s"
  shows "tx_trace (replicate 39 ESP_OK) (send_DALI_Tx ESP_OK cmd s) = forward_waveform cmd
    \<and> (let s' = fold tx_step (replicate 39 ESP_OK) (send_DALI_Tx ESP_OK cmd s)
       in tx_idle s' \<and> \<not> timerOn s' \<and> \<not> tx_timer_running s' \<and> rx_intr s' \<and> tx_pin s')"
proof -
  let ?s = "send_DALI_Tx ESP_OK cmd s"
  have idle: "tx_idle ?s" and data: "dataToTransmit ?s = manchester_encode cmd"
    using assms by (simp_all add: send_DALI_Tx_def tx_idle_def Let_def)
  show ?thesis
    unfolding tx_frame_state [OF idle] Let_def
    using tx_frame_trace [OF idle data] by (simp add: tx_idle_def)
qed

definition idle_comm :: "unit comm" where
  "idle_comm = \<lparr>dataToTransmit = 0, timerOn = False, newDataFlag = False,
     rx_data_buffer = replicate 8 8, err = 0, rx_intr = True, tx_timer_running = False, gears = (),
     manchesterClock = True, stateTx = START_BIT, stateRx = START_BIT, counter = 0, tx_counter = 0,
     timerOnRx = False, rxT = 0, T_offset = 0, currentTime = 0, totalRxInterrupt = 0,
     incrementer = 0, incrementer2 = 0, tx_pin = True,
     rx_timer = \<lparr>tm_running = False, tm_base = 0, tm_held = 0\<rparr>\<rparr>"

theorem transmit_frame_waveform_witness:
  "tx_idle idle_comm \<and> \<not> timerOn idle_comm \<and>
   tx_trace (replicate 39 ESP_OK) (send_DALI_Tx ESP_OK 0xA900 idle_comm) = forward_waveform 0xA900"
proof -
  have "tx_idle idle_comm" "\<not> timerOn idle_comm"
    by (simp_all add: idle_comm_def tx_idle_def)
  with transmit_frame_waveform [of idle_comm "0xA900"] show ?thesis by blast
qed

text \<open>
  C4: Whatever byte a gear answers with, the edges of its backward frame - under any
  timing in which bit boundaries come within three quarters of the measured bit time and
  bit middles after it - leave exactly that byte in the receive buffer, raise the
  new-data flag, and return the receiver to waiting for the next start bit.
\<close>

theorem receive_backward_frame:
  assumes "rx_idle s" and "good_timing h ds"
  shows "let s' = fold rx_step (reply_edges t0 h ds b) s
    in new_data_available s' \<and> get_new_data s' = b \<and> rx_idle s'"
  using rx_reply [OF assms, of b t0]
  by (simp add: rx_received_def get_new_data_bits new_data_available_def Let_def)

theorem receive_backward_frame_witness:
  "rx_idle idle_comm \<and> good_timing 416 (replicate 9 (420, 830)) \<and>
   get_new_data (fold rx_step (reply_edges 1000 416 (replicate 9 (420, 830)) 0x5D) idle_comm) = 0x5D"
proof -
  have "rx_idle idle_comm" "good_timing 416 (replicate 9 (420, 830))"
    by (simp_all add: idle_comm_def rx_idle_def good_timing_def offset_75_def list_all_iff)
  with receive_backward_frame [of idle_comm 416 "replicate 9 (420, 830)" 1000 "0x5D"] show ?thesis
    by (simp add: Let_def)
qed

text \<open>
  C8: The wait the rest of the firmware relies on (a pending frame is read by the gears,
  an answer is left in the buffer with the flag raised) is what the alarm and edge
  handlers together produce, on every global a caller of the driver can observe.
\<close>

theorem interrupts_implement_wait:
  assumes "tx_idle s" and "rx_idle s" and "good_timing h ds"
  shows "link.truncate (isr_wait bus t0 h ds s) = vTaskDelay bus (link.truncate s)"
  using assms by (rule isr_wait_vTaskDelay)

theorem interrupts_implement_wait_witness:
  "tx_idle idle_comm \<and> rx_idle idle_comm \<and> good_timing 416 (replicate 9 (416, 832)) \<and>
   link.truncate (isr_wait (\<lambda>w f. (w, Some (ucast f))) 0 416 (replicate 9 (416, 832))
     (send_DALI_Tx 0 0xBB01 idle_comm))
   = vTaskDelay (\<lambda>w f. (w, Some (ucast f))) (link.truncate (send_DALI_Tx 0 0xBB01 idle_comm))"
proof -
  have "tx_idle idle_comm" "rx_idle idle_comm" "good_timing 416 (replicate 9 (416, 832))"
    "tx_idle (send_DALI_Tx 0 0xBB01 idle_comm)" "rx_idle (send_DALI_Tx 0 0xBB01 idle_comm)"
    by (simp_all add: idle_comm_def rx_idle_def tx_idle_def good_timing_def offset_75_def list_all_iff
        send_DALI_Tx_def Let_def)
  with interrupts_implement_wait [of "send_DALI_Tx 0 0xBB01 idle_comm" 416 "replicate 9 (416, 832)"]
  show ?thesis by blast
qed

text \<open>
  C40: Sending a command while a frame is still going out does not queue it: the shift
  register is replaced under the handler, and the rest of the frame on the line is the
  tail of the new command's encoding.
\<close>

theorem send_while_busy_splices_frames:
  assumes "timerOn s" and "stateTx s = DATA" and "tx_counter s = int n - 1"
  shows "tx_trace (replicate n ESP_OK) (send_DALI_Tx e cmd s) = bits_msb n (manchester_encode cmd)"
  using tx_data_trace [of "send_DALI_Tx e cmd s" n] assms
  by (simp add: send_DALI_Tx_def Let_def)

theorem send_while_busy_splices_frames_witness:
  "(let s = idle_comm\<lparr>timerOn := True, stateTx := DATA, tx_counter := 3, dataToTransmit := 0\<rparr>
    in tx_trace (replicate 4 0) (send_DALI_Tx 0 0xA101 s) = [True, False, False, True])"
proof -
  let ?s = "idle_comm\<lparr>timerOn := True, stateTx := DATA, tx_counter := 3, dataToTransmit := 0\<rparr>"
  have "bits_msb 4 (manchester_encode 0xA101) = [True, False, False, True]"
    by (simp add: bits_msb_def upt_rec bit_manchester_encode)
  then show ?thesis
    using send_while_busy_splices_frames [of ?s 4 0 "0xA101"] by (simp add: Let_def)
qed

lemma dead_timer_step:
  assumes "timerOn s" and "\<not> tx_timer_running s"
  shows "timerOn (vTaskDelay bus (send_DALI_Tx e c s)) \<and>
    \<not> tx_timer_running (vTaskDelay bus (send_DALI_Tx e c s)) \<and>
    gears (vTaskDelay bus (send_DALI_Tx e c s)) = gears s"
  using assms by (simp add: send_DALI_Tx_def vTaskDelay_def Let_def)

text \<open>
  If starting the transmit timer fails once, the driver marks it as on all the same
  and never tries again: no later command reaches the gears, whatever later starts
  would have returned.
\<close>

theorem failed_timer_start_silences_the_line:
  assumes "\<not> timerOn s" and "\<not> tx_timer_running s" and "e0 \<noteq> ESP_OK"
  shows "gears (fold (\<lambda>(e, c) s. vTaskDelay bus (send_DALI_Tx e c s)) cmds (send_DALI_Tx e0 c0 s))
    = gears s"
proof -
  have dead: "gears (fold (\<lambda>(e, c) s. vTaskDelay bus (send_DALI_Tx e c s)) cmds u) = gears u"
    if "timerOn u" "\<not> tx_timer_running u" for u
    using that
  proof (induction cmds arbitrary: u)
    case (Cons ec cmds)
    obtain e c where "ec = (e, c)" by (cases ec)
    with dead_timer_step [OF Cons.prems, of bus e c] Cons.IH show ?case by simp
  qed simp
  have "timerOn (send_DALI_Tx e0 c0 s)" "\<not> tx_timer_running (send_DALI_Tx e0 c0 s)"
    "gears (send_DALI_Tx e0 c0 s) = gears s"
    using assms by (simp_all add: send_DALI_Tx_def Let_def)
  with dead show ?thesis by simp
qed

theorem failed_timer_start_silences_the_line_witness:
  "gears (fold (\<lambda>(e, c) s. vTaskDelay (\<lambda>w f. (w + 1, None)) (send_DALI_Tx e c s)) [(0, 0xA900), (0, 0xFE00)]
     (send_DALI_Tx 0x103 0xA500
       \<lparr>dataToTransmit = 0, timerOn = False, newDataFlag = False, rx_data_buffer = replicate 8 8, err = 0,
        rx_intr = True, tx_timer_running = False, gears = 0::nat\<rparr>)) = 0"
  by (subst failed_timer_start_silences_the_line) simp_all

end
