(* ===== verification/Dali_Init.thy ===== *)
theory Dali_Init
  imports Dali_Communication
begin

text \<open>
  components/DALI_communication, set-up: the pin and timer configuration of the line
  (\<open>init_GPIO\<close>, \<open>init_timer\<close>, \<open>init_DALI_communication\<close>). Every driver call may fail;
  its result is an argument, and what the code does next, logs and leaves configured is
  computed from it.
\<close>

section \<open>Pins\<close>

definition GPIO_PIN_TX :: nat where "GPIO_PIN_TX = 2"
definition GPIO_PIN_RX :: nat where "GPIO_PIN_RX = 3"

definition TX_PIN_PULLUP :: bool where "TX_PIN_PULLUP = False"
definition TX_PIN_PULLDOWN :: bool where "TX_PIN_PULLDOWN = False"
definition RX_PIN_PULLUP :: bool where "RX_PIN_PULLUP = True"
definition RX_PIN_PULLDOWN :: bool where "RX_PIN_PULLDOWN = False"

definition io_config_tx :: gpio_config where
  "io_config_tx = \<lparr>cfg_mode = GPIO_MODE_OUTPUT, cfg_intr_type = GPIO_INTR_DISABLE,
     cfg_pin_bit_mask = push_bit GPIO_PIN_TX 1,
     cfg_pull_down_en = TX_PIN_PULLDOWN, cfg_pull_up_en = TX_PIN_PULLUP\<rparr>"

text \<open>The receive pin's pull-down field is set from the pull-up macro, as in the source.\<close>

definition io_config_rx :: gpio_config where
  "io_config_rx = \<lparr>cfg_mode = GPIO_MODE_INPUT, cfg_intr_type = GPIO_INTR_ANYEDGE,
     cfg_pin_bit_mask = push_bit GPIO_PIN_RX 1,
     cfg_pull_down_en = RX_PIN_PULLUP, cfg_pull_up_en = RX_PIN_PULLUP\<rparr>"

text \<open>
  Results: configuring TX, driving TX, configuring RX, and adding the edge handler. The
  last is not stored by the code, so it does not decide the branch that follows it.
\<close>

record gpio_results =
  r_config_tx :: esp_err
  r_set_level :: esp_err
  r_config_rx :: esp_err
  r_isr_add :: esp_err

record line_setup =
  tx_config :: "gpio_config option"
  rx_config :: "gpio_config option"
  rx_handler :: bool       \<comment> \<open>receive_dali_data is attached to GPIO_NUM_3\<close>
  alarm_count :: "nat option"
  alarm_reload :: bool
  alarm_callback :: bool   \<comment> \<open>transmit_bit_on_timer_alarm is registered\<close>
  tx_timer_enabled :: bool
  rx_timer_enabled :: bool
  setup_log :: "log_entry list"

definition put_log :: "log_entry \<Rightarrow> line_setup \<Rightarrow> line_setup" where
  "put_log m u = u\<lparr>setup_log := setup_log u @ [m]\<rparr>"

definition init_GPIO ::
    "gpio_results \<Rightarrow> 'w comm \<times> line_setup \<Rightarrow> 'w comm \<times> line_setup" where
  "init_GPIO r = (\<lambda>(s, u).
     let s = s\<lparr>err := r_config_tx r\<rparr>;
         u = (if err s \<noteq> ESP_OK then put_log (LOGE ''Failed to configure GPIO pin'') u
              else put_log (LOGI ''GPIO TX pin configured successfully'')
                (u\<lparr>tx_config := Some io_config_tx\<rparr>));
         s = gpio_set_tx (r_set_level r) True s;
         u = (if err s \<noteq> ESP_OK then put_log (LOGE ''Failed to set TX pin to LOW'') u
              else put_log (LOGI ''TX pin set to LOW successfully'') u);
         s = s\<lparr>err := r_config_rx r\<rparr>;
         u = (if err s \<noteq> ESP_OK then put_log (LOGE ''Failed to configure GPIO pin'') u
              else put_log (LOGI ''GPIO RX pin configured successfully'')
                (u\<lparr>rx_config := Some io_config_rx\<rparr>));
         u = u\<lparr>rx_handler := (r_isr_add r = ESP_OK)\<rparr>
     in if err s \<noteq> ESP_OK
        then (s, put_log (LOGE ''Failed to add GPIO ISR handler for GPIO_NUM_1'') u)
        else (s\<lparr>rx_intr := True\<rparr>, put_log (LOGI ''GPIO interrupt registered successfully'') u))"

section \<open>Timers\<close>

definition BAUD_RATE :: nat where "BAUD_RATE = 2400"
definition TIMER_FREQUENZ_TX :: nat where "TIMER_FREQUENZ_TX = 1000000"
definition ALARM_COUNT_TX :: nat where "ALARM_COUNT_TX = TIMER_FREQUENZ_TX div BAUD_RATE"

record timer_results =
  r_new_tx :: esp_err
  r_new_rx :: esp_err
  r_alarm :: esp_err
  r_callbacks :: esp_err
  r_enable_tx :: esp_err
  r_enable_rx :: esp_err

definition report :: "esp_err \<Rightarrow> string \<Rightarrow> string \<Rightarrow> line_setup \<Rightarrow> line_setup" where
  "report e bad good u = (if e \<noteq> ESP_OK then put_log (LOGE bad) u else put_log (LOGI good) u)"

definition init_timer :: "timer_results \<Rightarrow> 'w comm \<times> line_setup \<Rightarrow> 'w comm \<times> line_setup" where
  "init_timer r = (\<lambda>(s, u).
     let u = report (r_new_tx r) ''Failed to configure the Tx timer''
               ''Tx timer configured successfully'' u;
         u = report (r_new_rx r) ''Failed to configure the Rx timer''
               ''Rx timer configured successfully'' u;
         u = (if r_alarm r = ESP_OK
              then u\<lparr>alarm_count := Some ALARM_COUNT_TX, alarm_reload := True\<rparr> else u);
         u = report (r_alarm r) ''Failed to set alarm action'' ''Alarm action set successfully'' u;
         u = (if r_callbacks r = ESP_OK then u\<lparr>alarm_callback := True\<rparr> else u);
         u = report (r_callbacks r) ''Failed to register event callback for Tx timer''
               ''Tx Timer event callback registered successfully'' u;
         u = (if r_enable_tx r = ESP_OK then u\<lparr>tx_timer_enabled := True\<rparr> else u);
         u = report (r_enable_tx r) ''Failed to enable the Tx timer in DALI init function''
               ''Tx Timer enabled in DALI_transmit_init() function'' u;
         u = (if r_enable_rx r = ESP_OK then u\<lparr>rx_timer_enabled := True\<rparr> else u);
         u = report (r_enable_rx r) ''Failed to enable the Rx timer in DALI init function''
               ''Rx Timer enabled in DALI_transmit_init() function'' u
     in (s\<lparr>err := r_enable_rx r\<rparr>, u))"

definition init_DALI_communication ::
    "gpio_results \<Rightarrow> timer_results \<Rightarrow> 'w comm \<times> line_setup \<Rightarrow> 'w comm \<times> line_setup" where
  "init_DALI_communication rg rt su =
     (let (s, u) = init_timer rt (init_GPIO rg su)
      in (s\<lparr>rx_data_buffer := fold (\<lambda>i buf. buf[i := 8]) [0..<8] (rx_data_buffer s)\<rparr>, u))"

section \<open>The driver as a whole\<close>

text \<open>The values the globals start with; the others are written before they are read.\<close>

definition driver_start :: "'w comm \<Rightarrow> bool" where
  "driver_start s \<longleftrightarrow> manchesterClock s \<and> stateTx s = START_BIT \<and> stateRx s = START_BIT \<and> counter s = 0 \<and>
     tx_counter s = 0 \<and> dataToTransmit s = 0 \<and> \<not> timerOn s \<and> \<not> timerOnRx s \<and> rx_data_buffer s = replicate 8 0 \<and>
     rxT s = 0 \<and> T_offset s = 0 \<and> \<not> newDataFlag s"

text \<open>
  Everything that runs on the globals of the driver: the calls of its users, and the two
  interrupts, which come at any time and in any order. \<open>Edge_intr now level\<close> is an edge on
  the receive pin; an error code is what the driver library answers.
\<close>

datatype driver_event =
    Set_up gpio_results timer_results
  | Send_frame esp_err u16
  | Clear_flag
  | Alarm_intr esp_err
  | Edge_intr u64 bool

definition driver_step :: "driver_event \<Rightarrow> 'w comm \<times> line_setup \<Rightarrow> 'w comm \<times> line_setup" where
  "driver_step ev = (\<lambda>(s, u). case ev of
       Set_up rg rt \<Rightarrow> init_DALI_communication rg rt (s, u)
     | Send_frame e cmd \<Rightarrow> (send_DALI_Tx e cmd s, u)
     | Clear_flag \<Rightarrow> (clear_new_data_flag s, u)
     | Alarm_intr e \<Rightarrow> (tx_step e s, u)
     | Edge_intr now level \<Rightarrow> (receive_dali_data now level s, u))"

text \<open>Each handler keeps the invariant of the other; the set-up and the calls keep both.\<close>

lemma tx_step_rx_inv: "rx_inv s \<Longrightarrow> rx_inv (tx_step e s)"
  by (auto simp: rx_inv_def transmit_bit_on_timer_alarm_def gpio_set_tx_def Let_def split: State.splits)

lemma edge_tx_inv: "tx_inv (receive_dali_data now level s) = tx_inv s"
  using tx_side_rx_step [of "(now, level)" s] by (simp add: tx_side_def tx_inv_def rx_step_def split: State.split)

lemma length_fold_update: "length (fold (\<lambda>i buf. buf[i := x]) is b) = length b"
  by (induction "is" arbitrary: b) simp_all

lemma set_up_keeps:
  "stateTx (fst (init_DALI_communication rg rt (s, u))) = stateTx s"
  "stateRx (fst (init_DALI_communication rg rt (s, u))) = stateRx s"
  "counter (fst (init_DALI_communication rg rt (s, u))) = counter s"
  "tx_counter (fst (init_DALI_communication rg rt (s, u))) = tx_counter s"
  "length (rx_data_buffer (fst (init_DALI_communication rg rt (s, u)))) = length (rx_data_buffer s)"
  by (simp_all add: init_DALI_communication_def init_timer_def init_GPIO_def gpio_set_tx_def Let_def length_fold_update)

lemma calls_keep_invs:
  "tx_inv (send_DALI_Tx e cmd s) = tx_inv s" "rx_inv (send_DALI_Tx e cmd s) = rx_inv s"
  "tx_inv (clear_new_data_flag s) = tx_inv s" "rx_inv (clear_new_data_flag s) = rx_inv s"
  by (simp_all add: tx_inv_def rx_inv_def send_DALI_Tx_def clear_new_data_flag_def Let_def split: State.split)

definition driver_inv :: "'w comm \<times> line_setup \<Rightarrow> bool" where
  "driver_inv su \<longleftrightarrow> rx_inv (fst su) \<and> tx_inv (fst su)"

lemma driver_step_inv:
  assumes "driver_inv su"
  shows "driver_inv (driver_step ev su)"
proof (cases ev)
  case (Alarm_intr e)
  with assms show ?thesis
    by (simp add: driver_inv_def driver_step_def split_beta tx_step_inv tx_step_rx_inv)
next
  case (Edge_intr now level)
  with assms show ?thesis
    using rx_step_inv [of "fst su" "(now, level)"]
    by (simp add: driver_inv_def driver_step_def split_beta edge_tx_inv rx_step_def)
next
  case (Set_up rg rt)
  with assms show ?thesis
    by (cases su) (simp add: driver_inv_def driver_step_def tx_inv_def rx_inv_def set_up_keeps split: State.splits)
qed (use assms in \<open>simp_all add: driver_inv_def driver_step_def split_beta calls_keep_invs\<close>)

interpretation driver: machine driver_step driver_inv
  by unfold_locales (rule driver_step_inv)

section \<open>Properties\<close>

definition line_ready :: "line_setup \<Rightarrow> bool" where
  "line_ready u \<longleftrightarrow> tx_config u = Some io_config_tx \<and> rx_config u = Some io_config_rx \<and>
     rx_handler u \<and> alarm_count u = Some 416 \<and> alarm_reload u \<and> alarm_callback u \<and>
     tx_timer_enabled u \<and> rx_timer_enabled u"

lemmas init_defs = init_DALI_communication_def init_timer_def init_GPIO_def report_def put_log_def
  gpio_set_tx_def Let_def

lemma init_buffer:
  "length b = 8 \<Longrightarrow> fold (\<lambda>i buf. buf[i := 8]) [0..<8] b = replicate 8 (8::int)"
  by (rule nth_equalityI) (auto simp: upt_rec nth_list_update less_Suc_eq numeral_eq_Suc)

text \<open>
  C28: From the values the globals start with, after any sequence of set-up calls, frames
  sent, alarms, edges and driver failures, in any order: the receive buffer has its eight
  entries, and the next edge writes inside them; the bit the next alarm sends is one of
  the 32 of the shift register; and the two counters are in 0..8 and -1..31, so that
  their int8_t never wraps.
\<close>

theorem interrupt_handlers_stay_in_bounds:
  assumes "driver_start s"
  shows "case fold driver_step evs (s, u) of (s', u') \<Rightarrow>
    length (rx_data_buffer s') = 8
    \<and> 0 \<le> counter s' \<and> counter s' \<le> 8 \<and> (stateRx s' = DATA \<longrightarrow> counter s' < 8)
    \<and> - 1 \<le> tx_counter s' \<and> tx_counter s' < 32"
proof -
  have "driver_inv (s, u)"
    using assms by (simp add: driver_start_def driver_inv_def rx_inv_def tx_inv_def)
  then have "driver_inv (fold driver_step evs (s, u))"
    by (rule driver.run_inv)
  then show ?thesis
    by (auto simp: driver_inv_def rx_inv_def tx_inv_def split_beta split: State.splits)
qed

text \<open>
  When every driver call succeeds, initialisation leaves the line fully configured
  (alarm every 416 microseconds, both handlers attached), the pin at its idle level, the
  receive interrupt on and both handlers in their idle state; 39 alarms, one frame, then
  take 16224 microseconds, inside the 25 ms the callers wait between commands.
\<close>

theorem initialised_line_is_ready:
  assumes "rg = \<lparr>r_config_tx = 0, r_set_level = 0, r_config_rx = 0, r_isr_add = 0\<rparr>"
    and "rt = \<lparr>r_new_tx = 0, r_new_rx = 0, r_alarm = 0, r_callbacks = 0, r_enable_tx = 0, r_enable_rx = 0\<rparr>"
    and "length (rx_data_buffer s) = 8" and "tx_idle s" and "stateRx s = START_BIT" and "counter s = 0"
  shows "let (s', u') = init_DALI_communication rg rt (s, u)
    in line_ready u' \<and> tx_pin s' \<and> rx_intr s' \<and> tx_idle s' \<and> rx_idle s'
       \<and> 39 * the (alarm_count u') = 16224 \<and> 39 * the (alarm_count u') \<le> 25000"
  using assms
  by (simp add: init_defs line_ready_def ALARM_COUNT_TX_def TIMER_FREQUENZ_TX_def BAUD_RATE_def
      tx_idle_def rx_idle_def init_buffer)

definition blank_setup :: line_setup where
  "blank_setup = \<lparr>tx_config = None, rx_config = None, rx_handler = False, alarm_count = None,
     alarm_reload = False, alarm_callback = False, tx_timer_enabled = False,
     rx_timer_enabled = False, setup_log = []\<rparr>"

theorem initialised_line_is_ready_witness:
  "let (s', u') = init_DALI_communication
       \<lparr>r_config_tx = 0, r_set_level = 0, r_config_rx = 0, r_isr_add = 0\<rparr>
       \<lparr>r_new_tx = 0, r_new_rx = 0, r_alarm = 0, r_callbacks = 0, r_enable_tx = 0, r_enable_rx = 0\<rparr>
       (idle_comm, blank_setup)
   in line_ready u' \<and> rx_idle s'"
proof -
  have "length (rx_data_buffer idle_comm) = 8" "tx_idle idle_comm" "stateRx idle_comm = START_BIT"
    "counter idle_comm = 0"
    by (simp_all add: idle_comm_def tx_idle_def)
  from initialised_line_is_ready [OF refl refl this, of blank_setup] show ?thesis
    by (auto simp: Let_def split: prod.splits)
qed

lemma interrupt_handlers_stay_in_bounds_witness:
  "let s' = fst (fold driver_step [Edge_intr 3 True, Send_frame 0 0xA900, Alarm_intr 0, Edge_intr 9 True, Alarm_intr 5, Edge_intr 9 False]
      (idle_comm\<lparr>rx_data_buffer := replicate 8 0\<rparr>, blank_setup))
    in length (rx_data_buffer s') = 8 \<and> counter s' \<le> 8 \<and> tx_counter s' < 32"
proof -
  have "driver_start (idle_comm\<lparr>rx_data_buffer := replicate 8 0\<rparr>)"
    by (simp add: driver_start_def idle_comm_def)
  from interrupt_handlers_stay_in_bounds [OF this, where u = blank_setup
      and evs = "[Edge_intr 3 True, Send_frame 0 0xA900, Alarm_intr 0, Edge_intr 9 True, Alarm_intr 5, Edge_intr 9 False]"]
  show ?thesis by (simp only: Let_def split_beta)
qed

text \<open>
  A failure to attach the edge handler goes unnoticed: the code tests the result of
  the configuration call before it, logs success and enables the interrupt.
\<close>

theorem failed_handler_registration_is_reported_as_success:
  assumes "r_config_rx rg = ESP_OK" and "r_isr_add rg \<noteq> ESP_OK"
  shows "let (s', u') = init_GPIO rg (s, u)
    in last (setup_log u') = LOGI ''GPIO interrupt registered successfully''
       \<and> rx_intr s' \<and> \<not> rx_handler u'"
  using assms by (simp add: init_defs)

theorem failed_handler_registration_is_reported_as_success_witness:
  "let (s', u') = init_GPIO \<lparr>r_config_tx = 0, r_set_level = 0, r_config_rx = 0, r_isr_add = 0x103\<rparr>
       (idle_comm, blank_setup)
   in rx_intr s' \<and> \<not> rx_handler u'"
  using failed_handler_registration_is_reported_as_success
    [of "\<lparr>r_config_tx = 0, r_set_level = 0, r_config_rx = 0, r_isr_add = 0x103\<rparr>" idle_comm blank_setup]
  by (auto simp: Let_def split: prod.splits)

end
