(* ===== verification/Device.thy ===== *)
theory Device
  imports Prelude
begin

text \<open>
  components/device: what the gateway knows of one control gear. The array of 64 such
  records the other components share is a list; writing past its end is a fault value
  of the model, never a silent no-op.
\<close>

record Device_t =
  short_address :: u8
  manufactoring_id :: u64
  refresh_token :: string

datatype fault = Still_running | Out_of_bounds | Abort

text \<open>\<open>xs[i].f = v\<close> on an array of fixed size.\<close>

definition array_update :: "nat \<Rightarrow> ('a \<Rightarrow> 'a) \<Rightarrow> 'a list \<Rightarrow> fault + 'a list" where
  "array_update i f xs = (if i < length xs then Inr (xs[i := f (xs ! i)]) else Inl Out_of_bounds)"

lemma array_update_Inr [simp]: "i < length xs \<Longrightarrow> array_update i f xs = Inr (xs[i := f (xs ! i)])"
  by (simp add: array_update_def)

lemma array_update_Inl [simp]: "\<not> i < length xs \<Longrightarrow> array_update i f xs = Inl Out_of_bounds"
  by (simp add: array_update_def)

end
