(* ===== verification/Dali_Addressing.thy ===== *)
theory Dali_Addressing
  imports Dali_Communication Device
begin

text \<open>
  components/DALI_addressing: finding, counting and commissioning the gears on the line.
  All operations are sequences of frames and waits on the \<open>link\<close> of Dali_Communication;
  the gears behind it are the environment \<open>bus\<close>. What the code relies on of the gears
  (the addressing commands of the DALI standard) is the predicate \<open>dali_bus\<close>.
\<close>

section \<open>Commands\<close>

definition INITIALIZE_ALL_DEVICE :: u16 where "INITIALIZE_ALL_DEVICE = 0xA500"
definition GENERATE_RANDOM_ADDRESS :: u16 where "GENERATE_RANDOM_ADDRESS = 0xA700"
definition COMPARE :: u16 where "COMPARE = 0xA900"
definition WITHDRAW :: u16 where "WITHDRAW = 0xAB00"
definition SEARCH_ADDRESS_H :: u16 where "SEARCH_ADDRESS_H = 0xB100"
definition SEARCH_ADDRESS_M :: u16 where "SEARCH_ADDRESS_M = 0xB300"
definition SEARCH_ADDRESS_L :: u16 where "SEARCH_ADDRESS_L = 0xB500"
definition PROGRAM_SHORT_ADDRESS :: u16 where "PROGRAM_SHORT_ADDRESS = 0xB701"
definition QUERY_SHORT_ADDRESS :: u16 where "QUERY_SHORT_ADDRESS = 0xBB01"
definition VERIFY_SHORT_ADDRESS :: u16 where "VERIFY_SHORT_ADDRESS = 0xB901"
definition TERMINATE :: u16 where "TERMINATE = 0xA100"

abbreviation send :: "u16 \<Rightarrow> 'w link \<Rightarrow> 'w link" where
  "send cmd s \<equiv> send_DALI_Tx ESP_OK cmd s"

section \<open>Operations\<close>

definition set_search_address :: "'w bus \<Rightarrow> address24_t \<Rightarrow> 'w link \<Rightarrow> 'w link" where
  "set_search_address bus address s =
     (let hByte = ucast ((drop_bit 16 address) AND 0xFF) :: u8;
          mByte = ucast ((drop_bit 8 address) AND 0xFF) :: u8;
          lByte = ucast ((drop_bit 0 address) AND 0xFF) :: u8;
          s = send (SEARCH_ADDRESS_H + ucast hByte) s;
          s = vTaskDelay bus s;
          s = send (SEARCH_ADDRESS_M + ucast mByte) s;
          s = vTaskDelay bus s;
          s = send (SEARCH_ADDRESS_L + ucast lByte) s
      in vTaskDelay bus s)"

definition take_answer :: "'w link \<Rightarrow> bool \<times> 'w link" where
  "take_answer s = (if new_data_available s then (True, clear_new_data_flag s) else (False, s))"

definition compare_device_address :: "'w bus \<Rightarrow> address24_t \<Rightarrow> 'w link \<Rightarrow> bool \<times> 'w link" where
  "compare_device_address bus address s =
     (let s = set_search_address bus address s;
          s = vTaskDelay bus s;
          s = send COMPARE s;
          s = vTaskDelay bus s
      in take_answer s)"

definition verify_short_address :: "'w bus \<Rightarrow> u8 \<Rightarrow> 'w link \<Rightarrow> bool \<times> 'w link" where
  "verify_short_address bus shortAddress s =
     (let s = vTaskDelay bus s;
          s = send (VERIFY_SHORT_ADDRESS OR push_bit 1 (ucast shortAddress)) s;
          s = vTaskDelay bus s
      in take_answer s)"

definition program_short_address :: "'w bus \<Rightarrow> address24_t \<Rightarrow> u8 \<Rightarrow> 'w link \<Rightarrow> 'w link" where
  "program_short_address bus longAddress shortAddress s =
     (let s = set_search_address bus longAddress s;
          s = vTaskDelay bus s;
          s = send (PROGRAM_SHORT_ADDRESS OR push_bit 1 (ucast shortAddress)) s
      in vTaskDelay bus s)"

definition set_all_devices_in_initialize_state :: "'w bus \<Rightarrow> 'w link \<Rightarrow> 'w link" where
  "set_all_devices_in_initialize_state bus s =
     (let s = vTaskDelay bus s;
          s = send INITIALIZE_ALL_DEVICE s;
          s = vTaskDelay bus s;
          s = send INITIALIZE_ALL_DEVICE s
      in vTaskDelay bus s)"

definition generate_random_device_addresses :: "'w bus \<Rightarrow> 'w link \<Rightarrow> 'w link" where
  "generate_random_device_addresses bus s =
     (let s = send GENERATE_RANDOM_ADDRESS s;
          s = vTaskDelay bus s;
          s = send GENERATE_RANDOM_ADDRESS s
      in vTaskDelay bus s)"

text \<open>
  The binary search loop of \<open>find_lowest_device_address\<close>, over the comparison it makes.
  The midpoint is computed in unsigned arithmetic; \<open>floor\<close> of it is the identity.
\<close>

lemma unat_midpoint:
  fixes lo hi :: address24_t
  assumes "lo < hi"
  shows "unat (lo + (hi - lo) div 2) = unat lo + (unat hi - unat lo) div 2"
proof -
  have diff: "unat (hi - lo) = unat hi - unat lo"
    using assms by (simp add: unat_sub less_imp_le)
  have "unat lo + (unat hi - unat lo) div 2 < 2 ^ 32"
    using assms unsigned_less [of hi, where ?'a = nat] by (simp add: word_less_nat_alt)
  then show ?thesis
    by (simp add: unat_word_ariths unat_div diff)
qed

function bsearch_lowest ::
    "(address24_t \<Rightarrow> 's \<Rightarrow> bool \<times> 's) \<Rightarrow> address24_t \<Rightarrow> address24_t \<Rightarrow> 's \<Rightarrow> address24_t \<times> 's" where
  "bsearch_lowest probe start end' s =
     (if start < end'
      then let mid = start + (end' - start) div 2
           in case probe mid s of (answer, s) \<Rightarrow>
                if answer then bsearch_lowest probe start mid s
                else bsearch_lowest probe (mid + 1) end' s
      else (start, s))"
  by pat_completeness auto
termination
proof (relation "measure (\<lambda>(probe, lo, hi, s). unat hi - unat lo)", goal_cases)
  case 1
  then show ?case by simp
next
  case (2 probe lo hi s mid ans)
  then show ?case
    by (simp add: unat_midpoint) (simp add: word_less_nat_alt)
next
  case (3 probe lo hi s mid p ans)
  have "unat mid < unat hi"
    using 3(1,2) by (simp add: unat_midpoint) (simp add: word_less_nat_alt)
  then have "unat (mid + 1) = unat mid + 1"
    using unsigned_less [of hi, where ?'a = nat] by (simp add: unat_word_ariths)
  with 3(1,2) show ?case
    by (simp add: unat_midpoint) (simp add: word_less_nat_alt)
qed

declare bsearch_lowest.simps [simp del]

definition find_lowest_device_address ::
    "'w bus \<Rightarrow> address24_t \<Rightarrow> address24_t \<Rightarrow> 'w link \<Rightarrow> address24_t \<times> 'w link" where
  "find_lowest_device_address bus = bsearch_lowest (compare_device_address bus)"

text \<open>
  The two loops below run until the search finds no gear, which only the gears decide.
  They take fuel; \<open>Inl Still_running\<close> says it ran out. \<open>counter\<close> is a \<open>uint8_t\<close>.
\<close>

fun commission_loop ::
    "'w bus \<Rightarrow> nat \<Rightarrow> u8 \<Rightarrow> address24_t \<Rightarrow> 'w link \<Rightarrow> fault + u8 \<times> 'w link" where
  "commission_loop bus 0 count address s = Inl Still_running"
| "commission_loop bus (Suc fuel) count address s =
     (let (address, s) = find_lowest_device_address bus address 0xFFFFFF s
      in if address = 0xFFFFFF then Inr (count, s)
         else let s = vTaskDelay bus s;
                  s = program_short_address bus address count s;
                  (_, s) = verify_short_address bus count s;
                  s = vTaskDelay bus s;
                  s = send WITHDRAW s;
                  s = vTaskDelay bus s
              in commission_loop bus fuel (count + 1) address s)"

definition commission_bus :: "'w bus \<Rightarrow> nat \<Rightarrow> 'w link \<Rightarrow> fault + u8 \<times> 'w link" where
  "commission_bus bus fuel s =
     (let s = set_all_devices_in_initialize_state bus s;
          s = generate_random_device_addresses bus s
      in case commission_loop bus fuel 0 0 s of
           Inl f \<Rightarrow> Inl f
         | Inr (count, s) \<Rightarrow>
             let s = send TERMINATE s; s = vTaskDelay bus s in Inr (count, s))"

text \<open>What \<open>check_drivers_commissioned\<close> fills in through its pointers.\<close>

record inventory =
  devices_on_bus :: "Device_t list"
  devices_on_bus_count :: u8
  uncommissioned_addresses :: "address24_t list"
  uncommissioned_count :: u8

definition record_answer :: "u8 option \<Rightarrow> address24_t \<Rightarrow> inventory \<Rightarrow> fault + inventory" where
  "record_answer response address iv =
     (case response of
        Some r \<Rightarrow>
          (case array_update (unat (devices_on_bus_count iv))
                  (\<lambda>d. d\<lparr>short_address := r\<rparr>) (devices_on_bus iv) of
             Inl f \<Rightarrow> Inl f
           | Inr ds \<Rightarrow> Inr (iv\<lparr>devices_on_bus := ds,
                               devices_on_bus_count := devices_on_bus_count iv + 1\<rparr>))
      | None \<Rightarrow>
          (case array_update (unat (uncommissioned_count iv))
                  (\<lambda>_. address) (uncommissioned_addresses iv) of
             Inl f \<Rightarrow> Inl f
           | Inr us \<Rightarrow> Inr (iv\<lparr>uncommissioned_addresses := us,
                               uncommissioned_count := uncommissioned_count iv + 1\<rparr>)))"

fun check_loop ::
    "'w bus \<Rightarrow> nat \<Rightarrow> inventory \<Rightarrow> address24_t \<Rightarrow> 'w link \<Rightarrow> fault + inventory \<times> 'w link" where
  "check_loop bus 0 iv address s = Inl Still_running"
| "check_loop bus (Suc fuel) iv address s =
     (let (address, s) = find_lowest_device_address bus address 0xFFFFFF s
      in if address = 0xFFFFFF then Inr (iv, s)
         else let s = set_search_address bus address s;
                  s = set_search_address bus address s;
                  s = send QUERY_SHORT_ADDRESS s;
                  s = vTaskDelay bus s;
                  (response, s) =
                    (if new_data_available s
                     then (Some (drop_bit 1 (get_new_data s)), clear_new_data_flag s)
                     else (None, s))
              in case record_answer response address iv of
                   Inl f \<Rightarrow> Inl f
                 | Inr iv \<Rightarrow>
                     let s = vTaskDelay bus s;
                         s = send WITHDRAW s;
                         s = vTaskDelay bus s
                     in check_loop bus fuel iv address s)"

definition bus_status :: "inventory \<Rightarrow> DALI_Status" where
  "bus_status iv =
     (if uncommissioned_count iv \<noteq> 0
      then if devices_on_bus_count iv \<noteq> 0 then DALI_ERR_BUS_CORRUPTED
           else DALI_ERR_BUS_NOT_COMMISIONED
      else if devices_on_bus_count iv = 0 then DALI_ERR_NO_RESPONSE_ON_BUS
           else DALI_OK)"

definition check_drivers_commissioned ::
    "'w bus \<Rightarrow> nat \<Rightarrow> inventory \<Rightarrow> 'w link \<Rightarrow> fault + DALI_Status \<times> inventory \<times> 'w link" where
  "check_drivers_commissioned bus fuel iv s =
     (let s = set_all_devices_in_initialize_state bus s;
          s = generate_random_device_addresses bus s
      in case check_loop bus fuel iv 0 s of
           Inl f \<Rightarrow> Inl f
         | Inr (iv, s) \<Rightarrow>
             let s = send TERMINATE s in Inr (bus_status iv, iv, s))"

section \<open>Searching\<close>

text \<open>
  The contract of a comparison: it says whether some participant lies at or below the
  probed address, and leaves the participants alone.
\<close>

locale lowest_search =
  fixes probe :: "address24_t \<Rightarrow> 's \<Rightarrow> bool \<times> 's"
    and addrs :: "'s \<Rightarrow> address24_t set"
    and ok :: "'s \<Rightarrow> bool"
  assumes probe_answer: "ok s \<Longrightarrow> a < 0x1000000 \<Longrightarrow> fst (probe a s) \<longleftrightarrow> (\<exists>p\<in>addrs s. p \<le> a)"
    and probe_ok: "ok s \<Longrightarrow> a < 0x1000000 \<Longrightarrow> ok (snd (probe a s))"
    and probe_addrs: "ok s \<Longrightarrow> a < 0x1000000 \<Longrightarrow> addrs (snd (probe a s)) = addrs s"
begin

lemma bsearch_correct:
  assumes "ok s" and "hi \<le> 0xFFFFFF" and "lo \<le> hi" and "\<forall>p\<in>addrs s. lo \<le> p"
  shows "ok (snd (bsearch_lowest probe lo hi s))
    \<and> addrs (snd (bsearch_lowest probe lo hi s)) = addrs s
    \<and> fst (bsearch_lowest probe lo hi s) = (if \<exists>p\<in>addrs s. p < hi then Min (addrs s) else hi)"
  using assms
proof (induction "unat hi - unat lo" arbitrary: lo hi s rule: less_induct)
  case less
  show ?case
  proof (cases "lo < hi")
    case False
    with less.prems show ?thesis
      by (auto simp: bsearch_lowest.simps)
  next
    case True
    define mid where "mid = lo + (hi - lo) div 2"
    have umid: "unat mid = unat lo + (unat hi - unat lo) div 2"
      unfolding mid_def using True by (rule unat_midpoint)
    have lt: "unat lo < unat hi" and hi: "unat hi \<le> 0xFFFFFF"
      using True less.prems(2) by (simp_all add: word_less_nat_alt word_le_nat_alt)
    have mid: "lo \<le> mid" "mid < hi" "mid < 0x1000000"
      using umid lt hi by (simp_all add: word_less_nat_alt word_le_nat_alt)
    obtain ans s1 where probe: "probe mid s = (ans, s1)"
      by (cases "probe mid s")
    have s1: "ok s1" "addrs s1 = addrs s" "ans \<longleftrightarrow> (\<exists>p\<in>addrs s. p \<le> mid)"
      using probe_ok [OF less.prems(1) mid(3)] probe_addrs [OF less.prems(1) mid(3)]
        probe_answer [OF less.prems(1) mid(3)] by (simp_all add: probe)
    show ?thesis
    proof (cases ans)
      case True
      have "unat mid - unat lo < unat hi - unat lo"
        using umid lt by linarith
      from less.hyps [OF this s1(1) _ mid(1)] less.prems s1(2) mid
      have IH: "ok (snd (bsearch_lowest probe lo mid s1))"
        "addrs (snd (bsearch_lowest probe lo mid s1)) = addrs s"
        "fst (bsearch_lowest probe lo mid s1) = (if \<exists>p\<in>addrs s. p < mid then Min (addrs s) else mid)"
        by (auto simp del: finite)
      have "(if \<exists>p\<in>addrs s. p < mid then Min (addrs s) else mid) = Min (addrs s)"
        using True s1(3) by (auto intro!: Min_eqI [symmetric] simp: not_less)
      moreover have "\<exists>p\<in>addrs s. p < hi"
        using True s1(3) mid(2) by (auto intro: le_less_trans)
      ultimately show ?thesis
        using IH \<open>lo < hi\<close> True
        by (simp add: bsearch_lowest.simps [of probe lo hi s] Let_def flip: mid_def) (simp add: probe)
    next
      case False
      have usuc: "unat (mid + 1) = unat mid + 1"
        using umid lt hi by (simp add: unat_word_ariths)
      have "mid + 1 \<le> hi" and "unat hi - unat (mid + 1) < unat hi - unat lo"
        using usuc umid lt by (simp_all add: word_le_nat_alt)
      moreover have "\<forall>p\<in>addrs s. mid + 1 \<le> p"
        using False s1(3) usuc
        by (auto simp: word_le_nat_alt not_le word_less_nat_alt Suc_le_eq)
      ultimately show ?thesis
        using less.hyps [of hi "mid + 1" s1] s1 less.prems(2) \<open>lo < hi\<close> False
        by (simp add: bsearch_lowest.simps [of probe lo hi s] Let_def flip: mid_def) (simp add: probe)
    qed
  qed
qed

end

text \<open>Each round halves the range: a 24-bit search makes at most 24 comparisons.\<close>

definition counted :: "(address24_t \<Rightarrow> 's \<Rightarrow> bool \<times> 's) \<Rightarrow> address24_t \<Rightarrow> 's \<times> nat \<Rightarrow> bool \<times> 's \<times> nat" where
  "counted probe a sn = (let (b, s) = probe a (fst sn) in (b, s, Suc (snd sn)))"

lemma bsearch_probes:
  assumes "unat hi - unat lo < 2 ^ k"
  shows "snd (snd (bsearch_lowest (counted probe) lo hi (s, n))) \<le> n + k"
  using assms
proof (induction k arbitrary: lo hi s n)
  case 0
  then have "\<not> lo < hi" by (simp add: word_less_nat_alt)
  then show ?case by (simp add: bsearch_lowest.simps)
next
  case (Suc k)
  show ?case
  proof (cases "lo < hi")
    case False
    then show ?thesis by (simp add: bsearch_lowest.simps)
  next
    case True
    define mid where "mid = lo + (hi - lo) div 2"
    have umid: "unat mid = unat lo + (unat hi - unat lo) div 2"
      unfolding mid_def using True by (rule unat_midpoint)
    have lt: "unat lo < unat hi"
      using True by (simp add: word_less_nat_alt)
    obtain b s1 where probe: "probe mid s = (b, s1)"
      by (cases "probe mid s")
    have usuc: "unat (mid + 1) = unat mid + 1"
      using umid lt unsigned_less [of hi, where ?'a = nat] by (simp add: unat_word_ariths)
    have a: "unat mid - unat lo < 2 ^ k" and b: "unat hi - unat (mid + 1) < 2 ^ k"
      using umid lt usuc Suc.prems by simp_all
    have "counted probe mid (s, n) = (b, s1, Suc n)"
      by (simp add: counted_def probe)
    then show ?thesis
      using True Suc.IH [OF a, of s1 "Suc n"] Suc.IH [OF b, of s1 "Suc n"]
      by (simp add: bsearch_lowest.simps [of "counted probe" lo hi] Let_def flip: mid_def)
  qed
qed

section \<open>The gears on the line\<close>

text \<open>
  What the operations rely on of the gears: the addressing commands of the DALI
  standard, over an abstract view of the line. \<open>parts\<close> are the random addresses of the
  gears that take part in the search (initialised and not withdrawn); the search
  address is held in three bytes; \<open>short\<close> is the short address stored by the gear with
  a given random address; \<open>no_short\<close> is what a gear without one answers.
\<close>

record gear_view =
  parts :: "address24_t set"
  search_h :: u8
  search_m :: u8
  search_l :: u8
  short :: "address24_t \<Rightarrow> u8 option"

definition address_of_bytes :: "u8 \<Rightarrow> u8 \<Rightarrow> u8 \<Rightarrow> address24_t" where
  "address_of_bytes h m l = push_bit 16 (ucast h) OR push_bit 8 (ucast m) OR ucast l"

definition search_addr :: "gear_view \<Rightarrow> address24_t" where
  "search_addr v = address_of_bytes (search_h v) (search_m v) (search_l v)"

definition silent :: "('w \<times> u8 option) \<Rightarrow> bool" where
  "silent r \<longleftrightarrow> snd r = None"

definition dali_bus :: "'w bus \<Rightarrow> ('w \<Rightarrow> gear_view) \<Rightarrow> u8 option \<Rightarrow> bool" where
  "dali_bus bus view no_short \<longleftrightarrow> (\<forall>w.
     (\<forall>p\<in>parts (view w). p < 0xFFFFFF) \<and>
     silent (bus w INITIALIZE_ALL_DEVICE) \<and>
     silent (bus w GENERATE_RANDOM_ADDRESS) \<and>
     silent (bus w TERMINATE) \<and>
     short (view (fst (bus w TERMINATE))) = short (view w) \<and>
     (\<forall>b. silent (bus w (SEARCH_ADDRESS_H + ucast b)) \<and>
        view (fst (bus w (SEARCH_ADDRESS_H + ucast b))) = (view w)\<lparr>search_h := b\<rparr>) \<and>
     (\<forall>b. silent (bus w (SEARCH_ADDRESS_M + ucast b)) \<and>
        view (fst (bus w (SEARCH_ADDRESS_M + ucast b))) = (view w)\<lparr>search_m := b\<rparr>) \<and>
     (\<forall>b. silent (bus w (SEARCH_ADDRESS_L + ucast b)) \<and>
        view (fst (bus w (SEARCH_ADDRESS_L + ucast b))) = (view w)\<lparr>search_l := b\<rparr>) \<and>
     view (fst (bus w COMPARE)) = view w \<and>
     (snd (bus w COMPARE) \<noteq> None \<longleftrightarrow> (\<exists>p\<in>parts (view w). p \<le> search_addr (view w))) \<and>
     silent (bus w WITHDRAW) \<and>
     view (fst (bus w WITHDRAW)) = (view w)\<lparr>parts := parts (view w) - {search_addr (view w)}\<rparr> \<and>
     (\<forall>k<(64::u8). silent (bus w (PROGRAM_SHORT_ADDRESS OR push_bit 1 (ucast k))) \<and>
        (search_addr (view w) \<in> parts (view w) \<longrightarrow>
         view (fst (bus w (PROGRAM_SHORT_ADDRESS OR push_bit 1 (ucast k))))
           = (view w)\<lparr>short := (short (view w))(search_addr (view w) \<mapsto> k)\<rparr>)) \<and>
     (\<forall>k<(64::u8). view (fst (bus w (VERIFY_SHORT_ADDRESS OR push_bit 1 (ucast k)))) = view w) \<and>
     view (fst (bus w QUERY_SHORT_ADDRESS)) = view w \<and>
     (search_addr (view w) \<in> parts (view w) \<longrightarrow>
        snd (bus w QUERY_SHORT_ADDRESS) =
          (case short (view w) (search_addr (view w)) of
             Some k \<Rightarrow> Some (push_bit 1 k OR 1) | None \<Rightarrow> no_short)))"

lemma dali_busD:
  assumes "dali_bus bus view ns"
  shows dali_bus_range: "p \<in> parts (view w) \<Longrightarrow> p < 0xFFFFFF"
    and dali_bus_init: "silent (bus w INITIALIZE_ALL_DEVICE)"
    and dali_bus_random: "silent (bus w GENERATE_RANDOM_ADDRESS)"
    and dali_bus_terminate: "silent (bus w TERMINATE)"
      "short (view (fst (bus w TERMINATE))) = short (view w)"
    and dali_bus_h: "silent (bus w (SEARCH_ADDRESS_H + ucast b))"
      "view (fst (bus w (SEARCH_ADDRESS_H + ucast b))) = (view w)\<lparr>search_h := b\<rparr>"
    and dali_bus_m: "silent (bus w (SEARCH_ADDRESS_M + ucast b))"
      "view (fst (bus w (SEARCH_ADDRESS_M + ucast b))) = (view w)\<lparr>search_m := b\<rparr>"
    and dali_bus_l: "silent (bus w (SEARCH_ADDRESS_L + ucast b))"
      "view (fst (bus w (SEARCH_ADDRESS_L + ucast b))) = (view w)\<lparr>search_l := b\<rparr>"
    and dali_bus_compare: "view (fst (bus w COMPARE)) = view w"
      "snd (bus w COMPARE) \<noteq> None \<longleftrightarrow> (\<exists>p\<in>parts (view w). p \<le> search_addr (view w))"
    and dali_bus_withdraw: "silent (bus w WITHDRAW)"
      "view (fst (bus w WITHDRAW)) = (view w)\<lparr>parts := parts (view w) - {search_addr (view w)}\<rparr>"
    and dali_bus_program: "k < (64::u8) \<Longrightarrow> silent (bus w (PROGRAM_SHORT_ADDRESS OR push_bit 1 (ucast k)))"
      "k < 64 \<Longrightarrow> search_addr (view w) \<in> parts (view w) \<Longrightarrow>
        view (fst (bus w (PROGRAM_SHORT_ADDRESS OR push_bit 1 (ucast k))))
          = (view w)\<lparr>short := (short (view w))(search_addr (view w) \<mapsto> k)\<rparr>"
    and dali_bus_verify: "k < (64::u8) \<Longrightarrow>
      view (fst (bus w (VERIFY_SHORT_ADDRESS OR push_bit 1 (ucast k)))) = view w"
    and dali_bus_query: "view (fst (bus w QUERY_SHORT_ADDRESS)) = view w"
      "search_addr (view w) \<in> parts (view w) \<Longrightarrow> snd (bus w QUERY_SHORT_ADDRESS) =
        (case short (view w) (search_addr (view w)) of
           Some k \<Rightarrow> Some (push_bit 1 k OR 1) | None \<Rightarrow> ns)"
  using assms unfolding dali_bus_def by metis+

section \<open>Effect of the operations\<close>

text \<open>Between two operations nothing is in flight and no answer is waiting.\<close>

definition idle_link :: "'w link \<Rightarrow> bool" where
  "idle_link s \<longleftrightarrow> \<not> timerOn s \<and> \<not> tx_timer_running s \<and> \<not> newDataFlag s"

lemma wait_idle [simp]: "idle_link s \<Longrightarrow> vTaskDelay bus s = s"
  by (simp add: idle_link_def vTaskDelay_def)

text \<open>A command followed by a wait.\<close>

lemma exchange:
  assumes "idle_link s"
  shows "gears (vTaskDelay bus (send f s)) = fst (bus (gears s) f)"
    and "snd (bus (gears s) f) = None \<Longrightarrow> idle_link (vTaskDelay bus (send f s))"
    and "new_data_available (vTaskDelay bus (send f s)) \<longleftrightarrow> snd (bus (gears s) f) \<noteq> None"
    and "snd (bus (gears s) f) = Some b \<Longrightarrow> get_new_data (vTaskDelay bus (send f s)) = b"
    and "idle_link (clear_new_data_flag (vTaskDelay bus (send f s)))"
  using assms
  by (auto simp: idle_link_def vTaskDelay_def send_DALI_Tx_def Let_def manchester.dec_enc
      new_data_available_def clear_new_data_flag_def get_new_data_bits
      split: prod.splits option.splits)

lemma gears_clear [simp]: "gears (clear_new_data_flag t) = gears t"
  by (simp add: clear_new_data_flag_def)

lemma exchange_silent:
  assumes "idle_link s" and "silent (bus (gears s) f)"
  shows "idle_link (vTaskDelay bus (send f s))"
  using exchange(2) [OF assms(1)] assms(2) by (simp add: silent_def)

lemma take_answer_exchange:
  assumes "idle_link s"
  shows "fst (take_answer (vTaskDelay bus (send f s))) \<longleftrightarrow> snd (bus (gears s) f) \<noteq> None"
    and "idle_link (snd (take_answer (vTaskDelay bus (send f s))))"
    and "gears (snd (take_answer (vTaskDelay bus (send f s)))) = fst (bus (gears s) f)"
  using exchange(1,2,3,5) [OF assms, of bus f]
  by (auto simp: take_answer_def new_data_available_def)

lemma bit_address_byte:
  "bit (ucast ((drop_bit k (a :: address24_t)) AND 0xFF) :: u8) n \<longleftrightarrow> n < 8 \<and> bit a (k + n)"
  by (simp only: bit_ucast_iff bit_and_iff bit_255 bit_drop_bit_eq o_apply)
    (auto dest: bit_imp_le_length)

lemma address_bytes:
  assumes "a < 0x1000000"
  shows "address_of_bytes (ucast ((drop_bit 16 a) AND 0xFF)) (ucast ((drop_bit 8 a) AND 0xFF))
    (ucast ((drop_bit 0 a) AND 0xFF)) = a"
proof (rule bit_word_eqI)
  fix n assume n: "n < LENGTH(32)"
  have high: "bit a m \<Longrightarrow> m < 24" for m
    by (rule bit_less_exp) (use assms in \<open>simp_all add: word_less_nat_alt\<close>)
  have bits: "bit (address_of_bytes x y z) n \<longleftrightarrow>
      16 \<le> n \<and> bit x (n - 16) \<or> 8 \<le> n \<and> bit y (n - 8) \<or> bit z n" for x y z
    using n by (auto simp: address_of_bytes_def bit_or_iff bit_push_bit_iff bit_ucast_iff
        dest: bit_imp_le_length)
  show "bit (address_of_bytes (ucast ((drop_bit 16 a) AND 0xFF)) (ucast ((drop_bit 8 a) AND 0xFF))
    (ucast ((drop_bit 0 a) AND 0xFF))) n \<longleftrightarrow> bit a n"
    using high [of n] by (simp only: bits bit_address_byte) (cases "16 \<le> n"; auto)
qed

lemma set_search_address:
  assumes law: "dali_bus bus view ns" and "idle_link s" and "a < 0x1000000"
  shows "idle_link (set_search_address bus a s)"
    and "search_addr (view (gears (set_search_address bus a s))) = a"
    and "parts (view (gears (set_search_address bus a s))) = parts (view (gears s))"
    and "short (view (gears (set_search_address bus a s))) = short (view (gears s))"
proof -
  define h m l where "h = (ucast ((drop_bit 16 a) AND 0xFF) :: u8)"
    and "m = (ucast ((drop_bit 8 a) AND 0xFF) :: u8)" and "l = (ucast ((drop_bit 0 a) AND 0xFF) :: u8)"
  define s1 where "s1 = vTaskDelay bus (send (SEARCH_ADDRESS_H + ucast h) s)"
  define s2 where "s2 = vTaskDelay bus (send (SEARCH_ADDRESS_M + ucast m) s1)"
  define s3 where "s3 = vTaskDelay bus (send (SEARCH_ADDRESS_L + ucast l) s2)"
  have run: "set_search_address bus a s = s3"
    by (simp only: set_search_address_def Let_def h_def m_def l_def s1_def s2_def s3_def)
  have 1: "idle_link s1" "view (gears s1) = (view (gears s))\<lparr>search_h := h\<rparr>"
    using exchange_silent [OF assms(2), where bus = bus, OF dali_bus_h(1) [OF law]] exchange(1) [OF assms(2)]
      dali_bus_h(2) [OF law] by (simp_all add: s1_def)
  have 2: "idle_link s2" "view (gears s2) = (view (gears s1))\<lparr>search_m := m\<rparr>"
    using exchange_silent [OF 1(1), where bus = bus, OF dali_bus_m(1) [OF law]] exchange(1) [OF 1(1)]
      dali_bus_m(2) [OF law] by (simp_all add: s2_def)
  have 3: "idle_link s3" "view (gears s3) = (view (gears s2))\<lparr>search_l := l\<rparr>"
    using exchange_silent [OF 2(1), where bus = bus, OF dali_bus_l(1) [OF law]] exchange(1) [OF 2(1)]
      dali_bus_l(2) [OF law] by (simp_all add: s3_def)
  have "search_addr (view (gears s3)) = address_of_bytes h m l"
    by (simp add: search_addr_def 1 2 3)
  also have "\<dots> = a"
    unfolding h_def m_def l_def by (rule address_bytes [OF assms(3)])
  finally show "search_addr (view (gears (set_search_address bus a s))) = a"
    by (simp add: run)
  show "idle_link (set_search_address bus a s)"
    "parts (view (gears (set_search_address bus a s))) = parts (view (gears s))"
    "short (view (gears (set_search_address bus a s))) = short (view (gears s))"
    using 1 2 3 by (simp_all add: run)
qed

lemma compare_device_address:
  assumes law: "dali_bus bus view ns" and "idle_link s" and "a < 0x1000000"
  shows "fst (compare_device_address bus a s) \<longleftrightarrow> (\<exists>p\<in>parts (view (gears s)). p \<le> a)"
    and "idle_link (snd (compare_device_address bus a s))"
    and "parts (view (gears (snd (compare_device_address bus a s)))) = parts (view (gears s))"
    and "short (view (gears (snd (compare_device_address bus a s)))) = short (view (gears s))"
proof -
  let ?t = "set_search_address bus a s"
  note t = set_search_address [OF assms]
  have run: "compare_device_address bus a s = take_answer (vTaskDelay bus (send COMPARE ?t))"
    by (simp add: compare_device_address_def Let_def t)
  note ans = take_answer_exchange [OF t(1), of bus COMPARE]
  show "fst (compare_device_address bus a s) \<longleftrightarrow> (\<exists>p\<in>parts (view (gears s)). p \<le> a)"
    "idle_link (snd (compare_device_address bus a s))"
    "parts (view (gears (snd (compare_device_address bus a s)))) = parts (view (gears s))"
    "short (view (gears (snd (compare_device_address bus a s)))) = short (view (gears s))"
    unfolding run ans dali_bus_compare [OF law] t
    using ans(2) by simp_all
qed

text \<open>The gears' answers make the comparison of the source a probe of the search contract.\<close>

interpretation search: lowest_search "compare_device_address bus"
    "\<lambda>s. parts (view (gears s))"
    "\<lambda>s. dali_bus bus view ns \<and> idle_link s \<and> short (view (gears s)) = m"
  for bus :: "'w bus" and view ns m
  by unfold_locales (auto simp: compare_device_address)

lemma find_lowest_device_address:
  assumes "dali_bus bus view ns" and "idle_link s" and "lo \<le> 0xFFFFFF"
    and "\<forall>p\<in>parts (view (gears s)). lo \<le> p"
    and find: "find_lowest_device_address bus lo 0xFFFFFF s = (a, t)"
  shows "idle_link t" and "parts (view (gears t)) = parts (view (gears s))"
    and "short (view (gears t)) = short (view (gears s))"
    and "a = (if parts (view (gears s)) = {} then 0xFFFFFF else Min (parts (view (gears s))))"
    and "a = 0xFFFFFF \<longleftrightarrow> parts (view (gears s)) = {}"
proof -
  note find' = find [unfolded find_lowest_device_address_def]
  note res = search.bsearch_correct [of bus view ns s "short (view (gears s))" "0xFFFFFF" lo,
      unfolded find' fst_conv snd_conv]
  show "idle_link t" "parts (view (gears t)) = parts (view (gears s))"
    "short (view (gears t)) = short (view (gears s))"
    using res assms by blast+
  show a: "a = (if parts (view (gears s)) = {} then 0xFFFFFF else Min (parts (view (gears s))))"
    using res assms dali_bus_range [OF assms(1)] by auto
  have "Min (parts (view (gears s))) < 0xFFFFFF" if "parts (view (gears s)) \<noteq> {}"
    using dali_bus_range [OF assms(1) Min_in [OF finite that]] .
  then show "a = 0xFFFFFF \<longleftrightarrow> parts (view (gears s)) = {}"
    using a by (auto dest: less_imp_neq)
qed

lemma program_short_address:
  assumes law: "dali_bus bus view ns" and "idle_link s" and "k < 64"
    and "a \<in> parts (view (gears s))"
  shows "idle_link (program_short_address bus a k s)"
    and "search_addr (view (gears (program_short_address bus a k s))) = a"
    and "parts (view (gears (program_short_address bus a k s))) = parts (view (gears s))"
    and "short (view (gears (program_short_address bus a k s))) = (short (view (gears s)))(a \<mapsto> k)"
proof -
  have "a < 0xFFFFFF"
    using dali_bus_range [OF law assms(4)] .
  then have a: "a < 0x1000000"
    by (simp add: word_less_nat_alt)
  let ?t = "set_search_address bus a s"
  note t = set_search_address [OF law assms(2) a]
  let ?f = "PROGRAM_SHORT_ADDRESS OR push_bit 1 (ucast k)"
  have run: "program_short_address bus a k s = vTaskDelay bus (send ?f ?t)"
    unfolding program_short_address_def Let_def wait_idle [OF t(1)] ..
  show "idle_link (program_short_address bus a k s)"
    unfolding run by (rule exchange_silent [OF t(1), where bus = bus, OF dali_bus_program(1) [OF law assms(3)]])
  have "view (fst (bus (gears ?t) ?f))
      = (view (gears ?t))\<lparr>short := (short (view (gears ?t)))(a \<mapsto> k)\<rparr>"
    using dali_bus_program(2) [OF law assms(3), of "gears ?t"] assms(4) t by simp
  then have v: "view (gears (program_short_address bus a k s))
      = (view (gears ?t))\<lparr>short := (short (view (gears ?t)))(a \<mapsto> k)\<rparr>"
    unfolding run exchange(1) [OF t(1)] .
  show "search_addr (view (gears (program_short_address bus a k s))) = a"
    "parts (view (gears (program_short_address bus a k s))) = parts (view (gears s))"
    "short (view (gears (program_short_address bus a k s))) = (short (view (gears s)))(a \<mapsto> k)"
    using t by (simp_all add: v search_addr_def)
qed

lemma verify_short_address:
  assumes law: "dali_bus bus view ns" and "idle_link s" and "k < 64"
  shows "idle_link (snd (verify_short_address bus k s))"
    and "view (gears (snd (verify_short_address bus k s))) = view (gears s)"
proof -
  let ?f = "VERIFY_SHORT_ADDRESS OR push_bit 1 (ucast k)"
  have run: "verify_short_address bus k s = take_answer (vTaskDelay bus (send ?f s))"
    unfolding verify_short_address_def Let_def wait_idle [OF assms(2)] ..
  show "idle_link (snd (verify_short_address bus k s))"
    "view (gears (snd (verify_short_address bus k s))) = view (gears s)"
    unfolding run using take_answer_exchange [OF assms(2), of bus ?f] dali_bus_verify [OF law assms(3)]
    by simp_all
qed

lemma withdraw:
  assumes law: "dali_bus bus view ns" and "idle_link s"
  shows "idle_link (vTaskDelay bus (send WITHDRAW s))"
    and "view (gears (vTaskDelay bus (send WITHDRAW s)))
      = (view (gears s))\<lparr>parts := parts (view (gears s)) - {search_addr (view (gears s))}\<rparr>"
  using exchange_silent [OF assms(2), where bus = bus, OF dali_bus_withdraw(1) [OF law]]
    exchange(1) [OF assms(2)] dali_bus_withdraw(2) [OF law] by simp_all

text \<open>One round of commissioning: the lowest participant is addressed and withdrawn.\<close>

lemma commission_round:
  assumes law: "dali_bus bus view ns" and idle: "idle_link s" and "lo \<le> 0xFFFFFF"
    and "\<forall>p\<in>parts (view (gears s)). lo \<le> p" and ne: "parts (view (gears s)) \<noteq> {}" and k: "k < 64"
  obtains s' where "commission_loop bus (Suc fuel) k lo s
      = commission_loop bus fuel (k + 1) (Min (parts (view (gears s)))) s'"
    and "idle_link s'"
    and "parts (view (gears s')) = parts (view (gears s)) - {Min (parts (view (gears s)))}"
    and "short (view (gears s')) = (short (view (gears s)))(Min (parts (view (gears s))) \<mapsto> k)"
proof -
  let ?P = "parts (view (gears s))" and ?a = "Min (parts (view (gears s)))"
  obtain a t where find: "find_lowest_device_address bus lo 0xFFFFFF s = (a, t)"
    by (cases "find_lowest_device_address bus lo 0xFFFFFF s")
  have t: "idle_link t" "parts (view (gears t)) = ?P" "short (view (gears t)) = short (view (gears s))"
    "a = ?a" "a \<noteq> 0xFFFFFF"
    using find_lowest_device_address [OF law idle assms(3,4) find] ne by simp_all
  have aP: "?a \<in> parts (view (gears t))"
    using ne by (simp add: t(2))
  define s2 where "s2 = program_short_address bus ?a k t"
  define s3 where "s3 = snd (verify_short_address bus k s2)"
  define s4 where "s4 = vTaskDelay bus (send WITHDRAW s3)"
  note s2 = program_short_address [OF law t(1) k aP, folded s2_def]
  note s3 = verify_short_address [OF law s2(1) k, folded s3_def]
  note s4 = withdraw [OF law s3(1), folded s4_def]
  show thesis
  proof (rule that [of s4])
    show "commission_loop bus (Suc fuel) k lo s = commission_loop bus fuel (k + 1) ?a s4"
      using t(5) by (simp add: find Let_def t(1,4) flip: s2_def)
        (simp add: s4_def s3_def split_beta s3(1) [unfolded s3_def])
  qed (simp_all add: s4 s3 s2 t)
qed

section \<open>Commissioning\<close>

definition numbers_from :: "u8 \<Rightarrow> nat \<Rightarrow> u8 list" where
  "numbers_from k n = map (\<lambda>i. k + of_nat i) [0..<n]"

lemma numbers_from_Suc: "numbers_from k (Suc n) = k # numbers_from (k + 1) n"
  by (rule nth_equalityI) (auto simp: numbers_from_def nth_Cons add.assoc split: nat.split simp del: upt_Suc)

lemma Min_sorted: "sorted_wrt (<) (x # xs) \<Longrightarrow> Min (set (x # xs)) = (x :: 'a::linorder)"
  by (rule Min_eqI) (auto intro: less_imp_le)

lemma commission_loop_correct:
  assumes law: "dali_bus bus view ns" and "idle_link s" and "lo \<le> 0xFFFFFF"
    and "set xs = parts (view (gears s))" and "sorted_wrt (<) xs" and "\<forall>p\<in>set xs. lo \<le> p"
    and "length xs < fuel" and "unat k + length xs \<le> 64"
  shows "\<exists>s'. commission_loop bus fuel k lo s = Inr (k + of_nat (length xs), s') \<and> idle_link s'
    \<and> parts (view (gears s')) = {}
    \<and> short (view (gears s')) = (short (view (gears s)))(xs [\<mapsto>] numbers_from k (length xs))"
  using assms(2-)
proof (induction xs arbitrary: s lo k fuel)
  case Nil
  then obtain fuel' where fuel: "fuel = Suc fuel'"
    by (cases fuel) auto
  obtain a t where find: "find_lowest_device_address bus lo 0xFFFFFF s = (a, t)"
    by (cases "find_lowest_device_address bus lo 0xFFFFFF s")
  from find_lowest_device_address [OF law Nil.prems(1,2) _ find] Nil.prems show ?case
    by (simp add: fuel find Let_def)
next
  case (Cons x xs)
  from Cons.prems(6) obtain fuel' where fuel: "fuel = Suc fuel'"
    by (cases fuel) auto
  have P: "parts (view (gears s)) = set (x # xs)"
    using Cons.prems(3) ..
  have min: "Min (parts (view (gears s))) = x"
    unfolding P by (rule Min_sorted [OF Cons.prems(4)])
  have k: "k < 64"
    using Cons.prems(7) by (simp add: word_less_nat_alt)
  have k1: "unat (k + 1) = unat k + 1"
    using k by (simp add: unat_word_ariths word_less_nat_alt)
  have "\<forall>p\<in>parts (view (gears s)). lo \<le> p" "parts (view (gears s)) \<noteq> {}"
    using Cons.prems(5) by (simp_all add: P)
  from commission_round [OF law Cons.prems(1,2) this k, of fuel', unfolded min]
  obtain s' where s': "commission_loop bus (Suc fuel') k lo s = commission_loop bus fuel' (k + 1) x s'"
    "idle_link s'" "parts (view (gears s')) = parts (view (gears s)) - {x}"
    "short (view (gears s')) = (short (view (gears s)))(x \<mapsto> k)" .
  have "x < 0xFFFFFF"
    using dali_bus_range [OF law, of x "gears s"] by (simp add: P)
  moreover have "set xs = parts (view (gears s'))"
    using s'(3) Cons.prems(4) by (auto simp: P)
  moreover have "\<forall>p\<in>set xs. x \<le> p"
    using Cons.prems(4) by (auto intro: less_imp_le)
  ultimately have "\<exists>s''. commission_loop bus fuel' (k + 1) x s' = Inr ((k + 1) + of_nat (length xs), s'')
      \<and> idle_link s'' \<and> parts (view (gears s'')) = {}
      \<and> short (view (gears s'')) = (short (view (gears s')))(xs [\<mapsto>] numbers_from (k + 1) (length xs))"
    using Cons.prems(4,6,7) k1 fuel by (intro Cons.IH [OF s'(2)]) (auto intro: less_imp_le)
  then show ?case
    by (simp add: fuel s'(1,4) numbers_from_Suc add.assoc del: commission_loop.simps)
qed

lemma start_up_idle:
  assumes law: "dali_bus bus view ns" and "idle_link s"
  shows "idle_link (generate_random_device_addresses bus (set_all_devices_in_initialize_state bus s))"
proof -
  have sil: "silent (bus w INITIALIZE_ALL_DEVICE)" "silent (bus w GENERATE_RANDOM_ADDRESS)" for w
    using dali_bus_init [OF law] dali_bus_random [OF law] by simp_all
  show ?thesis
    using assms(2) exchange_silent [where bus = bus] sil
    by (simp add: generate_random_device_addresses_def set_all_devices_in_initialize_state_def Let_def)
qed

lemma commission_bus_correct:
  fixes bus view ns s
  defines "s1 \<equiv> generate_random_device_addresses bus (set_all_devices_in_initialize_state bus s)"
  defines "xs \<equiv> sorted_list_of_set (parts (view (gears s1)))"
  assumes law: "dali_bus bus view ns" and "idle_link s" and "length xs \<le> 64" and "length xs < fuel"
  shows "\<exists>s'. commission_bus bus fuel s = Inr (of_nat (length xs), s') \<and> idle_link s'
    \<and> short (view (gears s')) = (short (view (gears s1)))(xs [\<mapsto>] numbers_from 0 (length xs))"
proof -
  have idle: "idle_link s1"
    unfolding s1_def by (rule start_up_idle [OF law assms(4)])
  have "\<exists>s'. commission_loop bus fuel 0 0 s1 = Inr (0 + of_nat (length xs), s') \<and> idle_link s'
    \<and> parts (view (gears s')) = {}
    \<and> short (view (gears s')) = (short (view (gears s1)))(xs [\<mapsto>] numbers_from 0 (length xs))"
    by (rule commission_loop_correct [OF law idle]) (use assms(5,6) in \<open>simp_all add: xs_def\<close>)
  then obtain t where t: "commission_loop bus fuel 0 0 s1 = Inr (of_nat (length xs), t)" "idle_link t"
    "short (view (gears t)) = (short (view (gears s1)))(xs [\<mapsto>] numbers_from 0 (length xs))"
    by auto
  define u where "u = vTaskDelay bus (send TERMINATE t)"
  have "idle_link u"
    unfolding u_def by (rule exchange_silent [OF t(2), where bus = bus, OF dali_bus_terminate(1) [OF law]])
  moreover have "short (view (gears u)) = short (view (gears t))"
    by (simp add: u_def exchange(1) [OF t(2)] dali_bus_terminate(2) [OF law])
  moreover have "commission_bus bus fuel s = Inr (of_nat (length xs), u)"
    using t(1) by (simp add: commission_bus_def Let_def u_def flip: s1_def)
  ultimately show ?thesis
    using t(3) by auto
qed

end
