(* ===== verification/Dali_Commissioning.thy ===== *)
theory Dali_Commissioning
  imports Dali_Addressing
begin

text \<open>
  components/DALI_addressing, continued: what a check of the bus reports, the
  properties of searching, checking and commissioning, and a concrete line of gears
  on which they are exercised.
\<close>

section \<open>Checking the bus\<close>

text \<open>What the gear at one address answers to the query, as the source stores it.\<close>

definition answer_of :: "(address24_t \<Rightarrow> u8 option) \<Rightarrow> u8 option \<Rightarrow> address24_t \<Rightarrow> u8 option" where
  "answer_of m ns a =
     map_option (drop_bit 1) (case m a of Some k \<Rightarrow> Some (push_bit 1 k OR 1) | None \<Rightarrow> ns)"

text \<open>The bookkeeping of a whole check: the participants, one after the other.\<close>

fun tally :: "(address24_t \<Rightarrow> u8 option) \<Rightarrow> address24_t list \<Rightarrow> inventory \<Rightarrow> fault + inventory" where
  "tally answer [] iv = Inr iv"
| "tally answer (a # as) iv =
     (case record_answer (answer a) a iv of Inl f \<Rightarrow> Inl f | Inr iv \<Rightarrow> tally answer as iv)"

lemma query_round:
  assumes law: "dali_bus bus view ns" and idle: "idle_link t" and a: "a < 0x1000000"
    and part: "a \<in> parts (view (gears t))"
  defines "s1 \<equiv> set_search_address bus a (set_search_address bus a t)"
  defines "s2 \<equiv> vTaskDelay bus (send QUERY_SHORT_ADDRESS s1)"
  defines "rs \<equiv> (if new_data_available s2
      then (Some (drop_bit 1 (get_new_data s2)), clear_new_data_flag s2) else (None, s2))"
  shows "fst rs = answer_of (short (view (gears t))) ns a" and "idle_link (snd rs)"
    and "view (gears (snd rs)) = view (gears s1)" and "search_addr (view (gears s1)) = a"
    and "parts (view (gears s1)) = parts (view (gears t))"
    and "short (view (gears s1)) = short (view (gears t))"
proof -
  note u = set_search_address [OF law idle a]
  note s1 = set_search_address [OF law u(1) a, folded s1_def]
  show sa: "search_addr (view (gears s1)) = a" by (rule s1(2))
  show P: "parts (view (gears s1)) = parts (view (gears t))"
    and S: "short (view (gears s1)) = short (view (gears t))"
    using s1 u by simp_all
  have ans: "snd (bus (gears s1) QUERY_SHORT_ADDRESS) = (case short (view (gears s1)) a of
      Some k \<Rightarrow> Some (push_bit 1 k OR 1) | None \<Rightarrow> ns)"
    using dali_bus_query(2) [OF law, of "gears s1"] part by (simp add: sa P)
  note ex = exchange [OF s1(1), of bus QUERY_SHORT_ADDRESS, folded s2_def]
  show "fst rs = answer_of (short (view (gears t))) ns a"
    using ex(3,4) ans by (auto simp: rs_def answer_of_def S split: option.splits)
  show "idle_link (snd rs)"
    using ex(2,3,5) by (auto simp: rs_def)
  show "view (gears (snd rs)) = view (gears s1)"
    using ex(1) dali_bus_query(1) [OF law] by (simp add: rs_def)
qed

text \<open>One round of the check: the lowest gear still taking part is asked, recorded and withdrawn.\<close>

lemma check_round:
  assumes law: "dali_bus bus view ns" and idle: "idle_link s" and lo: "lo \<le> 0xFFFFFF"
    and P: "parts (view (gears s)) = set (x # xs)" and sorted: "sorted_wrt (<) (x # xs)"
    and le: "\<forall>p\<in>set (x # xs). lo \<le> p"
  shows "\<exists>s'. check_loop bus (Suc fuel) iv lo s
      = (case record_answer (answer_of (short (view (gears s))) ns x) x iv of Inl f \<Rightarrow> Inl f
         | Inr iv \<Rightarrow> check_loop bus fuel iv x s')
    \<and> idle_link s' \<and> parts (view (gears s')) = set xs \<and> short (view (gears s')) = short (view (gears s))"
proof -
  have min: "Min (parts (view (gears s))) = x"
    unfolding P by (rule Min_sorted [OF sorted])
  obtain a t where find: "find_lowest_device_address bus lo 0xFFFFFF s = (a, t)"
    by (cases "find_lowest_device_address bus lo 0xFFFFFF s")
  have t: "idle_link t" "parts (view (gears t)) = set (x # xs)" "a = x" "a \<noteq> 0xFFFFFF"
    "short (view (gears t)) = short (view (gears s))"
    using find_lowest_device_address [OF law idle lo _ find] le min
    by (simp_all add: P)
  have "x < 0xFFFFFF"
    using dali_bus_range [OF law, of x "gears s"] by (simp add: P)
  then have x24: "x < 0x1000000"
    by (simp add: word_less_nat_alt)
  define s1 where "s1 = set_search_address bus x (set_search_address bus x t)"
  define s2 where "s2 = vTaskDelay bus (send QUERY_SHORT_ADDRESS s1)"
  obtain r s3 where rs: "(if new_data_available s2
      then (Some (drop_bit 1 (get_new_data s2)), clear_new_data_flag s2) else (None, s2)) = (r, s3)"
    by force
  have "x \<in> parts (view (gears t))"
    by (simp add: t(2))
  note q = query_round [OF law t(1) x24 this, folded s1_def, folded s2_def, unfolded rs fst_conv snd_conv]
  define s4 where "s4 = vTaskDelay bus (send WITHDRAW s3)"
  note s4 = withdraw [OF law q(2), folded s4_def]
  have "check_loop bus (Suc fuel) iv lo s = (case record_answer r x iv of Inl f \<Rightarrow> Inl f
      | Inr iv \<Rightarrow> check_loop bus fuel iv x s4)"
    using t(4) rs q(2) s4_def
    by (cases "new_data_available s2") (simp_all add: find t(3) s1_def s2_def Let_def split: sum.splits)
  moreover have "parts (view (gears s4)) = set xs"
    using sorted by (auto simp: s4(2) q(3,4,5) t(2))
  ultimately show ?thesis
    using s4(1) by (intro exI [of _ s4]) (simp add: q(1) s4(2) q(3,6) t(5))
qed

lemma check_loop_correct:
  assumes law: "dali_bus bus view ns" and "idle_link s" and "lo \<le> 0xFFFFFF"
    and "set xs = parts (view (gears s))" and "sorted_wrt (<) xs" and "\<forall>p\<in>set xs. lo \<le> p"
    and "length xs < fuel"
  shows "map_sum (\<lambda>f. f) fst (check_loop bus fuel iv lo s)
      = tally (answer_of (short (view (gears s))) ns) xs iv"
  using assms(2-)
proof (induction xs arbitrary: s lo iv fuel)
  case Nil
  then obtain fuel' where fuel: "fuel = Suc fuel'"
    by (cases fuel) auto
  obtain a t where find: "find_lowest_device_address bus lo 0xFFFFFF s = (a, t)"
    by (cases "find_lowest_device_address bus lo 0xFFFFFF s")
  from find_lowest_device_address [OF law Nil.prems(1,2) _ find] Nil.prems show ?case
    by (simp add: fuel find Let_def)
next
  case (Cons x xs)
  from Cons.prems(6) obtain fuel' where fuel: "fuel = Suc fuel'"
    by (cases fuel) auto
  obtain s' where run: "check_loop bus fuel iv lo s
      = (case record_answer (answer_of (short (view (gears s))) ns x) x iv of Inl f \<Rightarrow> Inl f
         | Inr iv \<Rightarrow> check_loop bus fuel' iv x s')"
    and s': "idle_link s'" "set xs = parts (view (gears s'))" "short (view (gears s')) = short (view (gears s))"
    using check_round [OF law Cons.prems(1,2) Cons.prems(3) [symmetric] Cons.prems(4,5), of fuel' iv] fuel by auto
  have x: "x \<le> 0xFFFFFF" "\<forall>p\<in>set xs. x \<le> p"
    using dali_bus_range [OF law, of x "gears s"] Cons.prems(3,4) by (auto intro: less_imp_le)
  have "map_sum (\<lambda>f. f) fst (check_loop bus fuel' iv' x s')
      = tally (answer_of (short (view (gears s))) ns) xs iv'" for iv'
    using Cons.IH [OF s'(1) x(1) s'(2) _ x(2), of fuel' iv'] Cons.prems(4,6) fuel s'(3) by simp
  then show ?case
    by (simp add: run split: sum.splits)
qed

text \<open>Writing the values of a list from index i on.\<close>

fun overlay :: "('v \<Rightarrow> 'a \<Rightarrow> 'a) \<Rightarrow> nat \<Rightarrow> 'v list \<Rightarrow> 'a list \<Rightarrow> 'a list" where
  "overlay f i [] xs = xs"
| "overlay f i (v # vs) xs = overlay f (Suc i) vs (xs[i := f v (xs ! i)])"

lemma length_overlay [simp]: "length (overlay f i vs xs) = length xs"
  by (induction vs arbitrary: i xs) auto

lemma nth_overlay:
  assumes "i + length vs \<le> length xs" and "j < length xs"
  shows "overlay f i vs xs ! j
    = (if i \<le> j \<and> j < i + length vs then f (vs ! (j - i)) (xs ! j) else xs ! j)"
  using assms
proof (induction vs arbitrary: i xs)
  case (Cons v vs)
  then show ?case
    by (auto simp: nth_list_update nth_Cons' Suc_diff_Suc[symmetric] not_less_eq_eq)
qed auto

definition answered :: "(address24_t \<Rightarrow> u8 option) \<Rightarrow> address24_t list \<Rightarrow> u8 list" where
  "answered answer xs = map (the \<circ> answer) (filter (\<lambda>a. answer a \<noteq> None) xs)"

definition mute :: "(address24_t \<Rightarrow> u8 option) \<Rightarrow> address24_t list \<Rightarrow> address24_t list" where
  "mute answer xs = filter (\<lambda>a. answer a = None) xs"

lemma answered_mute_simps [simp]:
  "answered answer [] = []" "mute answer [] = []"
  "answered answer (a # as) = (case answer a of None \<Rightarrow> answered answer as | Some r \<Rightarrow> r # answered answer as)"
  "mute answer (a # as) = (case answer a of None \<Rightarrow> a # mute answer as | Some r \<Rightarrow> mute answer as)"
  by (auto simp: answered_def mute_def split: option.splits)

lemma unat_count_Suc: "unat (c :: u8) < 255 \<Longrightarrow> unat (c + 1) = Suc (unat c)"
  by (simp add: unat_word_ariths)

lemma tally_fits:
  assumes "unat (devices_on_bus_count iv) + length (answered ans xs) \<le> length (devices_on_bus iv)"
    and "length (devices_on_bus iv) \<le> 255"
    and "unat (uncommissioned_count iv) + length (mute ans xs) \<le> length (uncommissioned_addresses iv)"
    and "length (uncommissioned_addresses iv) \<le> 255"
  shows "tally ans xs iv = Inr (iv\<lparr>
      devices_on_bus := overlay (\<lambda>r d. d\<lparr>short_address := r\<rparr>) (unat (devices_on_bus_count iv))
        (answered ans xs) (devices_on_bus iv),
      devices_on_bus_count := devices_on_bus_count iv + of_nat (length (answered ans xs)),
      uncommissioned_addresses := overlay (\<lambda>a _. a) (unat (uncommissioned_count iv))
        (mute ans xs) (uncommissioned_addresses iv),
      uncommissioned_count := uncommissioned_count iv + of_nat (length (mute ans xs))\<rparr>)"
  using assms
proof (induction xs arbitrary: iv)
  case (Cons x xs)
  then show ?case
    by (cases "ans x") (auto simp: record_answer_def unat_count_Suc add.assoc)
qed simp

lemma tally_overruns:
  assumes "length (devices_on_bus iv) \<le> 255" and "length (uncommissioned_addresses iv) \<le> 255"
    and "unat (devices_on_bus_count iv) \<le> length (devices_on_bus iv)"
    and "unat (uncommissioned_count iv) \<le> length (uncommissioned_addresses iv)"
    and "length (devices_on_bus iv) < unat (devices_on_bus_count iv) + length (answered ans xs)
      \<or> length (uncommissioned_addresses iv) < unat (uncommissioned_count iv) + length (mute ans xs)"
  shows "tally ans xs iv = Inl Out_of_bounds"
  using assms
proof (induction xs arbitrary: iv)
  case (Cons x xs)
  show ?case
  proof (cases "ans x")
    case None
    with Cons show ?thesis
      by (cases "unat (uncommissioned_count iv) < length (uncommissioned_addresses iv)")
        (auto simp: record_answer_def unat_count_Suc)
  next
    case (Some r)
    with Cons show ?thesis
      by (cases "unat (devices_on_bus_count iv) < length (devices_on_bus iv)")
        (auto simp: record_answer_def unat_count_Suc)
  qed
qed simp

text \<open>The check as a whole: start up, one tally of the participants, the status.\<close>

lemma check_drivers:
  fixes bus view ns s
  defines "s1 \<equiv> generate_random_device_addresses bus (set_all_devices_in_initialize_state bus s)"
  assumes law: "dali_bus bus view ns" and idle: "idle_link s"
    and fuel: "card (parts (view (gears s1))) < fuel"
  shows "map_sum (\<lambda>f. f) (\<lambda>(st, iv, s). (st, iv)) (check_drivers_commissioned bus fuel iv s)
    = map_sum (\<lambda>f. f) (\<lambda>iv. (bus_status iv, iv))
        (tally (answer_of (short (view (gears s1))) ns) (sorted_list_of_set (parts (view (gears s1)))) iv)"
proof -
  have i: "idle_link s1"
    unfolding s1_def by (rule start_up_idle [OF law idle])
  have "map_sum (\<lambda>f. f) fst (check_loop bus fuel iv 0 s1)
      = tally (answer_of (short (view (gears s1))) ns) (sorted_list_of_set (parts (view (gears s1)))) iv"
    by (rule check_loop_correct [OF law i]) (use fuel in simp_all)
  note loop = this
  show ?thesis
    unfolding loop [symmetric]
    by (cases "check_loop bus fuel iv 0 s1")
      (simp_all add: check_drivers_commissioned_def Let_def split_beta flip: s1_def)
qed

section \<open>A line of gears\<close>

text \<open>
  A concrete line: gears with a random address, perhaps a short address, and whether they
  take part in the search. 0xFFFFFF is the standard's mark of a gear without a random
  address; such a gear does not answer.
\<close>

record gear =
  rand :: address24_t
  gshort :: "u8 option"
  active :: bool

record line =
  line_gears :: "gear list"
  line_h :: u8
  line_m :: u8
  line_l :: u8

definition line_search :: "line \<Rightarrow> address24_t" where
  "line_search w = address_of_bytes (line_h w) (line_m w) (line_l w)"

definition searching :: "gear \<Rightarrow> bool" where
  "searching g \<longleftrightarrow> active g \<and> rand g < 0xFFFFFF"

definition line_short :: "gear list \<Rightarrow> address24_t \<Rightarrow> u8 option" where
  "line_short gs a = (case find (\<lambda>g. rand g = a) gs of Some g \<Rightarrow> gshort g | None \<Rightarrow> None)"

definition line_view :: "line \<Rightarrow> gear_view" where
  "line_view w = \<lparr>parts = set (map rand (filter searching (line_gears w))),
     search_h = line_h w, search_m = line_m w, search_l = line_l w,
     short = line_short (line_gears w)\<rparr>"

definition line_bus :: "u8 option \<Rightarrow> line bus" where
  "line_bus ns w f =
     (let gs = line_gears w; b = ucast f :: u8; hi = drop_bit 8 f
      in if f = INITIALIZE_ALL_DEVICE then (w\<lparr>line_gears := map (\<lambda>g. g\<lparr>active := True\<rparr>) gs\<rparr>, None)
         else if f = TERMINATE then (w\<lparr>line_gears := map (\<lambda>g. g\<lparr>active := False\<rparr>) gs\<rparr>, None)
         else if f = COMPARE then
           (w, if \<exists>g\<in>set gs. searching g \<and> rand g \<le> line_search w then Some 0xFF else None)
         else if f = WITHDRAW then
           (w\<lparr>line_gears := map (\<lambda>g. if rand g = line_search w then g\<lparr>active := False\<rparr> else g) gs\<rparr>, None)
         else if f = QUERY_SHORT_ADDRESS then
           (w, if \<exists>g\<in>set gs. searching g \<and> rand g = line_search w
               then case line_short gs (line_search w) of Some k \<Rightarrow> Some (push_bit 1 k OR 1) | None \<Rightarrow> ns
               else None)
         else if hi = 0xB1 then (w\<lparr>line_h := b\<rparr>, None)
         else if hi = 0xB3 then (w\<lparr>line_m := b\<rparr>, None)
         else if hi = 0xB5 then (w\<lparr>line_l := b\<rparr>, None)
         else if hi = 0xB7 then
           (w\<lparr>line_gears := map (\<lambda>g. if rand g = line_search w
              then g\<lparr>gshort := Some (drop_bit 1 b)\<rparr> else g) gs\<rparr>, None)
         else if hi = 0xB9 then
           (w, if \<exists>g\<in>set gs. gshort g = Some (drop_bit 1 b) then Some 0xFF else None)
         else (w, None))"

lemmas command_defs = INITIALIZE_ALL_DEVICE_def GENERATE_RANDOM_ADDRESS_def COMPARE_def WITHDRAW_def
  SEARCH_ADDRESS_H_def SEARCH_ADDRESS_M_def SEARCH_ADDRESS_L_def PROGRAM_SHORT_ADDRESS_def
  QUERY_SHORT_ADDRESS_def VERIFY_SHORT_ADDRESS_def TERMINATE_def

lemma short_frame_bytes:
  fixes k :: u8
  assumes "k < 64"
  shows "drop_bit 8 ((0xB701 :: u16) OR push_bit 1 (ucast k)) = 0xB7"
    and "drop_bit 8 ((0xB901 :: u16) OR push_bit 1 (ucast k)) = 0xB9"
    and "drop_bit 1 (ucast ((0xB701 :: u16) OR push_bit 1 (ucast k)) :: u8) = k"
proof -
  let ?P = "\<lambda>k :: u8. drop_bit 8 ((0xB701 :: u16) OR push_bit 1 (ucast k)) = 0xB7
    \<and> drop_bit 8 ((0xB901 :: u16) OR push_bit 1 (ucast k)) = 0xB9
    \<and> drop_bit 1 (ucast ((0xB701 :: u16) OR push_bit 1 (ucast k)) :: u8) = k"
  have "list_all (\<lambda>i. ?P (of_nat i)) [0..<64]"
    by code_simp
  moreover have "unat k \<in> set [0..<64]"
    using assms by (simp add: word_less_nat_alt)
  ultimately have "?P (of_nat (unat k))"
    unfolding list_all_iff by (rule bspec)
  then show "drop_bit 8 ((0xB701 :: u16) OR push_bit 1 (ucast k)) = 0xB7"
    and "drop_bit 8 ((0xB901 :: u16) OR push_bit 1 (ucast k)) = 0xB9"
    and "drop_bit 1 (ucast ((0xB701 :: u16) OR push_bit 1 (ucast k)) :: u8) = k"
    by simp_all
qed

lemma line_short_map:
  "line_short (map (\<lambda>g. if rand g = a then g\<lparr>gshort := x\<rparr> else g) gs) a'
    = (if a' = a \<and> (\<exists>g\<in>set gs. rand g = a) then x else line_short gs a')"
  by (induction gs) (auto simp: line_short_def)

lemma line_search_bytes:
  "drop_bit 8 (SEARCH_ADDRESS_H + ucast (b :: u8)) = 0xB1" "ucast (SEARCH_ADDRESS_H + ucast b) = b"
  "drop_bit 8 (SEARCH_ADDRESS_M + ucast (b :: u8)) = 0xB3" "ucast (SEARCH_ADDRESS_M + ucast b) = b"
  "drop_bit 8 (SEARCH_ADDRESS_L + ucast (b :: u8)) = 0xB5" "ucast (SEARCH_ADDRESS_L + ucast b) = b"
  using frame_bytes [where c = SEARCH_ADDRESS_H and n = "0xB1" and b = b] frame_bytes [where c = SEARCH_ADDRESS_M and n = "0xB3" and b = b]
    frame_bytes [where c = SEARCH_ADDRESS_L and n = "0xB5" and b = b]
  by (simp_all add: command_defs)

text \<open>A frame whose high byte is known is none of the commands with another high byte.\<close>

lemma line_bus_hi:
  assumes "drop_bit 8 f = h" and "h \<notin> {0xA1, 0xA5, 0xA9, 0xAB, 0xBB}"
  shows "f \<noteq> INITIALIZE_ALL_DEVICE" "f \<noteq> TERMINATE" "f \<noteq> COMPARE" "f \<noteq> WITHDRAW" "f \<noteq> QUERY_SHORT_ADDRESS"
  using assms by (auto simp: command_defs)

lemma line_bus_search:
  "line_bus ns w (SEARCH_ADDRESS_H + ucast b) = (w\<lparr>line_h := b\<rparr>, None)"
  "line_bus ns w (SEARCH_ADDRESS_M + ucast b) = (w\<lparr>line_m := b\<rparr>, None)"
  "line_bus ns w (SEARCH_ADDRESS_L + ucast b) = (w\<lparr>line_l := b\<rparr>, None)"
  using line_search_bytes [of b]
  by (simp_all add: line_bus_def Let_def line_bus_hi)

lemma line_bus_short:
  assumes "k < 64"
  shows "line_bus ns w (PROGRAM_SHORT_ADDRESS OR push_bit 1 (ucast k)) =
      (w\<lparr>line_gears := map (\<lambda>g. if rand g = line_search w then g\<lparr>gshort := Some k\<rparr> else g) (line_gears w)\<rparr>, None)"
    and "fst (line_bus ns w (VERIFY_SHORT_ADDRESS OR push_bit 1 (ucast k))) = w"
  using short_frame_bytes [OF assms]
  by (simp_all add: line_bus_def Let_def line_bus_hi PROGRAM_SHORT_ADDRESS_def VERIFY_SHORT_ADDRESS_def)

lemma line_bus_commands:
  "snd (line_bus ns w INITIALIZE_ALL_DEVICE) = None"
  "snd (line_bus ns w GENERATE_RANDOM_ADDRESS) = None"
  "line_bus ns w TERMINATE = (w\<lparr>line_gears := map (\<lambda>g. g\<lparr>active := False\<rparr>) (line_gears w)\<rparr>, None)"
  "line_bus ns w COMPARE =
    (w, if \<exists>g\<in>set (line_gears w). searching g \<and> rand g \<le> line_search w then Some 0xFF else None)"
  "line_bus ns w WITHDRAW =
    (w\<lparr>line_gears := map (\<lambda>g. if rand g = line_search w then g\<lparr>active := False\<rparr> else g) (line_gears w)\<rparr>, None)"
  "line_bus ns w QUERY_SHORT_ADDRESS =
    (w, if \<exists>g\<in>set (line_gears w). searching g \<and> rand g = line_search w
        then case line_short (line_gears w) (line_search w) of Some k \<Rightarrow> Some (push_bit 1 k OR 1) | None \<Rightarrow> ns
        else None)"
  by (simp_all add: line_bus_def Let_def command_defs)

lemma line_short_inactive:
  "line_short (map (\<lambda>g. g\<lparr>active := x g\<rparr>) gs) = line_short gs"
  "line_short (map (\<lambda>g. if p g then g\<lparr>active := False\<rparr> else g) gs) = line_short gs"
  by (rule ext, induction gs; simp add: line_short_def)+

lemma searching_map:
  assumes "\<forall>g. rand (f g) = rand g \<and> searching (f g) = searching g"
  shows "rand ` {h \<in> set (map f gs). searching h} = rand ` {g \<in> set gs. searching g}"
proof -
  have "{h \<in> set (map f gs). searching h} = f ` {g \<in> set gs. searching g}"
    using assms by auto
  then show ?thesis
    using assms by (simp add: image_image)
qed

lemma line_view_program:
  assumes "line_search w \<in> parts (line_view w)"
  shows "line_view (w\<lparr>line_gears := map (\<lambda>g. if rand g = line_search w then g\<lparr>gshort := Some k\<rparr> else g)
      (line_gears w)\<rparr>) = (line_view w)\<lparr>short := (short (line_view w))(line_search w \<mapsto> k)\<rparr>"
  using assms searching_map [of "\<lambda>g. if rand g = line_search w then g\<lparr>gshort := Some k\<rparr> else g" "line_gears w"]
  by (auto simp: line_view_def line_short_map fun_eq_iff searching_def)

lemma line_search_view: "search_addr (line_view w) = line_search w"
  by (simp add: search_addr_def line_search_def line_view_def)

text \<open>The line of gears behaves as the code relies on.\<close>

lemma dali_bus_line: "dali_bus (line_bus ns) line_view ns"
  unfolding dali_bus_def line_search_view
proof (intro allI conjI impI, goal_cases)
  case (17 w k)
  then show ?case
    unfolding line_bus_short(1) [OF 17(1)] fst_conv by (intro line_view_program)
qed (auto simp: silent_def line_bus_search line_bus_commands line_bus_short [simplified] line_view_def
    searching_def line_short_inactive image_iff split: option.splits)
section \<open>Properties\<close>

lemma bsearch_counted:
  "fst (bsearch_lowest (counted probe) lo hi (s, n)) = fst (bsearch_lowest probe lo hi s)
   \<and> fst (snd (bsearch_lowest (counted probe) lo hi (s, n))) = snd (bsearch_lowest probe lo hi s)"
proof (induction probe lo hi s arbitrary: n rule: bsearch_lowest.induct)
  case (1 probe lo hi s)
  define mid where "mid = lo + (hi - lo) div 2"
  obtain b t where p: "probe mid s = (b, t)" by (cases "probe mid s")
  have c: "counted probe mid (s, n) = (b, t, Suc n)" by (simp add: counted_def p)
  show ?case
    using 1(1) [OF _ mid_def p [symmetric, folded prod.collapse], of "Suc n"] 1(2) [OF _ mid_def p [symmetric, folded prod.collapse], of "Suc n"]
    by (simp add: bsearch_lowest.simps [of _ lo hi] Let_def flip: mid_def) (simp add: p c)
qed

abbreviation started :: "'w bus \<Rightarrow> 'w link \<Rightarrow> 'w link" where
  "started bus s \<equiv> generate_random_device_addresses bus (set_all_devices_in_initialize_state bus s)"

definition line_of :: "gear list \<Rightarrow> line link" where
  "line_of gs = \<lparr>dataToTransmit = 0, timerOn = False, newDataFlag = False,
     rx_data_buffer = replicate 8 0, err = 0, rx_intr = True, tx_timer_running = False,
     gears = \<lparr>line_gears = gs, line_h = 0, line_m = 0, line_l = 0\<rparr>\<rparr>"

definition three_gears :: "gear list" where
  "three_gears = [\<lparr>rand = 0x4D2F01, gshort = None, active = True\<rparr>,
     \<lparr>rand = 0x00FFFF, gshort = Some 7, active = True\<rparr>,
     \<lparr>rand = 0xA00000, gshort = None, active = True\<rparr>]"

lemma idle_line_of [simp]: "idle_link (line_of gs)"
  by (simp add: idle_link_def line_of_def)

lemma gears_line_of [simp]: "gears (line_of gs) = \<lparr>line_gears = gs, line_h = 0, line_m = 0, line_l = 0\<rparr>"
  by (simp add: line_of_def)

lemma started_gears:
  assumes "dali_bus bus view ns" and "idle_link s"
  shows "gears (started bus s)
    = (let g1 = fst (bus (gears s) INITIALIZE_ALL_DEVICE); g2 = fst (bus g1 INITIALIZE_ALL_DEVICE);
           g3 = fst (bus g2 GENERATE_RANDOM_ADDRESS) in fst (bus g3 GENERATE_RANDOM_ADDRESS))"
  using assms(2) exchange_silent [where bus = bus] dali_bus_init [OF assms(1)] dali_bus_random [OF assms(1)]
  by (simp add: generate_random_device_addresses_def set_all_devices_in_initialize_state_def
      Let_def exchange(1))

lemma started_line:
  "gears (started (line_bus ns) (line_of gs)) =
    \<lparr>line_gears = map (\<lambda>g. g\<lparr>active := True\<rparr>) gs, line_h = 0, line_m = 0, line_l = 0\<rparr>"
  by (simp add: started_gears [OF dali_bus_line] Let_def line_bus_def command_defs o_def)

lemma three_gears_started:
  "parts (line_view (gears (started (line_bus ns) (line_of three_gears)))) = {0x00FFFF, 0x4D2F01, 0xA00000}"
  "short (line_view (gears (started (line_bus ns) (line_of three_gears)))) = line_short three_gears"
  by (auto simp: started_line line_view_def three_gears_def searching_def line_short_def fun_eq_iff)

lemma three_gears_sorted:
  "sorted_list_of_set {0x00FFFF, 0x4D2F01, 0xA00000 :: u32} = [0x00FFFF, 0x4D2F01, 0xA00000]"
  by simp

text \<open>
  C9: The binary search finds the gear with the lowest random address at or above its
  start, whatever gears take part, and 0xFFFFFF exactly when none does; it withdraws and
  addresses nobody, and leaves the link idle.
\<close>

theorem search_finds_lowest_participant:
  assumes "dali_bus bus view ns" and "idle_link s" and "lo \<le> 0xFFFFFF"
    and "\<forall>p\<in>parts (view (gears s)). lo \<le> p"
  shows "\<exists>t. find_lowest_device_address bus lo 0xFFFFFF s =
      (if parts (view (gears s)) = {} then 0xFFFFFF else Min (parts (view (gears s))), t)
    \<and> idle_link t \<and> parts (view (gears t)) = parts (view (gears s))
    \<and> short (view (gears t)) = short (view (gears s))"
  using find_lowest_device_address [OF assms prod.collapse [symmetric]]
  by (intro exI [of _ "snd (find_lowest_device_address bus lo 0xFFFFFF s)"] conjI prod_eqI) simp_all

lemma search_finds_lowest_participant_witness:
  "fst (find_lowest_device_address (line_bus None) 0 0xFFFFFF (line_of three_gears)) = 0x00FFFF"
proof -
  have "parts (line_view (gears (line_of three_gears))) = {0x00FFFF, 0x4D2F01, 0xA00000}"
    by (auto simp: line_view_def three_gears_def searching_def)
  then show ?thesis
    using search_finds_lowest_participant [OF dali_bus_line idle_line_of, of 0 three_gears None]
    by auto
qed

text \<open>
  C27: However the gears answer, a search makes at most 24 comparisons (each of four
  frames), so the time of one search is bounded; counting them does not change the result.
\<close>

theorem search_makes_at_most_24_comparisons:
  fixes lo :: address24_t
  shows "snd (snd (bsearch_lowest (counted (compare_device_address bus)) lo 0xFFFFFF (s, 0))) \<le> 24
    \<and> fst (bsearch_lowest (counted (compare_device_address bus)) lo 0xFFFFFF (s, 0))
      = fst (find_lowest_device_address bus lo 0xFFFFFF s)"
  using bsearch_probes [where hi = "0xFFFFFF" and lo = lo and k = 24 and n = 0 and s = s and probe = "compare_device_address bus"]
  by (simp add: find_lowest_device_address_def bsearch_counted)

text \<open>
  C1: Commissioning the bus ends, and gives the gears found (up to 64) the short addresses
  0, 1, 2, ... in ascending order of their random addresses; the count returned is
  the number of gears.
\<close>

theorem commissioning_numbers_gears_in_address_order:
  assumes "dali_bus bus view ns" and "idle_link s"
    and "card (parts (view (gears (started bus s)))) \<le> 64"
    and "card (parts (view (gears (started bus s)))) < fuel"
  shows "\<exists>s'. commission_bus bus fuel s = Inr (of_nat (card (parts (view (gears (started bus s))))), s')
    \<and> idle_link s'
    \<and> short (view (gears s')) = (short (view (gears (started bus s))))
        (sorted_list_of_set (parts (view (gears (started bus s))))
          [\<mapsto>] numbers_from 0 (card (parts (view (gears (started bus s))))))"
  using commission_bus_correct [OF assms(1,2)] assms(3,4) by simp

lemma commissioning_numbers_gears_in_address_order_witness:
  "\<exists>s'. commission_bus (line_bus None) 4 (line_of three_gears) = Inr (3, s')
    \<and> map (short (line_view (gears s'))) [0x00FFFF, 0x4D2F01, 0xA00000] = [Some 0, Some 1, Some 2]"
  using commissioning_numbers_gears_in_address_order [OF dali_bus_line idle_line_of, of None three_gears 4]
  by (auto simp: three_gears_started numbers_from_def upt_rec)

text \<open>
  C2: A check of the bus reports every gear found, in ascending address order: the short
  addresses of the gears that answer are appended to the inventory at its count, the
  addresses of the others to the uncommissioned ones, nothing else of the two arrays
  changes, and the status says which of the two lists are empty.
\<close>

theorem bus_check_reports_every_gear:
  fixes bus view ns s iv
  defines "xs \<equiv> sorted_list_of_set (parts (view (gears (started bus s))))"
  defines "ans \<equiv> answer_of (short (view (gears (started bus s)))) ns"
  assumes "dali_bus bus view ns" and "idle_link s" and "length xs < fuel"
    and "unat (devices_on_bus_count iv) + length (answered ans xs) \<le> length (devices_on_bus iv)"
    and "length (devices_on_bus iv) \<le> 255"
    and "unat (uncommissioned_count iv) + length (mute ans xs) \<le> length (uncommissioned_addresses iv)"
    and "length (uncommissioned_addresses iv) \<le> 255"
  shows "\<exists>iv' s'. check_drivers_commissioned bus fuel iv s = Inr (bus_status iv', iv', s')
    \<and> devices_on_bus_count iv' = devices_on_bus_count iv + of_nat (length (answered ans xs))
    \<and> uncommissioned_count iv' = uncommissioned_count iv + of_nat (length (mute ans xs))
    \<and> (\<forall>j < length (devices_on_bus iv). devices_on_bus iv' ! j =
        (let c = unat (devices_on_bus_count iv) in
         if c \<le> j \<and> j < c + length (answered ans xs)
         then (devices_on_bus iv ! j)\<lparr>short_address := answered ans xs ! (j - c)\<rparr>
         else devices_on_bus iv ! j))
    \<and> (\<forall>j < length (uncommissioned_addresses iv). uncommissioned_addresses iv' ! j =
        (let u = unat (uncommissioned_count iv) in
         if u \<le> j \<and> j < u + length (mute ans xs) then mute ans xs ! (j - u)
         else uncommissioned_addresses iv ! j))"
proof -
  have fuel: "card (parts (view (gears (started bus s)))) < fuel"
    using assms(5) by (simp add: xs_def)
  obtain iv' where tally: "tally ans xs iv = Inr iv'" and iv': "iv' = iv\<lparr>
      devices_on_bus := overlay (\<lambda>r d. d\<lparr>short_address := r\<rparr>) (unat (devices_on_bus_count iv))
        (answered ans xs) (devices_on_bus iv),
      devices_on_bus_count := devices_on_bus_count iv + of_nat (length (answered ans xs)),
      uncommissioned_addresses := overlay (\<lambda>a _. a) (unat (uncommissioned_count iv))
        (mute ans xs) (uncommissioned_addresses iv),
      uncommissioned_count := uncommissioned_count iv + of_nat (length (mute ans xs))\<rparr>"
    using tally_fits [OF assms(6-9)] by blast
  obtain s' where "check_drivers_commissioned bus fuel iv s = Inr (bus_status iv', iv', s')"
    using check_drivers [OF assms(3,4) fuel, of iv, folded xs_def ans_def, unfolded tally]
    by (cases "check_drivers_commissioned bus fuel iv s") auto
  then show ?thesis
    using nth_overlay [OF assms(6)] nth_overlay [OF assms(8)]
    by (intro exI [of _ iv'] exI [of _ s']) (simp add: iv' Let_def)
qed

definition empty_inventory :: inventory where
  "empty_inventory = \<lparr>devices_on_bus = replicate 64 \<lparr>short_address = 0, manufactoring_id = 0, refresh_token = []\<rparr>,
     devices_on_bus_count = 0, uncommissioned_addresses = replicate 64 0, uncommissioned_count = 0\<rparr>"

lemma three_gears_answers:
  "answered (answer_of (line_short three_gears) None) [0x00FFFF, 0x4D2F01, 0xA00000] = [7]"
  "mute (answer_of (line_short three_gears) None) [0x00FFFF, 0x4D2F01, 0xA00000] = [0x4D2F01, 0xA00000]"
  by (simp_all add: answered_def mute_def answer_of_def line_short_def three_gears_def)

lemma bus_check_reports_every_gear_witness:
  "\<exists>iv' s'. check_drivers_commissioned (line_bus None) 4 empty_inventory (line_of three_gears)
      = Inr (DALI_ERR_BUS_CORRUPTED, iv', s')
    \<and> short_address (devices_on_bus iv' ! 0) = 7
    \<and> uncommissioned_addresses iv' ! 0 = 0x4D2F01 \<and> uncommissioned_addresses iv' ! 1 = 0xA00000"
proof -
  have len: "length (devices_on_bus empty_inventory) = 64" "length (uncommissioned_addresses empty_inventory) = 64"
    "devices_on_bus_count empty_inventory = 0" "uncommissioned_count empty_inventory = 0"
    by (simp_all add: empty_inventory_def)
  note bus_check_reports_every_gear [OF dali_bus_line idle_line_of, of None three_gears 4 empty_inventory,
      unfolded three_gears_started three_gears_sorted three_gears_answers len]
  then obtain iv' s' where
    run: "check_drivers_commissioned (line_bus None) 4 empty_inventory (line_of three_gears)
      = Inr (bus_status iv', iv', s')" and
    n: "devices_on_bus_count iv' = 1" "uncommissioned_count iv' = 2" and
    d: "\<forall>j<64. devices_on_bus iv' ! j = (let c = unat (0 :: u8) in if c \<le> j \<and> j < c + length [7 :: u8]
      then (devices_on_bus empty_inventory ! j)\<lparr>short_address := [7] ! (j - c)\<rparr>
      else devices_on_bus empty_inventory ! j)" and
    u: "\<forall>j<64. uncommissioned_addresses iv' ! j = (let c = unat (0 :: u8) in
      if c \<le> j \<and> j < c + length [0x4D2F01, 0xA00000 :: u32] then [0x4D2F01, 0xA00000] ! (j - c)
      else uncommissioned_addresses empty_inventory ! j)"
    by auto
  have "bus_status iv' = DALI_ERR_BUS_CORRUPTED"
    by (simp add: bus_status_def n)
  then show ?thesis
    using run d u by (auto simp: Let_def)
qed

text \<open>
  C29: The two arrays of the inventory are written without a bound: a check that finds more
  gears than fit behind the current counts writes past the end of an array. Nothing but
  the arrays' size and the gears on the line decides it, and the counts are never reset.
\<close>

theorem bus_check_overruns_its_arrays:
  fixes bus view ns s iv
  defines "xs \<equiv> sorted_list_of_set (parts (view (gears (started bus s))))"
  defines "ans \<equiv> answer_of (short (view (gears (started bus s)))) ns"
  assumes "dali_bus bus view ns" and "idle_link s" and "length xs < fuel"
    and "length (devices_on_bus iv) = 64" and "length (uncommissioned_addresses iv) = 64"
    and "devices_on_bus_count iv \<le> 64" and "uncommissioned_count iv \<le> 64"
  shows "check_drivers_commissioned bus fuel iv s = Inl Out_of_bounds \<longleftrightarrow>
      64 < unat (devices_on_bus_count iv) + length (answered ans xs)
      \<or> 64 < unat (uncommissioned_count iv) + length (mute ans xs)"
proof -
  have fuel: "card (parts (view (gears (started bus s)))) < fuel"
    using assms(5) by (simp add: xs_def)
  have "tally ans xs iv = Inl Out_of_bounds \<longleftrightarrow>
      64 < unat (devices_on_bus_count iv) + length (answered ans xs)
      \<or> 64 < unat (uncommissioned_count iv) + length (mute ans xs)"
    using tally_overruns [of iv ans xs] tally_fits [of iv ans xs] assms(6-9)
    by (cases "unat (devices_on_bus_count iv) + length (answered ans xs) \<le> 64";
        cases "unat (uncommissioned_count iv) + length (mute ans xs) \<le> 64") (auto simp: word_le_nat_alt)
  then show ?thesis
    using check_drivers [OF assms(3,4) fuel, of iv, folded xs_def ans_def]
    by (cases "check_drivers_commissioned bus fuel iv s"; cases "tally ans xs iv") auto
qed

lemma bus_check_overruns_its_arrays_witness:
  "check_drivers_commissioned (line_bus None) 4 (empty_inventory\<lparr>uncommissioned_count := 63\<rparr>)
    (line_of three_gears) = Inl Out_of_bounds"
  using bus_check_overruns_its_arrays [OF dali_bus_line idle_line_of,
      of None three_gears 4 "empty_inventory\<lparr>uncommissioned_count := 63\<rparr>",
      unfolded three_gears_started three_gears_sorted three_gears_answers]
  by (simp add: empty_inventory_def)

text \<open>
  The uncommissioned count is only ever added to. Once a check has counted a gear
  without a short address, every later check on the same counts reports a corrupted (or
  uncommissioned) bus, even after all gears have been given one.
\<close>

theorem stale_count_reports_corrupted_bus:
  fixes bus view ns s iv
  defines "xs \<equiv> sorted_list_of_set (parts (view (gears (started bus s))))"
  assumes "dali_bus bus view ns" and "idle_link s" and "length xs < fuel"
    and "\<forall>a\<in>set xs. short (view (gears (started bus s))) a \<noteq> None"
    and "xs \<noteq> []" and "length (devices_on_bus iv) = 64" and "length (uncommissioned_addresses iv) = 64"
    and "unat (devices_on_bus_count iv) + length xs \<le> 64"
    and "0 < uncommissioned_count iv" and "uncommissioned_count iv \<le> 64"
  shows "\<exists>iv' s'. check_drivers_commissioned bus fuel iv s = Inr (DALI_ERR_BUS_CORRUPTED, iv', s')"
proof -
  let ?ans = "answer_of (short (view (gears (started bus s)))) ns"
  have fuel: "card (parts (view (gears (started bus s)))) < fuel"
    using assms(4) by (simp add: xs_def)
  have all: "mute ?ans xs = []" "length (answered ?ans xs) = length xs"
  proof -
    have some: "?ans a \<noteq> None" if "a \<in> set xs" for a
      using assms(5) that by (auto simp: answer_of_def)
    then have "filter (\<lambda>a. ?ans a \<noteq> None) xs = xs"
      by (intro filter_True) blast
    then show "mute ?ans xs = []" "length (answered ?ans xs) = length xs"
      using some by (simp_all only: mute_def answered_def filter_empty_conv length_map) blast+
  qed
  obtain iv' where tally: "tally ?ans xs iv = Inr iv'" and "uncommissioned_count iv' = uncommissioned_count iv"
    and "devices_on_bus_count iv' = devices_on_bus_count iv + of_nat (length xs)"
    using tally_fits [of iv ?ans xs] assms(7-11) by (auto simp: all word_le_nat_alt)
  moreover have "devices_on_bus_count iv + of_nat (length xs) \<noteq> 0"
  proof -
    have "unat (devices_on_bus_count iv + of_nat (length xs)) = unat (devices_on_bus_count iv) + length xs"
      using assms(9) by (simp add: unat_word_ariths unat_of_nat)
    then show ?thesis using assms(6) by (auto simp: unat_eq_0)
  qed
  ultimately have "bus_status iv' = DALI_ERR_BUS_CORRUPTED"
    using assms(10) by (auto simp: bus_status_def)
  then show ?thesis
    using check_drivers [OF assms(2,3) fuel, of iv, folded xs_def, unfolded tally]
    by (cases "check_drivers_commissioned bus fuel iv s") auto
qed

lemma stale_count_reports_corrupted_bus_witness:
  "\<exists>iv' s'. check_drivers_commissioned (line_bus None) 2 (empty_inventory\<lparr>uncommissioned_count := 1\<rparr>)
      (line_of [\<lparr>rand = 5, gshort = Some 0, active = True\<rparr>]) = Inr (DALI_ERR_BUS_CORRUPTED, iv', s')"
proof -
  have "parts (line_view (gears (started (line_bus None) (line_of [\<lparr>rand = 5, gshort = Some 0, active = True\<rparr>])))) = {5}"
    "short (line_view (gears (started (line_bus None) (line_of [\<lparr>rand = 5, gshort = Some 0, active = True\<rparr>])))) 5 = Some 0"
    by (simp_all add: started_line line_view_def searching_def line_short_def)
  then show ?thesis
    by (intro stale_count_reports_corrupted_bus [OF dali_bus_line idle_line_of])
      (simp_all add: empty_inventory_def)
qed

text \<open>
  A gear without a short address that answers the query (the standard's answer is 255)
  is taken for a commissioned driver with short address 127: on such a line a first
  check never reports an uncommissioned gear.
\<close>

theorem mask_answer_taken_for_driver_127:
  fixes bus view s iv
  assumes "dali_bus bus view (Some 255)" and "idle_link s"
    and "card (parts (view (gears (started bus s)))) < fuel"
    and "card (parts (view (gears (started bus s)))) \<le> 64"
    and "a \<in> parts (view (gears (started bus s)))" and "short (view (gears (started bus s))) a = None"
    and "length (devices_on_bus iv) = 64" and "length (uncommissioned_addresses iv) = 64"
    and "devices_on_bus_count iv = 0" and "uncommissioned_count iv = 0"
  shows "\<exists>iv' s'. check_drivers_commissioned bus fuel iv s = Inr (DALI_OK, iv', s')
    \<and> uncommissioned_count iv' = 0 \<and> (\<exists>d\<in>set (devices_on_bus iv'). short_address d = 127)"
proof -
  let ?P = "parts (view (gears (started bus s)))"
  let ?xs = "sorted_list_of_set ?P" and ?ans = "answer_of (short (view (gears (started bus s)))) (Some 255)"
  have some: "?ans x \<noteq> None" for x
    by (simp add: answer_of_def split: option.splits)
  then have all: "mute ?ans ?xs = []" "answered ?ans ?xs = map (the \<circ> ?ans) ?xs"
    by (simp_all add: mute_def answered_def filter_empty_conv del: not_None_eq)
  obtain i where i: "i < length ?xs" "?xs ! i = a"
    using assms(5) by (metis finite in_set_conv_nth set_sorted_list_of_set)
  define ds where "ds = overlay (\<lambda>r d. d\<lparr>short_address := r\<rparr>) 0 (map (the \<circ> ?ans) ?xs) (devices_on_bus iv)"
  obtain iv' where tally: "tally ?ans ?xs iv = Inr iv'" and iv': "uncommissioned_count iv' = 0"
    "devices_on_bus_count iv' = of_nat (card ?P)" "devices_on_bus iv' = ds"
    using tally_fits [of iv ?ans ?xs] assms(4,7-10) by (auto simp: all ds_def)
  have "ds ! i = (devices_on_bus iv ! i)\<lparr>short_address := 127\<rparr>"
    using nth_overlay [of 0 "map (the \<circ> ?ans) ?xs" "devices_on_bus iv" i] i assms(4,6,7)
    by (simp add: ds_def answer_of_def)
  moreover have "i < length ds"
    using i(1) assms(4,7) by (simp add: ds_def)
  ultimately have "\<exists>d\<in>set ds. short_address d = 127"
    by (metis nth_mem Device_t.select_convs(1) Device_t.surjective Device_t.update_convs(1))
  moreover have "(of_nat (card ?P) :: u8) \<noteq> 0"
  proof -
    have "card ?P \<noteq> 0" using assms(5) by (auto simp: card_eq_0_iff)
    moreover have "unat (of_nat (card ?P) :: u8) = card ?P"
      using assms(4) by (simp add: unat_of_nat)
    ultimately show ?thesis by (metis unat_0)
  qed
  ultimately show ?thesis
    using check_drivers [OF assms(1-3), of iv, unfolded tally] iv'
    by (cases "check_drivers_commissioned bus fuel iv s") (auto simp: bus_status_def)
qed

lemma mask_answer_taken_for_driver_127_witness:
  "\<exists>iv' s'. check_drivers_commissioned (line_bus (Some 255)) 4 empty_inventory (line_of three_gears)
      = Inr (DALI_OK, iv', s') \<and> uncommissioned_count iv' = 0
    \<and> (\<exists>d\<in>set (devices_on_bus iv'). short_address d = 127)"
proof (rule mask_answer_taken_for_driver_127 [where a = "0x4D2F01", OF dali_bus_line idle_line_of])
  show "short (line_view (gears (started (line_bus (Some 255)) (line_of three_gears)))) 0x4D2F01 = None"
    unfolding three_gears_started by (simp add: line_short_def three_gears_def)
qed (simp_all add: three_gears_started empty_inventory_def)

end
