(* ===== verification/Dali_World.thy ===== *)
theory Dali_World
  imports Dali_Commissioning
begin

text \<open>
  What the gears on the line keep whatever is sent to them, every operation of the
  addressing component keeps. On the concrete line these are the gears' random addresses.
\<close>

section \<open>Invariants of the line\<close>

locale line_invariant =
  fixes bus :: "'w bus" and Q :: "'w \<Rightarrow> bool"
  assumes line_step: "Q w \<Longrightarrow> Q (fst (bus w f))"
begin

lemma wait_keeps: "Q (gears s) \<Longrightarrow> Q (gears (vTaskDelay bus s))"
  using line_step [of "gears s"]
  by (auto simp: vTaskDelay_def Let_def split: prod.split option.split) (metis fst_conv)+

lemma send_keeps: "Q (gears s) \<Longrightarrow> Q (gears (send_DALI_Tx e f s))"
  by (simp add: send_DALI_Tx_def Let_def)

lemma take_answer_keeps: "Q (gears s) \<Longrightarrow> Q (gears (snd (take_answer s)))"
  by (simp add: take_answer_def)

lemma set_search_keeps: "Q (gears s) \<Longrightarrow> Q (gears (set_search_address bus a s))"
  by (simp add: set_search_address_def Let_def) (intro wait_keeps send_keeps)

lemma compare_keeps: "Q (gears s) \<Longrightarrow> Q (gears (snd (compare_device_address bus a s)))"
  by (simp add: compare_device_address_def Let_def) (intro take_answer_keeps wait_keeps send_keeps set_search_keeps)

lemma bsearch_keeps:
  assumes "\<And>m s. Q (gears s) \<Longrightarrow> Q (gears (snd (probe m s)))" and "Q (gears s)"
  shows "Q (gears (snd (bsearch_lowest probe lo hi s)))"
  using assms
proof (induction probe lo hi s rule: bsearch_lowest.induct)
  case (1 probe lo hi s)
  define mid where "mid = lo + (hi - lo) div 2"
  obtain b t where p: "probe mid s = (b, t)" by (cases "probe mid s")
  then have "Q (gears t)"
    using "1.prems" by (metis snd_conv)
  then show ?case
    using 1(1,2) [OF _ mid_def p [symmetric, folded prod.collapse]] "1.prems"
    by (simp add: bsearch_lowest.simps [of _ lo hi] p Let_def flip: mid_def)
qed

lemma find_lowest_keeps: "Q (gears s) \<Longrightarrow> Q (gears (snd (find_lowest_device_address bus lo hi s)))"
  by (simp add: find_lowest_device_address_def bsearch_keeps compare_keeps)

lemma program_keeps: "Q (gears s) \<Longrightarrow> Q (gears (program_short_address bus a k s))"
  by (simp add: program_short_address_def Let_def) (intro wait_keeps send_keeps set_search_keeps)

lemma verify_keeps: "Q (gears s) \<Longrightarrow> Q (gears (snd (verify_short_address bus k s)))"
  by (simp add: verify_short_address_def Let_def) (intro take_answer_keeps wait_keeps send_keeps)

lemma started_keeps: "Q (gears s) \<Longrightarrow> Q (gears (started bus s))"
  by (simp add: set_all_devices_in_initialize_state_def generate_random_device_addresses_def Let_def)
    (intro wait_keeps send_keeps)

lemma commission_loop_keeps:
  "commission_loop bus fuel k a s = Inr (c, s') \<Longrightarrow> Q (gears s) \<Longrightarrow> Q (gears s')"
proof (induction fuel arbitrary: k a s)
  case (Suc fuel)
  obtain b t where f: "find_lowest_device_address bus a 0xFFFFFF s = (b, t)"
    by (cases "find_lowest_device_address bus a 0xFFFFFF s")
  then have t: "Q (gears t)"
    using find_lowest_keeps [OF Suc.prems(2), of a "0xFFFFFF"] by simp
  obtain v u where v: "verify_short_address bus k (program_short_address bus b k (vTaskDelay bus t)) = (v, u)"
    by (cases "verify_short_address bus k (program_short_address bus b k (vTaskDelay bus t))")
  then have "Q (gears u)"
    using verify_keeps [OF program_keeps [OF wait_keeps [OF t]], of k b k] by simp
  then have "Q (gears (vTaskDelay bus (send WITHDRAW (vTaskDelay bus u))))"
    by (intro wait_keeps send_keeps)
  with Suc t show ?case
    by (auto simp: f v Let_def split: if_splits)
qed simp

lemma commission_keeps:
  "commission_bus bus fuel s = Inr (c, s') \<Longrightarrow> Q (gears s) \<Longrightarrow> Q (gears s')"
  by (auto simp: commission_bus_def Let_def split: sum.splits prod.splits
      dest!: commission_loop_keeps intro!: wait_keeps send_keeps started_keeps)

end

lemma line_bus_rands: "map rand (line_gears (fst (line_bus ns w f))) = map rand (line_gears w)"
proof -
  have rand: "rand (if p then g\<lparr>active := False\<rparr> else g) = rand g" "rand (if p then g\<lparr>gshort := k\<rparr> else g) = rand g" for p k g
    by simp_all
  have either: "map rand (line_gears (fst (if c then x else y))) = rs"
    if "map rand (line_gears (fst x)) = rs" "map rand (line_gears (fst y)) = rs" for c rs and x y :: "line \<times> u8 option"
    using that by simp
  show ?thesis
    unfolding line_bus_def Let_def by (intro either) (simp_all add: o_def rand)
qed

interpretation rands: line_invariant "line_bus ns" "\<lambda>w. map rand (line_gears w) = rs"
  by unfold_locales (simp only: line_bus_rands)

lemma line_short_active: "line_short (map (active_update f) gs) = line_short gs"
  by (rule ext, induction gs) (auto simp: line_short_def)

text \<open>Starting up again finds every gear, with the short addresses they have.\<close>

lemma parts_started:
  assumes "idle_link s" and "\<forall>g\<in>set (line_gears (gears s)). rand g < 0xFFFFFF"
  shows "parts (line_view (gears (started (line_bus ns) s))) = set (map rand (line_gears (gears s)))"
    and "short (line_view (gears (started (line_bus ns) s))) = short (line_view (gears s))"
  using assms(2)
  by (auto simp: started_gears [OF dali_bus_line assms(1)] Let_def line_bus_def command_defs line_view_def
      searching_def line_short_active image_iff o_def simp del: map_map)

end
