(* ===== verification/Dali_Memory_Bank.thy ===== *)
theory Dali_Memory_Bank
  imports Dali_Addressing
begin

text \<open>
  components/DALI_memory_bank_handler: reading and writing single locations of the memory
  banks of a gear, and the manufacturer id. Bytes the source leaves uninitialised are
  arguments of the definitions; a read that gets no answer leaves them as they were.
\<close>

section \<open>Operations\<close>

definition DTR0 :: u16 where "DTR0 = 0xA300"
definition DTR1 :: u16 where "DTR1 = 0xC300"
definition READ_MEMORY_LOCATION :: u16 where "READ_MEMORY_LOCATION = 0x00C5"
definition WRITE_MEMORY_LOCATION :: u16 where "WRITE_MEMORY_LOCATION = 0xC700"

definition calculate_short_address_standard_cmd :: "u8 \<Rightarrow> u8" where
  "calculate_short_address_standard_cmd short_addr = push_bit 1 short_addr + 1"

definition select_memory_bank_location :: "'w bus \<Rightarrow> u8 \<Rightarrow> u8 \<Rightarrow> 'w link \<Rightarrow> 'w link" where
  "select_memory_bank_location bus memory_bank location s =
     (let s = send (DTR0 + ucast location) s;
          s = vTaskDelay bus s;
          s = send (DTR1 + ucast memory_bank) s
      in vTaskDelay bus s)"

text \<open>\<open>data\<close> is what the caller's variable holds before the call.\<close>

definition read_memory_location ::
    "'w bus \<Rightarrow> u8 \<Rightarrow> u8 \<Rightarrow> u8 \<Rightarrow> u8 \<Rightarrow> 'w link \<Rightarrow> DALI_Status \<times> u8 \<times> 'w link" where
  "read_memory_location bus short_addr memory_bank location data s =
     (let s = vTaskDelay bus s;
          s = select_memory_bank_location bus memory_bank location s;
          s = send (READ_MEMORY_LOCATION OR
                push_bit 8 (ucast (calculate_short_address_standard_cmd short_addr))) s;
          s = vTaskDelay bus s
      in if new_data_available s
         then (DALI_OK, get_new_data s, clear_new_data_flag s)
         else (DALI_ERR_NO_RESPONSE, data, s))"

definition write_memory_location ::
    "'w bus \<Rightarrow> u8 \<Rightarrow> u8 \<Rightarrow> u8 \<Rightarrow> u8 \<Rightarrow> 'w link \<Rightarrow> DALI_Status \<times> 'w link" where
  "write_memory_location bus short_addr memory_bank location data s =
     (let s = vTaskDelay bus s;
          s = select_memory_bank_location bus memory_bank location s;
          s = vTaskDelay bus s;
          s = send (WRITE_MEMORY_LOCATION + ucast data) s;
          s = vTaskDelay bus s
      in if new_data_available s
         then (DALI_OK, clear_new_data_flag s)
         else (DALI_ERR_NO_RESPONSE, s))"

text \<open>The locations of bank 0 the manufacturer id is read from, in the order of the source.\<close>

definition manufactor_id_locations :: "u8 list" where
  "manufactor_id_locations = [0x0E, 0x0B, 0x0C, 0x0D, 0x0F, 0x11, 0x12, 0x13]"

text \<open>The eight reads, into eight uninitialised bytes.\<close>

fun read_locations ::
    "'w bus \<Rightarrow> u8 \<Rightarrow> (u8 \<times> u8) list \<Rightarrow> 'w link \<Rightarrow> u8 list \<times> 'w link" where
  "read_locations bus short_addr [] s = ([], s)"
| "read_locations bus short_addr ((location, data) # ls) s =
     (let (_, b, s) = read_memory_location bus short_addr 0 location data s;
          (bs, s) = read_locations bus short_addr ls s
      in (b # bs, s))"

text \<open>The bytes of the id, most significant first, combined by shifts.\<close>

definition combine_bytes :: "u8 list \<Rightarrow> 'a::len word" where
  "combine_bytes bs = foldl (\<lambda>acc b. push_bit 8 acc OR ucast b) 0 bs"

definition read_manufactor_id :: "'w bus \<Rightarrow> u8 list \<Rightarrow> u8 \<Rightarrow> 'w link \<Rightarrow> u64 \<times> 'w link" where
  "read_manufactor_id bus junk short_addr s =
     (let (bs, s) = read_locations bus short_addr (zip manufactor_id_locations junk) s
      in (push_bit 0x38 (ucast (bs ! 0)) OR push_bit 0x30 (ucast (bs ! 1)) OR
          push_bit 0x28 (ucast (bs ! 2)) OR push_bit 0x20 (ucast (bs ! 3)) OR
          push_bit 0x18 (ucast (bs ! 4)) OR push_bit 0x10 (ucast (bs ! 5)) OR
          push_bit 0x8 (ucast (bs ! 6)) OR ucast (bs ! 7), s))"

section \<open>Gears with memory banks\<close>

text \<open>
  What the code relies on of the gears: the two data transfer registers are set by their
  commands, ENABLE WRITE MEMORY (0x0181) is not answered, and a read answers the byte of the addressed gear they select, if the gear is
  there and implements it. \<open>memory a b l\<close> is location \<open>l\<close> of bank \<open>b\<close> of the gear with
  short address \<open>a\<close>.
\<close>

record memory_view =
  dtr0 :: u8
  dtr1 :: u8
  memory :: "u8 \<Rightarrow> u8 \<Rightarrow> u8 \<Rightarrow> u8 option"

definition read_command :: "u8 \<Rightarrow> u16" where
  "read_command a = READ_MEMORY_LOCATION OR push_bit 8 (ucast (calculate_short_address_standard_cmd a))"

definition memory_bus :: "'w bus \<Rightarrow> ('w \<Rightarrow> memory_view) \<Rightarrow> bool" where
  "memory_bus bus view \<longleftrightarrow> (\<forall>w.
     silent (bus w 0x0181) \<and>
     (\<forall>b. silent (bus w (DTR0 + ucast b)) \<and>
        view (fst (bus w (DTR0 + ucast b))) = (view w)\<lparr>dtr0 := b\<rparr>) \<and>
     (\<forall>b. silent (bus w (DTR1 + ucast b)) \<and>
        view (fst (bus w (DTR1 + ucast b))) = (view w)\<lparr>dtr1 := b\<rparr>) \<and>
     (\<forall>a<(64::u8). snd (bus w (read_command a)) = memory (view w) a (dtr1 (view w)) (dtr0 (view w)) \<and>
        memory (view (fst (bus w (read_command a)))) = memory (view w)))"

lemma memory_busD:
  assumes "memory_bus bus view"
  shows memory_bus_enable: "silent (bus w 0x0181)"
    and memory_bus_dtr0: "silent (bus w (DTR0 + ucast b))"
      "view (fst (bus w (DTR0 + ucast b))) = (view w)\<lparr>dtr0 := b\<rparr>"
    and memory_bus_dtr1: "silent (bus w (DTR1 + ucast b))"
      "view (fst (bus w (DTR1 + ucast b))) = (view w)\<lparr>dtr1 := b\<rparr>"
    and memory_bus_read: "a < (64::u8) \<Longrightarrow>
        snd (bus w (read_command a)) = memory (view w) a (dtr1 (view w)) (dtr0 (view w))"
      "a < (64::u8) \<Longrightarrow> memory (view (fst (bus w (read_command a)))) = memory (view w)"
  using assms unfolding memory_bus_def by metis+

definition answer_or :: "'a \<Rightarrow> 'a option \<Rightarrow> 'a" where
  "answer_or d x = (case x of None \<Rightarrow> d | Some v \<Rightarrow> v)"

lemma answer_or_simps [simp]: "answer_or d None = d" "answer_or d (Some v) = v"
  by (simp_all add: answer_or_def)

text \<open>The state the reads of one gear keep: nothing in flight, and memory unchanged.\<close>

definition holds :: "'w bus \<Rightarrow> ('w \<Rightarrow> memory_view) \<Rightarrow> (u8 \<Rightarrow> u8 \<Rightarrow> u8 \<Rightarrow> u8 option) \<Rightarrow> 'w link \<Rightarrow> bool" where
  "holds bus view M s \<longleftrightarrow> memory_bus bus view \<and> idle_link s \<and> memory (view (gears s)) = M"

lemma holdsD [dest]:
  "holds bus view M s \<Longrightarrow> memory_bus bus view"
  "holds bus view M s \<Longrightarrow> idle_link s"
  "holds bus view M s \<Longrightarrow> memory (view (gears s)) = M"
  by (simp_all add: holds_def)

lemma select_memory_bank_location:
  assumes "holds bus view M s"
  shows "holds bus view M (select_memory_bank_location bus b l s)"
    and "dtr0 (view (gears (select_memory_bank_location bus b l s))) = l"
    and "dtr1 (view (gears (select_memory_bank_location bus b l s))) = b"
proof -
  note law = holdsD(1) [OF assms] and idle = holdsD(2) [OF assms]
  define t where "t = vTaskDelay bus (send (DTR0 + ucast l) s)"
  define u where "u = vTaskDelay bus (send (DTR1 + ucast b) t)"
  have run: "select_memory_bank_location bus b l s = u"
    by (simp add: select_memory_bank_location_def Let_def t_def u_def)
  have t: "idle_link t" "view (gears t) = (view (gears s))\<lparr>dtr0 := l\<rparr>"
    using exchange_silent [OF idle, where bus = bus, OF memory_bus_dtr0(1) [OF law]]
      exchange(1) [OF idle] memory_bus_dtr0(2) [OF law] by (simp_all add: t_def)
  have u: "idle_link u" "view (gears u) = (view (gears t))\<lparr>dtr1 := b\<rparr>"
    using exchange_silent [OF t(1), where bus = bus, OF memory_bus_dtr1(1) [OF law]]
      exchange(1) [OF t(1)] memory_bus_dtr1(2) [OF law] by (simp_all add: u_def)
  show "holds bus view M (select_memory_bank_location bus b l s)"
    "dtr0 (view (gears (select_memory_bank_location bus b l s))) = l"
    "dtr1 (view (gears (select_memory_bank_location bus b l s))) = b"
    using holdsD(3) [OF assms] t u law by (simp_all add: run holds_def)
qed

lemma read_memory_location:
  assumes "holds bus view M s" and "a < 64"
  shows "fst (read_memory_location bus a b l d s)
      = (if M a b l = None then DALI_ERR_NO_RESPONSE else DALI_OK)"
    and "fst (snd (read_memory_location bus a b l d s)) = answer_or d (M a b l)"
    and "holds bus view M (snd (snd (read_memory_location bus a b l d s)))"
proof -
  define t where "t = select_memory_bank_location bus b l s"
  note sel = select_memory_bank_location [OF assms(1), of b l, folded t_def]
  note law = holdsD(1) [OF sel(1)] and idle = holdsD(2) [OF sel(1)]
  have ans: "snd (bus (gears t) (read_command a)) = M a b l"
    using memory_bus_read(1) [OF law assms(2)] sel by (auto simp: holds_def)
  have mem: "memory (view (fst (bus (gears t) (read_command a)))) = M"
    using memory_bus_read(2) [OF law assms(2)] sel by (auto simp: holds_def)
  define u where "u = vTaskDelay bus (send (read_command a) t)"
  note ex = exchange [OF idle, of bus "read_command a", folded u_def]
  have run: "read_memory_location bus a b l d s = (if new_data_available u
      then (DALI_OK, get_new_data u, clear_new_data_flag u) else (DALI_ERR_NO_RESPONSE, d, u))"
    by (simp add: read_memory_location_def Let_def wait_idle [OF holdsD(2) [OF assms(1)]]
        u_def t_def read_command_def)
  show "fst (read_memory_location bus a b l d s)
      = (if M a b l = None then DALI_ERR_NO_RESPONSE else DALI_OK)"
    "fst (snd (read_memory_location bus a b l d s)) = answer_or d (M a b l)"
    "holds bus view M (snd (snd (read_memory_location bus a b l d s)))"
    using ex mem ans law by (auto simp: run holds_def answer_or_def split: option.splits)
qed

lemma read_locations:
  assumes "holds bus view M s" and "a < 64"
  shows "fst (read_locations bus a ls s) = map (\<lambda>p. answer_or (snd p) (M a 0 (fst p))) ls"
    and "holds bus view M (snd (read_locations bus a ls s))"
proof -
  have "fst (read_locations bus a ls s) = map (\<lambda>p. answer_or (snd p) (M a 0 (fst p))) ls
    \<and> holds bus view M (snd (read_locations bus a ls s))"
    using assms(1)
  proof (induction ls arbitrary: s)
    case (Cons p ls)
    obtain l d where p: "p = (l, d)" by (cases p)
    show ?case
      using read_memory_location [OF Cons.prems assms(2), of 0 l d]
        Cons.IH [of "snd (snd (read_memory_location bus a 0 l d s))"]
      by (simp add: p split_beta Let_def)
  qed simp
  then show "fst (read_locations bus a ls s) = map (\<lambda>p. answer_or (snd p) (M a 0 (fst p))) ls"
    "holds bus view M (snd (read_locations bus a ls s))" by simp_all
qed

text \<open>The eight bytes combined by shifts are the big-endian number they spell.\<close>

lemma combine_bytes_8:
  "(combine_bytes [b0, b1, b2, b3, b4, b5, b6, b7] :: u64) =
     push_bit 0x38 (ucast b0) OR push_bit 0x30 (ucast b1) OR push_bit 0x28 (ucast b2) OR
     push_bit 0x20 (ucast b3) OR push_bit 0x18 (ucast b4) OR push_bit 0x10 (ucast b5) OR
     push_bit 0x8 (ucast b6) OR ucast b7"
  by (simp add: combine_bytes_def or.assoc)

lemma read_manufactor_id:
  assumes "holds bus view M s" and "a < 64" and "length junk = 8"
  shows "fst (read_manufactor_id bus junk a s) = combine_bytes
      (map (\<lambda>p. answer_or (snd p) (M a 0 (fst p))) (zip manufactor_id_locations junk))"
    and "holds bus view M (snd (read_manufactor_id bus junk a s))"
proof -
  obtain j0 j1 j2 j3 j4 j5 j6 j7 where junk: "junk = [j0, j1, j2, j3, j4, j5, j6, j7]"
    using assms(3) by (auto simp: numeral_eq_Suc length_Suc_conv)
  note r = read_locations [OF assms(1,2), of "zip manufactor_id_locations junk"]
  show "fst (read_manufactor_id bus junk a s) = combine_bytes
      (map (\<lambda>p. answer_or (snd p) (M a 0 (fst p))) (zip manufactor_id_locations junk))"
    unfolding read_manufactor_id_def Let_def split_beta fst_conv r
    by (simp add: junk manufactor_id_locations_def combine_bytes_8 del: push_bit_eq_0_iff)
  show "holds bus view M (snd (read_manufactor_id bus junk a s))"
    unfolding read_manufactor_id_def Let_def split_beta snd_conv by (rule r)
qed

section \<open>The id as a number\<close>

lemma bit_combine_bytes:
  assumes "length bs \<le> 8" and "n < 64"
  shows "bit (combine_bytes bs :: u64) n \<longleftrightarrow> n < 8 * length bs \<and> bit (rev bs ! (n div 8)) (n mod 8)"
  using assms
proof (induction bs arbitrary: n rule: rev_induct)
  case Nil
  then show ?case by (simp add: combine_bytes_def)
next
  case (snoc b bs)
  have "(combine_bytes (bs @ [b]) :: u64) = push_bit 8 (combine_bytes bs) OR ucast b"
    by (simp add: combine_bytes_def)
  then have "bit (combine_bytes (bs @ [b]) :: u64) n \<longleftrightarrow>
      (8 \<le> n \<and> bit (combine_bytes bs :: u64) (n - 8)) \<or> (n < 8 \<and> bit b n)"
    using snoc.prems(2) by (auto simp: bit_or_iff bit_push_bit_iff bit_ucast_iff dest: bit_imp_le_length)
  also have "\<dots> \<longleftrightarrow> n < 8 * length (bs @ [b]) \<and> bit (rev (bs @ [b]) ! (n div 8)) (n mod 8)"
  proof (cases "n < 8")
    case True
    then show ?thesis by simp
  next
    case False
    then have "n div 8 = Suc ((n - 8) div 8)" "n mod 8 = (n - 8) mod 8" "n - 8 < 64"
      using snoc.prems(2) by (simp_all add: le_div_geq le_mod_geq)
    moreover have "bit (combine_bytes bs :: u64) (n - 8) \<longleftrightarrow>
        n - 8 < 8 * length bs \<and> bit (rev bs ! ((n - 8) div 8)) ((n - 8) mod 8)"
      using snoc.prems(1) \<open>n - 8 < 64\<close> by (intro snoc.IH) simp_all
    ultimately show ?thesis using False by auto
  qed
  finally show ?case .
qed

lemma combine_bytes_inject:
  assumes "length bs = 8" and "length cs = 8"
  shows "(combine_bytes bs :: u64) = combine_bytes cs \<longleftrightarrow> bs = cs"
proof
  assume eq: "(combine_bytes bs :: u64) = combine_bytes cs"
  have "rev bs ! i = rev cs ! i" if "i < 8" for i
  proof (rule bit_word_eqI)
    fix k assume "k < LENGTH(8)"
    then have k: "(8 * i + k) div 8 = i" "(8 * i + k) mod 8 = k" "8 * i + k < 64"
      using that by simp_all
    show "bit (rev bs ! i) k = bit (rev cs ! i) k"
      using bit_combine_bytes [of bs "8 * i + k"] bit_combine_bytes [of cs "8 * i + k"] assms k eq by simp
  qed
  then have "rev bs = rev cs"
    using assms by (intro nth_equalityI) simp_all
  then show "bs = cs" by simp
qed simp

text \<open>The number the bytes spell, most significant first.\<close>

lemma unat_combine_bytes:
  assumes "length bs \<le> 8"
  shows "unat (combine_bytes bs :: u64) = foldl (\<lambda>n b. 256 * n + unat b) 0 bs \<and>
    foldl (\<lambda>n b. 256 * n + unat b) 0 bs < 256 ^ length bs"
  using assms
proof (induction bs rule: rev_induct)
  case Nil
  then show ?case by (simp add: combine_bytes_def)
next
  case (snoc b bs)
  define n where "n = foldl (\<lambda>n b. 256 * n + unat b) 0 bs"
  have n: "unat (combine_bytes bs :: u64) = n" "n < 256 ^ length bs"
    using snoc by (simp_all add: n_def)
  have b: "unat b < 256"
    using unsigned_less [of b, where ?'a = nat] by simp
  have small: "256 * n + unat b < 256 ^ Suc (length bs)"
  proof -
    have "256 * n + unat b < 256 * Suc n" using b by simp
    also have "\<dots> \<le> 256 * 256 ^ length bs" using n(2) by (intro mult_le_mono) simp_all
    finally show ?thesis by simp
  qed
  also have "256 ^ Suc (length bs) \<le> (256 :: nat) ^ 8"
    using snoc.prems by (intro power_increasing) simp_all
  finally have fits: "256 * n + unat b < 2 ^ 64" by simp
  have disjoint: "push_bit 8 (combine_bytes bs :: u64) OR ucast b = push_bit 8 (combine_bytes bs) + ucast b"
    by (rule disjunctive_add_eq_or [symmetric], rule bit_word_eqI)
      (auto simp: bit_and_iff bit_push_bit_iff bit_ucast_iff dest: bit_imp_le_length)
  have shifted: "unat (push_bit 8 (combine_bytes bs :: u64)) = 256 * n"
    using fits by (simp add: push_bit_eq_mult unat_word_ariths n)
  have last: "unat (ucast b :: u64) = unat b"
    using b by (simp add: unsigned_ucast_eq take_bit_nat_eq_self)
  have "unat (combine_bytes (bs @ [b]) :: u64) = unat (push_bit 8 (combine_bytes bs :: u64) + ucast b)"
    unfolding disjoint [symmetric] by (simp add: combine_bytes_def)
  also have "\<dots> = 256 * n + unat b"
    using fits by (simp only: unat_word_ariths shifted last) simp
  finally have "unat (combine_bytes (bs @ [b]) :: u64) = 256 * n + unat b" .
  with small show ?case by (simp add: n_def)
qed

section \<open>A gear with memory\<close>

text \<open>A line on which every short address has memory, of which the registers are shared.\<close>

definition bank_bus :: "memory_view bus" where
  "bank_bus w f =
     (let hi = ucast (drop_bit 8 f) :: u8; lo = ucast f :: u8
      in if hi = 0xA3 then (w\<lparr>dtr0 := lo\<rparr>, None)
         else if hi = 0xC3 then (w\<lparr>dtr1 := lo\<rparr>, None)
         else if lo = 0xC5 \<and> bit hi 0
         then (w\<lparr>dtr0 := dtr0 w + 1\<rparr>, memory w (drop_bit 1 hi) (dtr1 w) (dtr0 w))
         else (w, None))"

lemma read_command_bytes:
  assumes "a < 64"
  shows "ucast (drop_bit 8 (read_command a)) = (push_bit 1 a + 1 :: u8)"
    and "ucast (read_command a) = (0xC5 :: u8)" and "push_bit 1 a + 1 \<noteq> 0xA3"
    and "push_bit 1 a + 1 \<noteq> 0xC3" and "bit (push_bit 1 a + 1) 0" and "drop_bit 1 (push_bit 1 a + 1) = a"
proof -
  let ?P = "\<lambda>a. ucast (drop_bit 8 (read_command a)) = (push_bit 1 a + 1 :: u8)
    \<and> ucast (read_command a) = (0xC5 :: u8) \<and> push_bit 1 a + 1 \<noteq> 0xA3
    \<and> push_bit 1 a + 1 \<noteq> 0xC3 \<and> bit (push_bit 1 a + 1) 0 \<and> drop_bit 1 (push_bit 1 a + 1) = a"
  have "list_all (\<lambda>i. ?P (of_nat i)) [0..<64]"
    by code_simp
  moreover have "unat a \<in> set [0..<64]"
    using assms by (simp add: word_less_nat_alt)
  ultimately have "?P (of_nat (unat a))"
    unfolding list_all_iff by (rule bspec)
  then show "ucast (drop_bit 8 (read_command a)) = (push_bit 1 a + 1 :: u8)"
    "ucast (read_command a) = (0xC5 :: u8)" "push_bit 1 a + 1 \<noteq> 0xA3"
    "push_bit 1 a + 1 \<noteq> 0xC3" "bit (push_bit 1 a + 1) 0" "drop_bit 1 (push_bit 1 a + 1) = a"
    by simp_all
qed

lemma memory_bus_bank: "memory_bus bank_bus (\<lambda>w. w)"
proof -
  have dtr: "ucast (drop_bit 8 (DTR0 + ucast (b :: u8))) = (0xA3 :: u8)" "ucast (DTR0 + ucast b) = b"
    "ucast (drop_bit 8 (DTR1 + ucast (b :: u8))) = (0xC3 :: u8)" "ucast (DTR1 + ucast b) = b" for b
    using frame_bytes [where c = DTR0 and n = "0xA3" and b = b]
      frame_bytes [where c = DTR1 and n = "0xC3" and b = b] by (simp_all add: DTR0_def DTR1_def)
  show ?thesis
    using read_command_bytes
    by (simp add: memory_bus_def bank_bus_def Let_def dtr silent_def)
qed

definition bank_link :: "(u8 \<Rightarrow> u8 \<Rightarrow> u8 \<Rightarrow> u8 option) \<Rightarrow> memory_view link" where
  "bank_link M = \<lparr>dataToTransmit = 0, timerOn = False, newDataFlag = False,
     rx_data_buffer = replicate 8 0, err = 0, rx_intr = True, tx_timer_running = False,
     gears = \<lparr>dtr0 = 0, dtr1 = 0, memory = M\<rparr>\<rparr>"

lemma holds_bank_link: "holds bank_bus (\<lambda>w. w) M (bank_link M)"
  by (simp add: holds_def memory_bus_bank bank_link_def idle_link_def)

section \<open>Properties\<close>

definition id_number :: "(u8 \<Rightarrow> u8) \<Rightarrow> nat" where
  "id_number m = unat (m 0x0E) * 2 ^ 56 + unat (m 0x0B) * 2 ^ 48 + unat (m 0x0C) * 2 ^ 40 + unat (m 0x0D) * 2 ^ 32 +
     unat (m 0x0F) * 2 ^ 24 + unat (m 0x11) * 2 ^ 16 + unat (m 0x12) * 2 ^ 8 + unat (m 0x13)"

text \<open>
  C23: The manufacturer id of a gear whose eight id locations answer is the number these
  bytes of bank 0 spell, most significant first in the order 14, 11, 12, 13, 15, 17, 18,
  19; and two such gears are told apart by it exactly when one of those locations
  differs. Location 16 is never read, so gears that differ only there get the same id.
\<close>

theorem manufacturer_id_tells_gears_apart:
  assumes "holds bus view M s" and "holds bus' view' M' s'" and "a < 64" and "a' < 64"
    and "length junk = 8" and "length junk' = 8"
    and "\<forall>l\<in>{0x0B, 0x0C, 0x0D, 0x0E, 0x0F, 0x11, 0x12, 0x13}. M a 0 l \<noteq> None \<and> M' a' 0 l \<noteq> None"
  shows "unat (fst (read_manufactor_id bus junk a s)) = id_number (\<lambda>l. the (M a 0 l)) \<and>
    (fst (read_manufactor_id bus junk a s) = fst (read_manufactor_id bus' junk' a' s') \<longleftrightarrow>
      (\<forall>l\<in>{0x0B, 0x0C, 0x0D, 0x0E, 0x0F, 0x11, 0x12, 0x13}. M a 0 l = M' a' 0 l))"
proof -
  have the: "map (\<lambda>p. answer_or (snd p) (M a 0 (fst p))) (zip manufactor_id_locations j)
      = map (\<lambda>l. the (M a 0 l)) manufactor_id_locations"
    if "length j = length manufactor_id_locations" "\<forall>l\<in>set manufactor_id_locations. M a 0 l \<noteq> None"
    for j :: "u8 list" and M :: "u8 \<Rightarrow> u8 \<Rightarrow> u8 \<Rightarrow> u8 option" and a :: u8
  proof (rule nth_equalityI)
    fix i assume "i < length (map (\<lambda>p. answer_or (snd p) (M a 0 (fst p))) (zip manufactor_id_locations j))"
    then have i: "i < length manufactor_id_locations" by simp
    then have "M a 0 (manufactor_id_locations ! i) \<noteq> None"
      using that(2) by (metis nth_mem)
    with i that(1) show "map (\<lambda>p. answer_or (snd p) (M a 0 (fst p))) (zip manufactor_id_locations j) ! i
      = map (\<lambda>l. the (M a 0 l)) manufactor_id_locations ! i"
      by auto
  qed (simp add: that)
  have len: "length manufactor_id_locations = 8"
    by (simp add: manufactor_id_locations_def)
  have all: "\<forall>l\<in>set manufactor_id_locations. M a 0 l \<noteq> None \<and> M' a' 0 l \<noteq> None"
    using assms(7) by (simp add: manufactor_id_locations_def)
  have ids: "fst (read_manufactor_id bus junk a s) = combine_bytes (map (\<lambda>l. the (M a 0 l)) manufactor_id_locations)"
    "fst (read_manufactor_id bus' junk' a' s') = combine_bytes (map (\<lambda>l. the (M' a' 0 l)) manufactor_id_locations)"
    using read_manufactor_id(1) [OF assms(1,3,5)] read_manufactor_id(1) [OF assms(2,4,6)]
      the [of junk M a] the [of junk' M' a'] assms(5,6) all len by auto
  have "fst (read_manufactor_id bus junk a s) = fst (read_manufactor_id bus' junk' a' s') \<longleftrightarrow>
      map (\<lambda>l. the (M a 0 l)) manufactor_id_locations = map (\<lambda>l. the (M' a' 0 l)) manufactor_id_locations"
    unfolding ids by (rule combine_bytes_inject) (simp_all add: len)
  also have "\<dots> \<longleftrightarrow> (\<forall>l\<in>{0x0B, 0x0C, 0x0D, 0x0E, 0x0F, 0x11, 0x12, 0x13}. M a 0 l = M' a' 0 l)"
    using assms(7) by (auto simp: manufactor_id_locations_def)
  finally show ?thesis
    using unat_combine_bytes [of "map (\<lambda>l. the (M a 0 l)) manufactor_id_locations"]
    unfolding ids by (simp add: manufactor_id_locations_def id_number_def)
qed

lemma manufacturer_id_tells_gears_apart_witness:
  "(let r = fst (read_manufactor_id bank_bus (replicate 8 0) 3 (bank_link (\<lambda>_ _ l. Some (if l = 0x10 then 1 else l))))
    in unat r = 0x0E0B0C0D0F111213
      \<and> r = fst (read_manufactor_id bank_bus (replicate 8 7) 4 (bank_link (\<lambda>_ _ l. Some (if l = 0x10 then 2 else l)))))"
  unfolding Let_def
  using manufacturer_id_tells_gears_apart [OF holds_bank_link holds_bank_link, where a = 3 and a' = 4
      and junk = "replicate 8 0" and junk' = "replicate 8 7" and M = "\<lambda>_ _ l. Some (if l = 0x10 then 1 else l)"
      and M' = "\<lambda>_ _ l. Some (if l = 0x10 then 2 else l)"]
  by (simp add: id_number_def) metis

text \<open>
  Reading one location returns the byte the gear answers, or reports no response
  and leaves the caller's variable as it was; in particular the id of a gear that never
  answers is whatever the eight uninitialised bytes held.
\<close>

theorem memory_reads_answer_or_leave_the_variable:
  assumes "holds bus view M s" and "a < 64" and "length junk = 8"
  shows "(case read_memory_location bus a b l d s of (st, v, s') \<Rightarrow>
      (st, v) = (case M a b l of Some x \<Rightarrow> (DALI_OK, x) | None \<Rightarrow> (DALI_ERR_NO_RESPONSE, d))
      \<and> holds bus view M s')
    \<and> ((\<forall>l. M a 0 l = None) \<longrightarrow> fst (read_manufactor_id bus junk a s) = combine_bytes junk)"
proof -
  have "map (\<lambda>p. answer_or (snd p) None) (zip manufactor_id_locations junk) = junk"
    using assms(3) by (intro nth_equalityI) (simp_all add: manufactor_id_locations_def)
  then show ?thesis
    using read_memory_location [OF assms(1,2), of b l d] read_manufactor_id(1) [OF assms]
    by (auto split: prod.splits option.splits)
qed

lemma memory_reads_answer_or_leave_the_variable_witness:
  "fst (read_memory_location bank_bus 5 205 4 9 (bank_link (\<lambda>a b l. if a = 5 then Some (b + l) else None))) = DALI_OK
    \<and> fst (read_manufactor_id bank_bus (replicate 8 0) 6 (bank_link (\<lambda>a b l. if a = 5 then Some (b + l) else None)))
      = combine_bytes (replicate 8 0)"
  using memory_reads_answer_or_leave_the_variable [OF holds_bank_link, where a = 5 and junk = "replicate 8 0" and M = "\<lambda>a b l. if a = 5 then Some (b + l) else None" and b = 205 and l = 4 and d = 9]
    memory_reads_answer_or_leave_the_variable [OF holds_bank_link, where a = 6 and junk = "replicate 8 0" and M = "\<lambda>a b l. if a = 5 then Some (b + l) else None"]
  by (auto split: prod.splits)

end
