(* ===== verification/CStrings.thy ===== *)
theory CStrings
  imports Prelude "HOL-Library.Char_ord"
begin

text \<open>
  The string functions of the C library the sources call, on the characters before the
  terminating NUL: decimal conversion as \<open>printf\<close> and \<open>strtoull\<close> do it, and searching. A
  pointer into a string is the suffix it points at. Buffers are lists of characters with
  the NUL in place; \<open>cstr\<close> is the string a buffer holds.
\<close>

section \<open>Buffers\<close>

abbreviation NUL :: char where "NUL \<equiv> CHR 0x00"

definition cstr :: "char list \<Rightarrow> string" where
  "cstr buf = takeWhile (\<lambda>c. c \<noteq> NUL) buf"

lemma cstr_string [simp]: "NUL \<notin> set s \<Longrightarrow> cstr (s @ NUL # rest) = s"
  by (induction s) (auto simp: cstr_def)

lemma cstr_self [simp]: "NUL \<notin> set s \<Longrightarrow> cstr s = s"
  by (induction s) (auto simp: cstr_def)

section \<open>Decimal numbers\<close>

definition digit :: "nat \<Rightarrow> char" where
  "digit d = char_of (48 + d)"

lemma digit_numerals:
  "digit 0 = CHR ''0''" "digit 1 = CHR ''1''" "digit 2 = CHR ''2''" "digit 3 = CHR ''3''" "digit 4 = CHR ''4''"
  "digit 5 = CHR ''5''" "digit 6 = CHR ''6''" "digit 7 = CHR ''7''" "digit 8 = CHR ''8''" "digit 9 = CHR ''9''"
  and digit_Suc_0: "digit (Suc 0) = CHR ''1''"
  by code_simp+

definition digit_value :: "char \<Rightarrow> nat" where
  "digit_value c = of_char c - 48"

definition isdigit :: "char \<Rightarrow> bool" where
  "isdigit c \<longleftrightarrow> 48 \<le> (of_char c :: nat) \<and> (of_char c :: nat) \<le> 57"

lemma digit_simps [simp]:
  assumes "d < 10"
  shows "digit_value (digit d) = d" and "isdigit (digit d)"
  using assms by (simp_all add: digit_def digit_value_def isdigit_def of_char_of take_bit_nat_eq_self_iff)

fun dec :: "nat \<Rightarrow> string" where
  "dec n = (if n < 10 then [digit n] else dec (n div 10) @ [digit (n mod 10)])"

declare dec.simps [simp del]

lemma dec_small [simp]: "n < 10 \<Longrightarrow> dec n = [digit n]"
  by (simp add: dec.simps)

lemma dec_nonempty [simp]: "dec n \<noteq> []"
  by (subst dec.simps) simp

lemma dec_isdigit: "c \<in> set (dec n) \<Longrightarrow> isdigit c"
  by (induction n rule: dec.induct) (subst (asm) (2) dec.simps, auto split: if_splits)

text \<open>The number a string of digits spells.\<close>

definition digits_value :: "string \<Rightarrow> nat" where
  "digits_value s = foldl (\<lambda>v c. 10 * v + digit_value c) 0 s"

lemma digits_value_dec [simp]: "digits_value (dec n) = n"
proof (induction n rule: dec.induct)
  case (1 n)
  then show ?case
    by (subst dec.simps) (auto simp: digits_value_def)
qed

lemma dec_inject [simp]: "dec m = dec n \<longleftrightarrow> m = n"
  by (metis digits_value_dec)

lemma length_dec: "n < 10 ^ k \<Longrightarrow> 0 < k \<Longrightarrow> length (dec n) \<le> k"
proof (induction n arbitrary: k rule: dec.induct)
  case (1 n)
  show ?case
  proof (cases "n < 10")
    case False
    with 1(2) obtain j where k: "k = Suc j" "0 < j"
      by (cases k; cases "k - 1") auto
    with 1(2) have "n div 10 < 10 ^ j"
      by (simp add: less_mult_imp_div_less mult.commute)
    from 1(1) [OF False this k(2)] show ?thesis
      using False by (subst dec.simps) (simp add: k(1))
  qed (use 1 in simp)
qed

lemma NUL_not_digit [simp]: "\<not> isdigit NUL"
  by (simp add: isdigit_def)

lemma dec_no_NUL [simp]: "NUL \<notin> set (dec n)"
  using dec_isdigit [of NUL n] by auto

definition isspace :: "char \<Rightarrow> bool" where
  "isspace c \<longleftrightarrow> c = CHR '' '' \<or> 9 \<le> (of_char c :: nat) \<and> (of_char c :: nat) \<le> 13"

text \<open>\<open>strtoull(s, NULL, 10)\<close>: leading space, an optional sign, digits; out of range is the maximum.\<close>

definition strtoull :: "string \<Rightarrow> u64" where
  "strtoull s =
     (let s = dropWhile isspace s;
          neg = (s \<noteq> [] \<and> hd s = CHR ''-'');
          s = (if s \<noteq> [] \<and> (hd s = CHR ''-'' \<or> hd s = CHR ''+'') then tl s else s);
          v = digits_value (takeWhile isdigit s)
      in if v \<ge> 2 ^ 64 then - 1 else if neg then - of_nat v else of_nat v)"

lemma isdigit_not_space: "isdigit c \<Longrightarrow> \<not> isspace c"
  by (auto simp: isdigit_def isspace_def)

lemma strtoull_digits:
  assumes "\<forall>c\<in>set ds. isdigit c" and "digits_value ds < 2 ^ 64" and "ds \<noteq> []"
    and "rest = [] \<or> \<not> isdigit (hd rest)"
  shows "strtoull (ds @ rest) = of_nat (digits_value ds)"
proof -
  obtain d ds' where ds: "ds = d # ds'"
    using assms(3) by (cases ds) auto
  have d: "isdigit d" "\<not> isspace d" "d \<noteq> CHR ''-''" "d \<noteq> CHR ''+''"
    using assms(1) isdigit_not_space by (auto simp: ds) (simp_all add: isdigit_def)
  have "takeWhile isdigit (ds @ rest) = ds"
    using assms(1,4) by (cases rest) (auto simp: takeWhile_append2 takeWhile_append)
  then show ?thesis
    using assms(2) d by (auto simp: strtoull_def Let_def ds)
qed

lemma strtoull_dec [simp]: "strtoull (dec (unat w)) = w"
  using strtoull_digits [of "dec (unat w)" "[]"] dec_isdigit unsigned_less [of w, where ?'a = nat] by simp

section \<open>Searching\<close>

text \<open>The suffix at the first occurrence of a string or of a character.\<close>

fun strstr :: "string \<Rightarrow> string \<Rightarrow> string option" where
  "strstr [] n = (if n = [] then Some [] else None)"
| "strstr (c # cs) n = (if take (length n) (c # cs) = n then Some (c # cs) else strstr cs n)"

lemma strstr_prefix [simp]: "strstr (n @ s) n = Some (n @ s)"
  by (cases "n @ s") (auto simp: append_eq_Cons_conv)

lemma strstr_skip:
  assumes "n \<noteq> []" and "hd n \<notin> set p"
  shows "strstr (p @ n @ s) n = Some (n @ s)"
  using assms(2)
proof (induction p)
  case (Cons c p)
  have "take (length n) (c # p @ n @ s) \<noteq> n"
    using Cons.prems assms(1) by (cases n) auto
  with Cons show ?case by simp
qed simp

lemma strstr_Some: "strstr s n = Some t \<Longrightarrow> \<exists>p. s = p @ t \<and> take (length n) t = n"
proof (induction s)
  case (Cons c s)
  show ?case
  proof (cases "take (length n) (c # s) = n")
    case True
    then show ?thesis using Cons.prems by (intro exI [of _ "[]"]) auto
  next
    case False
    with Cons obtain p where "s = p @ t" "take (length n) t = n" by auto
    then show ?thesis by (intro exI [of _ "c # p"]) simp
  qed
qed (auto split: if_splits)

fun strchr :: "string \<Rightarrow> char \<Rightarrow> string option" where
  "strchr [] c = None"
| "strchr (d # s) c = (if d = c then Some (d # s) else strchr s c)"

lemma strchr_skip [simp]: "c \<notin> set p \<Longrightarrow> strchr (p @ c # s) c = Some (c # s)"
  by (induction p) auto

lemma strchr_None_iff: "strchr s c = None \<longleftrightarrow> c \<notin> set s"
  by (induction s) auto

text \<open>The characters before the first occurrence: \<open>token_end - token_start\<close> of them.\<close>

definition until :: "char \<Rightarrow> string \<Rightarrow> string option" where
  "until c s = (case strchr s c of None \<Rightarrow> None | Some t \<Rightarrow> Some (take (length s - length t) s))"

lemma until_skip [simp]: "c \<notin> set p \<Longrightarrow> until c (p @ c # s) = Some p"
  by (simp add: until_def)

lemma until_None_iff [simp]: "until c s = None \<longleftrightarrow> c \<notin> set s"
  by (cases "strchr s c") (use strchr_None_iff [of s c] in \<open>auto simp: until_def\<close>)

text \<open>\<open>strncmp(s, p, strlen(p)) == 0\<close>: the buffer starts with the characters of \<open>p\<close>.\<close>

definition starts_with :: "string \<Rightarrow> string \<Rightarrow> bool" where
  "starts_with s p \<longleftrightarrow> take (length p) s = p"

lemma starts_with_append [simp]: "starts_with (p @ s) p"
  by (simp add: starts_with_def)

end
