(* ===== verification/Dali_Diagnostics.thy ===== *)
theory Dali_Diagnostics
  imports Dali_Memory_Bank CStrings
begin

text \<open>
  components/DALI_diagnostics_and_maintenance: the diagnostic values of one gear, read
  field by field from memory banks 205 to 207. A read that fails leaves its field as the
  uninitialised structure had it, and is logged.
\<close>

section \<open>Locations and values\<close>

definition MEMORY_BANK_205 :: u8 where "MEMORY_BANK_205 = 205"
definition MEMORY_BANK_206 :: u8 where "MEMORY_BANK_206 = 206"
definition MEMORY_BANK_207 :: u8 where "MEMORY_BANK_207 = 207"
definition LOCK_BYTE :: u8 where "LOCK_BYTE = 0x02"
definition OPERATING_TIME_MSB :: u8 where "OPERATING_TIME_MSB = 0x04"
definition START_COUNTER_MSB :: u8 where "START_COUNTER_MSB = 0x08"
definition EXTERNAL_SUPPLY_VOLTAGE_MSB :: u8 where "EXTERNAL_SUPPLY_VOLTAGE_MSB = 0x0B"
definition EXTERNAL_SUPPLY_VOLTAGE_FREQUENZY :: u8 where "EXTERNAL_SUPPLY_VOLTAGE_FREQUENZY = 0x0D"
definition POWER_FACTOR :: u8 where "POWER_FACTOR = 0x0E"
definition OVERALL_FALIURE_CONDITION :: u8 where "OVERALL_FALIURE_CONDITION = 0x0F"
definition EXTERNAL_SUPPLY_UNDERVOLTAGE :: u8 where "EXTERNAL_SUPPLY_UNDERVOLTAGE = 0x11"
definition EXTERNAL_SUPPLY_UNDERVOLTAGE_COUNTER :: u8 where "EXTERNAL_SUPPLY_UNDERVOLTAGE_COUNTER = 0x12"
definition EXTERNAL_SUPPLY_OVERVOLTAGE :: u8 where "EXTERNAL_SUPPLY_OVERVOLTAGE = 0x13"
definition EXTERNAL_SUPPLY_OVERVOLTAGE_COUNTER :: u8 where "EXTERNAL_SUPPLY_OVERVOLTAGE_COUNTER = 0x14"
definition OUTPUT_POWER_LIMITATION :: u8 where "OUTPUT_POWER_LIMITATION = 0x15"
definition OUTPUT_POWER_LIMITATION_COUNTER :: u8 where "OUTPUT_POWER_LIMITATION_COUNTER = 0x16"
definition THERMAL_DERATING :: u8 where "THERMAL_DERATING = 0x17"
definition THERMAL_DERATING_COUNTER :: u8 where "THERMAL_DERATING_COUNTER = 0x18"
definition THERMAL_SHUTDOWN :: u8 where "THERMAL_SHUTDOWN = 0x19"
definition THERMAL_SHUTDOWN_COUNTER :: u8 where "THERMAL_SHUTDOWN_COUNTER = 0x1A"
definition TEMPERATURE :: u8 where "TEMPERATURE = 0x1B"
definition OUTPUT_CURRENT_PERCENT :: u8 where "OUTPUT_CURRENT_PERCENT = 0x1C"
definition LIGHT_SOURCE_START_COUNTER_RESETTABLE_MSB :: u8 where "LIGHT_SOURCE_START_COUNTER_RESETTABLE_MSB = 0x04"
definition LIGHT_SOURCE_START_COUNTER_MSB :: u8 where "LIGHT_SOURCE_START_COUNTER_MSB = 0x07"
definition LIGHT_SOURCE_ON_TIME_RESETTABLE_MSB :: u8 where "LIGHT_SOURCE_ON_TIME_RESETTABLE_MSB = 0x0A"
definition LIGHT_SOURCE_ON_TIME_MSB :: u8 where "LIGHT_SOURCE_ON_TIME_MSB = 0x0E"
definition LIGHT_SOURCE_VOLTAGE_MSB :: u8 where "LIGHT_SOURCE_VOLTAGE_MSB = 0x12"
definition LIGHT_SOURCE_CURRENT_MSB :: u8 where "LIGHT_SOURCE_CURRENT_MSB = 0x14"
definition LIGHT_SOURCE_OVERALL_FALIURE_CONDITION :: u8 where "LIGHT_SOURCE_OVERALL_FALIURE_CONDITION = 0x16"
definition LIGHT_SOURCE_OVERALL_FALIURE_CONDITION_COUNTER :: u8 where "LIGHT_SOURCE_OVERALL_FALIURE_CONDITION_COUNTER = 0x17"
definition LIGHT_SOURCE_SHORT_CIRCUIT :: u8 where "LIGHT_SOURCE_SHORT_CIRCUIT = 0x18"
definition LIGHT_SOURCE_SHORT_CIRCUIT_COUNTER :: u8 where "LIGHT_SOURCE_SHORT_CIRCUIT_COUNTER = 0x19"
definition LIGHT_SOURCE_OPEN_CIRCUIT :: u8 where "LIGHT_SOURCE_OPEN_CIRCUIT = 0x1A"
definition LIGHT_SOURCE_OPEN_CIRCUIT_COUNTER :: u8 where "LIGHT_SOURCE_OPEN_CIRCUIT_COUNTER = 0x1B"
definition LIGHT_SOURCE_THERMAL_DERATING :: u8 where "LIGHT_SOURCE_THERMAL_DERATING = 0x1C"
definition LIGHT_SOURCE_THERMAL_DERATING_COUNTER :: u8 where "LIGHT_SOURCE_THERMAL_DERATING_COUNTER = 0x1D"
definition LIGHT_SOURCE_THERMAL_SHUTDOWN :: u8 where "LIGHT_SOURCE_THERMAL_SHUTDOWN = 0x1E"
definition LIGHT_SOURCE_THERMAL_SHUTDOWN_COUNTER :: u8 where "LIGHT_SOURCE_THERMAL_SHUTDOWN_COUNTER = 0x1F"
definition LIGHT_SOURCE_TEMPERATURE :: u8 where "LIGHT_SOURCE_TEMPERATURE = 0x20"
definition RATED_MEDIAN_USEFULL_LIFE_OF_LUMINARE :: u8 where "RATED_MEDIAN_USEFULL_LIFE_OF_LUMINARE = 0x04"
definition INTERNAL_CONTROLE_GEAR_REFERENCE_TEMPERATURE :: u8 where "INTERNAL_CONTROLE_GEAR_REFERENCE_TEMPERATURE = 0x05"
definition RATED_MEDIAN_USEFULL_LIGHT_SOURCE_STARTS_MSB :: u8 where "RATED_MEDIAN_USEFULL_LIGHT_SOURCE_STARTS_MSB = 0x06"

lemmas location_defs =
  MEMORY_BANK_205_def
  MEMORY_BANK_206_def
  MEMORY_BANK_207_def
  LOCK_BYTE_def
  OPERATING_TIME_MSB_def
  START_COUNTER_MSB_def
  EXTERNAL_SUPPLY_VOLTAGE_MSB_def
  EXTERNAL_SUPPLY_VOLTAGE_FREQUENZY_def
  POWER_FACTOR_def
  OVERALL_FALIURE_CONDITION_def
  EXTERNAL_SUPPLY_UNDERVOLTAGE_def
  EXTERNAL_SUPPLY_UNDERVOLTAGE_COUNTER_def
  EXTERNAL_SUPPLY_OVERVOLTAGE_def
  EXTERNAL_SUPPLY_OVERVOLTAGE_COUNTER_def
  OUTPUT_POWER_LIMITATION_def
  OUTPUT_POWER_LIMITATION_COUNTER_def
  THERMAL_DERATING_def
  THERMAL_DERATING_COUNTER_def
  THERMAL_SHUTDOWN_def
  THERMAL_SHUTDOWN_COUNTER_def
  TEMPERATURE_def
  OUTPUT_CURRENT_PERCENT_def
  LIGHT_SOURCE_START_COUNTER_RESETTABLE_MSB_def
  LIGHT_SOURCE_START_COUNTER_MSB_def
  LIGHT_SOURCE_ON_TIME_RESETTABLE_MSB_def
  LIGHT_SOURCE_ON_TIME_MSB_def
  LIGHT_SOURCE_VOLTAGE_MSB_def
  LIGHT_SOURCE_CURRENT_MSB_def
  LIGHT_SOURCE_OVERALL_FALIURE_CONDITION_def
  LIGHT_SOURCE_OVERALL_FALIURE_CONDITION_COUNTER_def
  LIGHT_SOURCE_SHORT_CIRCUIT_def
  LIGHT_SOURCE_SHORT_CIRCUIT_COUNTER_def
  LIGHT_SOURCE_OPEN_CIRCUIT_def
  LIGHT_SOURCE_OPEN_CIRCUIT_COUNTER_def
  LIGHT_SOURCE_THERMAL_DERATING_def
  LIGHT_SOURCE_THERMAL_DERATING_COUNTER_def
  LIGHT_SOURCE_THERMAL_SHUTDOWN_def
  LIGHT_SOURCE_THERMAL_SHUTDOWN_COUNTER_def
  LIGHT_SOURCE_TEMPERATURE_def
  RATED_MEDIAN_USEFULL_LIFE_OF_LUMINARE_def
  INTERNAL_CONTROLE_GEAR_REFERENCE_TEMPERATURE_def
  RATED_MEDIAN_USEFULL_LIGHT_SOURCE_STARTS_MSB_def

record Controle_gear_values_t =
  manufacturer_id :: u64
  gear_short_address :: u8
  operating_time :: u32
  start_counter :: u32
  external_supply_voltage :: u16
  external_supply_voltage_frequency :: u8
  power_factor :: u8
  overall_faliure_condition :: u8
  external_supply_undervoltage :: u8
  external_supply_undervoltage_counter :: u8
  external_supply_overvoltage :: u8
  external_supply_overvoltage_counter :: u8
  output_power_limitation :: u8
  output_power_limitation_counter :: u8
  thermal_derating :: u8
  thermal_derating_counter :: u8
  thermal_shutdown :: u8
  thermal_shutdown_counter :: u8
  temperature :: u8
  output_current_percent :: u8
  light_source_start_counter_resettable :: u32
  light_source_start_counter :: u32
  light_source_on_time_resettable :: u32
  light_source_on_time :: u32
  light_source_voltage :: u16
  light_source_current :: u16
  light_source_overall_faliure_condition :: u8
  light_source_overall_faliure_condition_counter :: u8
  light_source_short_circuit :: u8
  light_source_short_circuit_counter :: u8
  light_source_open_circuit :: u8
  light_source_open_circuit_counter :: u8
  light_source_thermal_derating :: u8
  light_source_thermal_derating_counter :: u8
  light_source_thermal_shutdown :: u8
  light_source_thermal_shutdown_counter :: u8
  light_source_temperature :: u8
  rated_median_usefull_life_of_luminare :: u8
  internal_controle_gear_reference_temperature :: u8
  rated_median_usefull_light_source_starts :: u16

section \<open>Reading more than one byte\<close>

text \<open>\<open>ret\<close> is what \<open>*return_value\<close> holds before the call; the local bytes are read only after they are written.\<close>

definition read_2_bytes ::
    "'w bus \<Rightarrow> u8 \<Rightarrow> u8 \<Rightarrow> u8 \<Rightarrow> u16 \<Rightarrow> 'w link \<Rightarrow> DALI_Status \<times> u16 \<times> 'w link" where
  "read_2_bytes bus a memory_bank start_address ret s =
     (case read_memory_location bus a memory_bank start_address 0 s of (st, MSB, s) \<Rightarrow>
        if st \<noteq> DALI_OK then (st, ret, s) else
      case read_memory_location bus a memory_bank (start_address + 1) 0 s of (st, LSB, s) \<Rightarrow>
        if st \<noteq> DALI_OK then (st, ret, s) else
      (st, push_bit 8 (ucast MSB) OR ucast LSB, s))"

definition read_3_bytes ::
    "'w bus \<Rightarrow> u8 \<Rightarrow> u8 \<Rightarrow> u8 \<Rightarrow> u32 \<Rightarrow> 'w link \<Rightarrow> DALI_Status \<times> u32 \<times> 'w link" where
  "read_3_bytes bus a memory_bank start_address ret s =
     (case read_memory_location bus a memory_bank start_address 0 s of (st, MSB, s) \<Rightarrow>
        if st \<noteq> DALI_OK then (st, ret, s) else
      case read_memory_location bus a memory_bank (start_address + 1) 0 s of (st, byte_2, s) \<Rightarrow>
        if st \<noteq> DALI_OK then (st, ret, s) else
      case read_memory_location bus a memory_bank (start_address + 2) 0 s of (st, LSB, s) \<Rightarrow>
        if st \<noteq> DALI_OK then (st, ret, s) else
      (st, push_bit 0x10 (ucast MSB) OR push_bit 8 (ucast byte_2) OR ucast LSB, s))"

definition read_4_bytes ::
    "'w bus \<Rightarrow> u8 \<Rightarrow> u8 \<Rightarrow> u8 \<Rightarrow> u32 \<Rightarrow> 'w link \<Rightarrow> DALI_Status \<times> u32 \<times> 'w link" where
  "read_4_bytes bus a memory_bank start_address ret s =
     (case read_memory_location bus a memory_bank start_address 0 s of (st, MSB, s) \<Rightarrow>
        if st \<noteq> DALI_OK then (st, ret, s) else
      case read_memory_location bus a memory_bank (start_address + 1) 0 s of (st, second, s) \<Rightarrow>
        if st \<noteq> DALI_OK then (st, ret, s) else
      case read_memory_location bus a memory_bank (start_address + 2) 0 s of (st, third, s) \<Rightarrow>
        if st \<noteq> DALI_OK then (st, ret, s) else
      case read_memory_location bus a memory_bank (start_address + 3) 0 s of (st, LSB, s) \<Rightarrow>
        if st \<noteq> DALI_OK then (st, ret, s) else
      (st, push_bit 0x18 (ucast MSB) OR push_bit 0x10 (ucast second) OR push_bit 8 (ucast third) OR
       ucast LSB, s))"

section \<open>Fetching the values of a gear\<close>

text \<open>The structure being filled in, the errors logged (message and status), and the link.\<close>

type_synonym 'w fetching = "Controle_gear_values_t \<times> (string \<times> DALI_Status) list \<times> 'w link"

definition fetch_field ::
    "('v \<Rightarrow> 'w link \<Rightarrow> DALI_Status \<times> 'v \<times> 'w link) \<Rightarrow> string option
     \<Rightarrow> (Controle_gear_values_t \<Rightarrow> 'v)
     \<Rightarrow> (('v \<Rightarrow> 'v) \<Rightarrow> Controle_gear_values_t \<Rightarrow> Controle_gear_values_t)
     \<Rightarrow> 'w fetching \<Rightarrow> 'w fetching" where
  "fetch_field rd msg get upd x =
     (case x of (gear, log, s) \<Rightarrow>
      case rd (get gear) s of (st, v, s) \<Rightarrow>
        (upd (\<lambda>_. v) gear,
         (case msg of Some m \<Rightarrow> if st \<noteq> DALI_OK then log @ [(m, st)] else log | None \<Rightarrow> log), s))"

definition fetch_bank_205 ::
    "'w bus \<Rightarrow> u8 \<Rightarrow> 'w fetching \<Rightarrow> 'w fetching" where
  "fetch_bank_205 bus a x =
     (let x = fetch_field (read_4_bytes bus a MEMORY_BANK_205 OPERATING_TIME_MSB)
                (Some ''Error getting operating time'') operating_time operating_time_update x;
          x = fetch_field (read_3_bytes bus a MEMORY_BANK_205 START_COUNTER_MSB)
                (Some ''Error getting start counter'') start_counter start_counter_update x;
          x = fetch_field (read_2_bytes bus a MEMORY_BANK_205 EXTERNAL_SUPPLY_VOLTAGE_MSB)
                (Some ''Error getting external supply voltage'') external_supply_voltage external_supply_voltage_update x;
          x = fetch_field (read_memory_location bus a MEMORY_BANK_205 EXTERNAL_SUPPLY_VOLTAGE_FREQUENZY)
                (Some ''Error getting external supply voltage frequenzy'') external_supply_voltage_frequency external_supply_voltage_frequency_update x;
          x = fetch_field (read_memory_location bus a MEMORY_BANK_205 POWER_FACTOR)
                (Some ''Error getting power factor'') power_factor power_factor_update x;
          x = fetch_field (read_memory_location bus a MEMORY_BANK_205 OVERALL_FALIURE_CONDITION)
                (Some ''Error getting overall faliure condition'') overall_faliure_condition overall_faliure_condition_update x;
          x = fetch_field (read_memory_location bus a MEMORY_BANK_205 EXTERNAL_SUPPLY_UNDERVOLTAGE)
                (Some ''Error getting external supply undervoltage'') external_supply_undervoltage external_supply_undervoltage_update x;
          x = fetch_field (read_memory_location bus a MEMORY_BANK_205 EXTERNAL_SUPPLY_UNDERVOLTAGE_COUNTER)
                (Some ''Error getting external supply undervoltage counter'') external_supply_undervoltage_counter external_supply_undervoltage_counter_update x;
          x = fetch_field (read_memory_location bus a MEMORY_BANK_205 EXTERNAL_SUPPLY_OVERVOLTAGE)
                (Some ''Error getting external supply overvoltage'') external_supply_overvoltage external_supply_overvoltage_update x;
          x = fetch_field (read_memory_location bus a MEMORY_BANK_205 EXTERNAL_SUPPLY_OVERVOLTAGE_COUNTER)
                (Some ''Error getting external supply overvoltage counter'') external_supply_overvoltage_counter external_supply_overvoltage_counter_update x;
          x = fetch_field (read_memory_location bus a MEMORY_BANK_205 OUTPUT_POWER_LIMITATION)
                (Some ''Error getting output power limitation'') output_power_limitation output_power_limitation_update x;
          x = fetch_field (read_memory_location bus a MEMORY_BANK_205 OUTPUT_POWER_LIMITATION_COUNTER)
                (Some ''Error getting output power limitation counter'') output_power_limitation_counter output_power_limitation_counter_update x;
          x = fetch_field (read_memory_location bus a MEMORY_BANK_205 THERMAL_DERATING)
                (Some ''Error getting thermal derating'') thermal_derating thermal_derating_update x;
          x = fetch_field (read_memory_location bus a MEMORY_BANK_205 THERMAL_DERATING_COUNTER)
                (Some ''Error getting thermal derating counter'') thermal_derating_counter thermal_derating_counter_update x;
          x = fetch_field (read_memory_location bus a MEMORY_BANK_205 THERMAL_SHUTDOWN)
                (Some ''Error getting thermal shutdown'') thermal_shutdown thermal_shutdown_update x;
          x = fetch_field (read_memory_location bus a MEMORY_BANK_205 THERMAL_SHUTDOWN_COUNTER)
                (Some ''Error getting thermal shutdown counter'') thermal_shutdown_counter thermal_shutdown_counter_update x;
          x = fetch_field (read_memory_location bus a MEMORY_BANK_205 TEMPERATURE)
                (Some ''Error getting temperature'') temperature temperature_update x
      in fetch_field (read_memory_location bus a MEMORY_BANK_205 OUTPUT_CURRENT_PERCENT)
                (Some ''Error getting output current percent'') output_current_percent output_current_percent_update x)"

definition fetch_bank_206 ::
    "'w bus \<Rightarrow> u8 \<Rightarrow> 'w fetching \<Rightarrow> 'w fetching" where
  "fetch_bank_206 bus a x =
     (let x = fetch_field (read_3_bytes bus a MEMORY_BANK_206 LIGHT_SOURCE_START_COUNTER_RESETTABLE_MSB)
                (Some ''Error getting light source start counter'') light_source_start_counter_resettable light_source_start_counter_resettable_update x;
          x = fetch_field (read_3_bytes bus a MEMORY_BANK_206 LIGHT_SOURCE_START_COUNTER_MSB)
                (Some ''Error getting light source start counter'') light_source_start_counter light_source_start_counter_update x;
          x = fetch_field (read_4_bytes bus a MEMORY_BANK_206 LIGHT_SOURCE_ON_TIME_RESETTABLE_MSB)
                (Some ''Error getting light source on time'') light_source_on_time_resettable light_source_on_time_resettable_update x;
          x = fetch_field (read_4_bytes bus a MEMORY_BANK_206 LIGHT_SOURCE_ON_TIME_MSB)
                (Some ''Error getting light source on time'') light_source_on_time light_source_on_time_update x;
          x = fetch_field (read_2_bytes bus a MEMORY_BANK_206 LIGHT_SOURCE_VOLTAGE_MSB)
                (Some ''Error getting light source voltage'') light_source_voltage light_source_voltage_update x;
          x = fetch_field (read_2_bytes bus a MEMORY_BANK_206 LIGHT_SOURCE_CURRENT_MSB)
                (Some ''Error getting light source current'') light_source_current light_source_current_update x;
          x = fetch_field (read_memory_location bus a MEMORY_BANK_206 LIGHT_SOURCE_OVERALL_FALIURE_CONDITION)
                (Some ''Error getting light source overall faliure condition'') light_source_overall_faliure_condition light_source_overall_faliure_condition_update x;
          x = fetch_field (read_memory_location bus a MEMORY_BANK_206 LIGHT_SOURCE_OVERALL_FALIURE_CONDITION_COUNTER)
                (Some ''Error getting light source overall faliure condition counter'') light_source_overall_faliure_condition_counter light_source_overall_faliure_condition_counter_update x;
          x = fetch_field (read_memory_location bus a MEMORY_BANK_206 LIGHT_SOURCE_SHORT_CIRCUIT)
                (Some ''Error getting light source short circuit'') light_source_short_circuit light_source_short_circuit_update x;
          x = fetch_field (read_memory_location bus a MEMORY_BANK_206 LIGHT_SOURCE_SHORT_CIRCUIT_COUNTER)
                (Some ''Error getting light source short circuit counter'') light_source_short_circuit_counter light_source_short_circuit_counter_update x;
          x = fetch_field (read_memory_location bus a MEMORY_BANK_206 LIGHT_SOURCE_OPEN_CIRCUIT)
                (Some ''Error getting light source open circuit'') light_source_open_circuit light_source_open_circuit_update x;
          x = fetch_field (read_memory_location bus a MEMORY_BANK_206 LIGHT_SOURCE_OPEN_CIRCUIT_COUNTER)
                (Some ''Error getting light source open circuit counter'') light_source_open_circuit_counter light_source_open_circuit_counter_update x;
          x = fetch_field (read_memory_location bus a MEMORY_BANK_206 LIGHT_SOURCE_THERMAL_DERATING)
                (Some ''Error getting light source thermal derating'') light_source_thermal_derating light_source_thermal_derating_update x;
          x = fetch_field (read_memory_location bus a MEMORY_BANK_206 LIGHT_SOURCE_THERMAL_DERATING_COUNTER)
                (Some ''Error getting light source thermal derating counter'') light_source_thermal_derating_counter light_source_thermal_derating_counter_update x;
          x = fetch_field (read_memory_location bus a MEMORY_BANK_206 LIGHT_SOURCE_THERMAL_SHUTDOWN)
                (Some ''Error getting light source thermal shutdown'') light_source_thermal_shutdown light_source_thermal_shutdown_update x;
          x = fetch_field (read_memory_location bus a MEMORY_BANK_206 LIGHT_SOURCE_THERMAL_SHUTDOWN_COUNTER)
                (Some ''Error getting light source thermal shutdown counter'') light_source_thermal_shutdown_counter light_source_thermal_shutdown_counter_update x
      in fetch_field (read_memory_location bus a MEMORY_BANK_206 LIGHT_SOURCE_TEMPERATURE)
                (Some ''Error getting light source temperature'') light_source_temperature light_source_temperature_update x)"

definition fetch_bank_207 ::
    "'w bus \<Rightarrow> u8 \<Rightarrow> 'w fetching \<Rightarrow> 'w fetching" where
  "fetch_bank_207 bus a x =
     (let x = fetch_field (read_memory_location bus a MEMORY_BANK_207 RATED_MEDIAN_USEFULL_LIFE_OF_LUMINARE)
                (Some ''Error getting rated median usefull life of luminares'') rated_median_usefull_life_of_luminare rated_median_usefull_life_of_luminare_update x;
          x = fetch_field (read_memory_location bus a MEMORY_BANK_207 INTERNAL_CONTROLE_GEAR_REFERENCE_TEMPERATURE)
                (Some ''Error getting internal controle gear reference temperature'') internal_controle_gear_reference_temperature internal_controle_gear_reference_temperature_update x
      in fetch_field (read_2_bytes bus a MEMORY_BANK_207 RATED_MEDIAN_USEFULL_LIGHT_SOURCE_STARTS_MSB)
                (None) rated_median_usefull_light_source_starts rated_median_usefull_light_source_starts_update x)"

definition fetch_unlock :: "'w bus \<Rightarrow> u8 \<Rightarrow> 'w link \<Rightarrow> 'w link" where
  "fetch_unlock bus a s =
     (let s = send 0x0181 s;
          s = vTaskDelay bus s;
          s = send 0x0181 s;
          s = vTaskDelay bus s
      in snd (write_memory_location bus a MEMORY_BANK_205 LOCK_BYTE 0x55 s))"

text \<open>\<open>junk\<close> and \<open>bytes\<close> are the uninitialised structure and the uninitialised bytes of the id.\<close>

definition fetch_controle_gear_data ::
    "'w bus \<Rightarrow> u8 list \<Rightarrow> Controle_gear_values_t \<Rightarrow> u8 \<Rightarrow> 'w link \<Rightarrow> 'w fetching" where
  "fetch_controle_gear_data bus bytes junk a s =
     (let s = fetch_unlock bus a s;
          (ident, s) = read_manufactor_id bus bytes a s;
          x = (junk\<lparr>manufacturer_id := ident, gear_short_address := a\<rparr>, [], s);
          x = fetch_bank_205 bus a x;
          x = fetch_bank_206 bus a x
      in fetch_bank_207 bus a x)"

text \<open>The lines \<open>printObject\<close> puts on the console.\<close>

definition printObject :: "Controle_gear_values_t \<Rightarrow> string list" where
  "printObject gear = [[], [], ''Controle_gear_values_t {'',
     ''  Manufacturer ID: '' @ dec (unat (manufacturer_id gear)),
     ''  Operating Time: '' @ dec (unat (operating_time gear)),
     ''  Start Counter: '' @ dec (unat (start_counter gear)),
     ''  External Supply Voltage: '' @ dec (unat (external_supply_voltage gear)),
     ''  External Supply Voltage Frequency: '' @ dec (unat (external_supply_voltage_frequency gear)),
     ''  Power Factor: '' @ dec (unat (power_factor gear)),
     ''  Overall Failure Condition: '' @ dec (unat (overall_faliure_condition gear)),
     ''  External Supply Undervoltage: '' @ dec (unat (external_supply_undervoltage gear)),
     ''  External Supply Undervoltage Counter: '' @ dec (unat (external_supply_undervoltage_counter gear)),
     ''  External Supply Overvoltage: '' @ dec (unat (external_supply_overvoltage gear)),
     ''  External Supply Overvoltage Counter: '' @ dec (unat (external_supply_overvoltage_counter gear)),
     ''  Output Power Limitation: '' @ dec (unat (output_power_limitation gear)),
     ''  Output Power Limitation Counter: '' @ dec (unat (output_power_limitation_counter gear)),
     ''  Thermal Derating: '' @ dec (unat (thermal_derating gear)),
     ''  Thermal Derating Counter: '' @ dec (unat (thermal_derating_counter gear)),
     ''  Thermal Shutdown: '' @ dec (unat (thermal_shutdown gear)),
     ''  Thermal Shutdown Counter: '' @ dec (unat (thermal_shutdown_counter gear)),
     ''  Temperature: '' @ dec (unat (temperature gear)),
     ''  Output Current Percent: '' @ dec (unat (output_current_percent gear)),
     ''  Light Source Start Counter Resettable: '' @ dec (unat (light_source_start_counter_resettable gear)),
     ''  Light Source Start Counter: '' @ dec (unat (light_source_start_counter gear)),
     ''  Light Source On Time Resettable: '' @ dec (unat (light_source_on_time_resettable gear)),
     ''  Light Source On Time: '' @ dec (unat (light_source_on_time gear)),
     ''  Light Source Voltage: '' @ dec (unat (light_source_voltage gear)),
     ''  Light Source Current: '' @ dec (unat (light_source_current gear)),
     ''  Light Source Overall Failure Condition: '' @ dec (unat (light_source_overall_faliure_condition gear)),
     ''  Light Source Overall Failure Condition Counter: '' @ dec (unat (light_source_overall_faliure_condition_counter gear)),
     ''  Light Source Short Circuit: '' @ dec (unat (light_source_short_circuit gear)),
     ''  Light Source Short Circuit Counter: '' @ dec (unat (light_source_short_circuit_counter gear)),
     ''  Light Source Open Circuit: '' @ dec (unat (light_source_open_circuit gear)),
     ''  Light Source Open Circuit Counter: '' @ dec (unat (light_source_open_circuit_counter gear)),
     ''  Light Source Thermal Derating: '' @ dec (unat (light_source_thermal_derating gear)),
     ''  Light Source Thermal Derating Counter: '' @ dec (unat (light_source_thermal_derating_counter gear)),
     ''  Light Source Thermal Shutdown: '' @ dec (unat (light_source_thermal_shutdown gear)),
     ''  Light Source Thermal Shutdown Counter: '' @ dec (unat (light_source_thermal_shutdown_counter gear)),
     ''  Light Source Temperature: '' @ dec (unat (light_source_temperature gear)),
     ''  Rated Median Useful Life of Luminaire: '' @ dec (unat (rated_median_usefull_life_of_luminare gear)),
     ''  Internal Controle Gear Reference Temperature: '' @ dec (unat (internal_controle_gear_reference_temperature gear)),
     ''  Rated Median Useful Light Source Starts: '' @ dec (unat (rated_median_usefull_light_source_starts gear)),
     ''}'']"

section \<open>What the memory banks say\<close>

text \<open>The big-endian value at a location, if every byte of it answers.\<close>

definition location_value :: "(u8 \<Rightarrow> u8 \<Rightarrow> u8 \<Rightarrow> u8 option) \<Rightarrow> u8 \<Rightarrow> u8 \<Rightarrow> u8 \<Rightarrow> nat \<Rightarrow> 'a::len word option" where
  "location_value M a b l n = map_option combine_bytes (those (map (\<lambda>i. M a b (l + of_nat i)) [0..<n]))"

definition gear_of_memory ::
    "(u8 \<Rightarrow> u8 \<Rightarrow> u8 \<Rightarrow> u8 option) \<Rightarrow> u8 \<Rightarrow> Controle_gear_values_t \<Rightarrow> Controle_gear_values_t" where
  "gear_of_memory M a gear = gear\<lparr>
     operating_time := answer_or (operating_time gear) (location_value M a MEMORY_BANK_205 OPERATING_TIME_MSB 4),
     start_counter := answer_or (start_counter gear) (location_value M a MEMORY_BANK_205 START_COUNTER_MSB 3),
     external_supply_voltage := answer_or (external_supply_voltage gear) (location_value M a MEMORY_BANK_205 EXTERNAL_SUPPLY_VOLTAGE_MSB 2),
     external_supply_voltage_frequency := answer_or (external_supply_voltage_frequency gear) (location_value M a MEMORY_BANK_205 EXTERNAL_SUPPLY_VOLTAGE_FREQUENZY 1),
     power_factor := answer_or (power_factor gear) (location_value M a MEMORY_BANK_205 POWER_FACTOR 1),
     overall_faliure_condition := answer_or (overall_faliure_condition gear) (location_value M a MEMORY_BANK_205 OVERALL_FALIURE_CONDITION 1),
     external_supply_undervoltage := answer_or (external_supply_undervoltage gear) (location_value M a MEMORY_BANK_205 EXTERNAL_SUPPLY_UNDERVOLTAGE 1),
     external_supply_undervoltage_counter := answer_or (external_supply_undervoltage_counter gear) (location_value M a MEMORY_BANK_205 EXTERNAL_SUPPLY_UNDERVOLTAGE_COUNTER 1),
     external_supply_overvoltage := answer_or (external_supply_overvoltage gear) (location_value M a MEMORY_BANK_205 EXTERNAL_SUPPLY_OVERVOLTAGE 1),
     external_supply_overvoltage_counter := answer_or (external_supply_overvoltage_counter gear) (location_value M a MEMORY_BANK_205 EXTERNAL_SUPPLY_OVERVOLTAGE_COUNTER 1),
     output_power_limitation := answer_or (output_power_limitation gear) (location_value M a MEMORY_BANK_205 OUTPUT_POWER_LIMITATION 1),
     output_power_limitation_counter := answer_or (output_power_limitation_counter gear) (location_value M a MEMORY_BANK_205 OUTPUT_POWER_LIMITATION_COUNTER 1),
     thermal_derating := answer_or (thermal_derating gear) (location_value M a MEMORY_BANK_205 THERMAL_DERATING 1),
     thermal_derating_counter := answer_or (thermal_derating_counter gear) (location_value M a MEMORY_BANK_205 THERMAL_DERATING_COUNTER 1),
     thermal_shutdown := answer_or (thermal_shutdown gear) (location_value M a MEMORY_BANK_205 THERMAL_SHUTDOWN 1),
     thermal_shutdown_counter := answer_or (thermal_shutdown_counter gear) (location_value M a MEMORY_BANK_205 THERMAL_SHUTDOWN_COUNTER 1),
     temperature := answer_or (temperature gear) (location_value M a MEMORY_BANK_205 TEMPERATURE 1),
     output_current_percent := answer_or (output_current_percent gear) (location_value M a MEMORY_BANK_205 OUTPUT_CURRENT_PERCENT 1),
     light_source_start_counter_resettable := answer_or (light_source_start_counter_resettable gear) (location_value M a MEMORY_BANK_206 LIGHT_SOURCE_START_COUNTER_RESETTABLE_MSB 3),
     light_source_start_counter := answer_or (light_source_start_counter gear) (location_value M a MEMORY_BANK_206 LIGHT_SOURCE_START_COUNTER_MSB 3),
     light_source_on_time_resettable := answer_or (light_source_on_time_resettable gear) (location_value M a MEMORY_BANK_206 LIGHT_SOURCE_ON_TIME_RESETTABLE_MSB 4),
     light_source_on_time := answer_or (light_source_on_time gear) (location_value M a MEMORY_BANK_206 LIGHT_SOURCE_ON_TIME_MSB 4),
     light_source_voltage := answer_or (light_source_voltage gear) (location_value M a MEMORY_BANK_206 LIGHT_SOURCE_VOLTAGE_MSB 2),
     light_source_current := answer_or (light_source_current gear) (location_value M a MEMORY_BANK_206 LIGHT_SOURCE_CURRENT_MSB 2),
     light_source_overall_faliure_condition := answer_or (light_source_overall_faliure_condition gear) (location_value M a MEMORY_BANK_206 LIGHT_SOURCE_OVERALL_FALIURE_CONDITION 1),
     light_source_overall_faliure_condition_counter := answer_or (light_source_overall_faliure_condition_counter gear) (location_value M a MEMORY_BANK_206 LIGHT_SOURCE_OVERALL_FALIURE_CONDITION_COUNTER 1),
     light_source_short_circuit := answer_or (light_source_short_circuit gear) (location_value M a MEMORY_BANK_206 LIGHT_SOURCE_SHORT_CIRCUIT 1),
     light_source_short_circuit_counter := answer_or (light_source_short_circuit_counter gear) (location_value M a MEMORY_BANK_206 LIGHT_SOURCE_SHORT_CIRCUIT_COUNTER 1),
     light_source_open_circuit := answer_or (light_source_open_circuit gear) (location_value M a MEMORY_BANK_206 LIGHT_SOURCE_OPEN_CIRCUIT 1),
     light_source_open_circuit_counter := answer_or (light_source_open_circuit_counter gear) (location_value M a MEMORY_BANK_206 LIGHT_SOURCE_OPEN_CIRCUIT_COUNTER 1),
     light_source_thermal_derating := answer_or (light_source_thermal_derating gear) (location_value M a MEMORY_BANK_206 LIGHT_SOURCE_THERMAL_DERATING 1),
     light_source_thermal_derating_counter := answer_or (light_source_thermal_derating_counter gear) (location_value M a MEMORY_BANK_206 LIGHT_SOURCE_THERMAL_DERATING_COUNTER 1),
     light_source_thermal_shutdown := answer_or (light_source_thermal_shutdown gear) (location_value M a MEMORY_BANK_206 LIGHT_SOURCE_THERMAL_SHUTDOWN 1),
     light_source_thermal_shutdown_counter := answer_or (light_source_thermal_shutdown_counter gear) (location_value M a MEMORY_BANK_206 LIGHT_SOURCE_THERMAL_SHUTDOWN_COUNTER 1),
     light_source_temperature := answer_or (light_source_temperature gear) (location_value M a MEMORY_BANK_206 LIGHT_SOURCE_TEMPERATURE 1),
     rated_median_usefull_life_of_luminare := answer_or (rated_median_usefull_life_of_luminare gear) (location_value M a MEMORY_BANK_207 RATED_MEDIAN_USEFULL_LIFE_OF_LUMINARE 1),
     internal_controle_gear_reference_temperature := answer_or (internal_controle_gear_reference_temperature gear) (location_value M a MEMORY_BANK_207 INTERNAL_CONTROLE_GEAR_REFERENCE_TEMPERATURE 1),
     rated_median_usefull_light_source_starts := answer_or (rated_median_usefull_light_source_starts gear) (location_value M a MEMORY_BANK_207 RATED_MEDIAN_USEFULL_LIGHT_SOURCE_STARTS_MSB 2)\<rparr>"

text \<open>The fields whose failure is logged: message, bank, location, bytes.\<close>

definition logged_fields :: "(string \<times> u8 \<times> u8 \<times> nat) list" where
  "logged_fields = [
     (''Error getting operating time'', MEMORY_BANK_205, OPERATING_TIME_MSB, 4),
     (''Error getting start counter'', MEMORY_BANK_205, START_COUNTER_MSB, 3),
     (''Error getting external supply voltage'', MEMORY_BANK_205, EXTERNAL_SUPPLY_VOLTAGE_MSB, 2),
     (''Error getting external supply voltage frequenzy'', MEMORY_BANK_205, EXTERNAL_SUPPLY_VOLTAGE_FREQUENZY, 1),
     (''Error getting power factor'', MEMORY_BANK_205, POWER_FACTOR, 1),
     (''Error getting overall faliure condition'', MEMORY_BANK_205, OVERALL_FALIURE_CONDITION, 1),
     (''Error getting external supply undervoltage'', MEMORY_BANK_205, EXTERNAL_SUPPLY_UNDERVOLTAGE, 1),
     (''Error getting external supply undervoltage counter'', MEMORY_BANK_205, EXTERNAL_SUPPLY_UNDERVOLTAGE_COUNTER, 1),
     (''Error getting external supply overvoltage'', MEMORY_BANK_205, EXTERNAL_SUPPLY_OVERVOLTAGE, 1),
     (''Error getting external supply overvoltage counter'', MEMORY_BANK_205, EXTERNAL_SUPPLY_OVERVOLTAGE_COUNTER, 1),
     (''Error getting output power limitation'', MEMORY_BANK_205, OUTPUT_POWER_LIMITATION, 1),
     (''Error getting output power limitation counter'', MEMORY_BANK_205, OUTPUT_POWER_LIMITATION_COUNTER, 1),
     (''Error getting thermal derating'', MEMORY_BANK_205, THERMAL_DERATING, 1),
     (''Error getting thermal derating counter'', MEMORY_BANK_205, THERMAL_DERATING_COUNTER, 1),
     (''Error getting thermal shutdown'', MEMORY_BANK_205, THERMAL_SHUTDOWN, 1),
     (''Error getting thermal shutdown counter'', MEMORY_BANK_205, THERMAL_SHUTDOWN_COUNTER, 1),
     (''Error getting temperature'', MEMORY_BANK_205, TEMPERATURE, 1),
     (''Error getting output current percent'', MEMORY_BANK_205, OUTPUT_CURRENT_PERCENT, 1),
     (''Error getting light source start counter'', MEMORY_BANK_206, LIGHT_SOURCE_START_COUNTER_RESETTABLE_MSB, 3),
     (''Error getting light source start counter'', MEMORY_BANK_206, LIGHT_SOURCE_START_COUNTER_MSB, 3),
     (''Error getting light source on time'', MEMORY_BANK_206, LIGHT_SOURCE_ON_TIME_RESETTABLE_MSB, 4),
     (''Error getting light source on time'', MEMORY_BANK_206, LIGHT_SOURCE_ON_TIME_MSB, 4),
     (''Error getting light source voltage'', MEMORY_BANK_206, LIGHT_SOURCE_VOLTAGE_MSB, 2),
     (''Error getting light source current'', MEMORY_BANK_206, LIGHT_SOURCE_CURRENT_MSB, 2),
     (''Error getting light source overall faliure condition'', MEMORY_BANK_206, LIGHT_SOURCE_OVERALL_FALIURE_CONDITION, 1),
     (''Error getting light source overall faliure condition counter'', MEMORY_BANK_206, LIGHT_SOURCE_OVERALL_FALIURE_CONDITION_COUNTER, 1),
     (''Error getting light source short circuit'', MEMORY_BANK_206, LIGHT_SOURCE_SHORT_CIRCUIT, 1),
     (''Error getting light source short circuit counter'', MEMORY_BANK_206, LIGHT_SOURCE_SHORT_CIRCUIT_COUNTER, 1),
     (''Error getting light source open circuit'', MEMORY_BANK_206, LIGHT_SOURCE_OPEN_CIRCUIT, 1),
     (''Error getting light source open circuit counter'', MEMORY_BANK_206, LIGHT_SOURCE_OPEN_CIRCUIT_COUNTER, 1),
     (''Error getting light source thermal derating'', MEMORY_BANK_206, LIGHT_SOURCE_THERMAL_DERATING, 1),
     (''Error getting light source thermal derating counter'', MEMORY_BANK_206, LIGHT_SOURCE_THERMAL_DERATING_COUNTER, 1),
     (''Error getting light source thermal shutdown'', MEMORY_BANK_206, LIGHT_SOURCE_THERMAL_SHUTDOWN, 1),
     (''Error getting light source thermal shutdown counter'', MEMORY_BANK_206, LIGHT_SOURCE_THERMAL_SHUTDOWN_COUNTER, 1),
     (''Error getting light source temperature'', MEMORY_BANK_206, LIGHT_SOURCE_TEMPERATURE, 1),
     (''Error getting rated median usefull life of luminares'', MEMORY_BANK_207, RATED_MEDIAN_USEFULL_LIFE_OF_LUMINARE, 1),
     (''Error getting internal controle gear reference temperature'', MEMORY_BANK_207, INTERNAL_CONTROLE_GEAR_REFERENCE_TEMPERATURE, 1)]"

definition missing :: "(u8 \<Rightarrow> u8 \<Rightarrow> u8 \<Rightarrow> u8 option) \<Rightarrow> u8 \<Rightarrow> u8 \<Rightarrow> u8 \<Rightarrow> nat \<Rightarrow> bool" where
  "missing M a b l n \<longleftrightarrow> (\<exists>i\<in>set [0..<n]. M a b (l + of_nat i) = None)"

definition log_of_memory :: "(u8 \<Rightarrow> u8 \<Rightarrow> u8 \<Rightarrow> u8 option) \<Rightarrow> u8 \<Rightarrow> (string \<times> DALI_Status) list" where
  "log_of_memory M a = concat (map (\<lambda>(m, b, l, n).
     if missing M a b l n then [(m, DALI_ERR_NO_RESPONSE)] else []) logged_fields)"

section \<open>Reading and composing\<close>

definition reads ::
    "'w bus \<Rightarrow> ('w \<Rightarrow> memory_view) \<Rightarrow> (u8 \<Rightarrow> u8 \<Rightarrow> u8 \<Rightarrow> u8 option)
     \<Rightarrow> ('v \<Rightarrow> 'w link \<Rightarrow> DALI_Status \<times> 'v \<times> 'w link) \<Rightarrow> 'v option \<Rightarrow> bool" where
  "reads bus view M rd v \<longleftrightarrow> (\<forall>s d. holds bus view M s \<longrightarrow>
     fst (rd d s) = (if v = None then DALI_ERR_NO_RESPONSE else DALI_OK) \<and>
     fst (snd (rd d s)) = answer_or d v \<and> holds bus view M (snd (snd (rd d s))))"

lemma location_value_unfold:
  "location_value M a b l 1 = M a b l"
  "location_value M a b l 2 = (case M a b l of None \<Rightarrow> None | Some x \<Rightarrow>
     map_option (\<lambda>y. push_bit 8 (ucast x) OR ucast y) (M a b (l + 1)))"
  by (simp_all add: location_value_def combine_bytes_def numeral_2_eq_2 option.map_comp o_def
      split: option.splits)

lemma combine_bytes_3_4:
  "(combine_bytes [x, y, z] :: u32) = push_bit 0x10 (ucast x) OR push_bit 8 (ucast y) OR ucast z"
  "(combine_bytes [x, y, z, u] :: u32) =
     push_bit 0x18 (ucast x) OR push_bit 0x10 (ucast y) OR push_bit 8 (ucast z) OR ucast u"
  by (simp_all add: combine_bytes_def or.assoc)

lemma upt_3_4: "[0..<3] = [0, 1, 2::nat]" "[0..<4] = [0, 1, 2, 3::nat]"
  by code_simp+

lemma location_value_3:
  "(location_value M a b l 3 :: u32 option) = (case M a b l of None \<Rightarrow> None | Some x \<Rightarrow>
     case M a b (l + 1) of None \<Rightarrow> None | Some y \<Rightarrow>
     map_option (\<lambda>z. push_bit 0x10 (ucast x) OR push_bit 8 (ucast y) OR ucast z) (M a b (l + 2)))"
  by (simp add: location_value_def combine_bytes_3_4 upt_3_4 split: option.split)

lemma location_value_4:
  "(location_value M a b l 4 :: u32 option) = (case M a b l of None \<Rightarrow> None | Some x \<Rightarrow>
     case M a b (l + 1) of None \<Rightarrow> None | Some y \<Rightarrow>
     case M a b (l + 2) of None \<Rightarrow> None | Some z \<Rightarrow>
     map_option (\<lambda>u. push_bit 0x18 (ucast x) OR push_bit 0x10 (ucast y) OR push_bit 8 (ucast z) OR ucast u)
       (M a b (l + 3)))"
  by (simp add: location_value_def combine_bytes_3_4 upt_3_4 split: option.split)

lemma missing_iff: "missing M a b l n \<longleftrightarrow> location_value M a b l n = None"
proof -
  have "those ys = None \<longleftrightarrow> None \<in> set ys" for ys :: "u8 option list"
    by (induction ys) (auto split: option.split)
  then show ?thesis
    by (force simp: missing_def location_value_def)
qed

lemma readsI:
  assumes "\<And>s d. holds bus view M s \<Longrightarrow> fst (rd d s) = (if v = None then DALI_ERR_NO_RESPONSE else DALI_OK)
    \<and> fst (snd (rd d s)) = answer_or d v \<and> holds bus view M (snd (snd (rd d s)))"
  shows "reads bus view M rd v"
  using assms by (simp add: reads_def)

lemma location_read:
  assumes "a < 64" and "holds bus view M s"
  obtains s' where "read_memory_location bus a b l d s = (case M a b l of None \<Rightarrow> (DALI_ERR_NO_RESPONSE, d, s')
      | Some v \<Rightarrow> (DALI_OK, v, s'))" and "holds bus view M s'"
proof -
  have "\<exists>s'. read_memory_location bus a b l d s = (case M a b l of None \<Rightarrow> (DALI_ERR_NO_RESPONSE, d, s')
      | Some v \<Rightarrow> (DALI_OK, v, s')) \<and> holds bus view M s'"
    using read_memory_location [OF assms(2,1), of b l d]
    by (cases "read_memory_location bus a b l d s") (auto split: option.splits)
  then show ?thesis
    using that by blast
qed

lemma reads_1_byte:
  assumes a: "a < 64"
  shows "reads bus view M (read_memory_location bus a b l) (location_value M a b l 1 :: u8 option)"
proof (rule readsI, goal_cases)
  case (1 s d)
  show ?case
    unfolding location_value_unfold(1)
    by (rule location_read [OF a 1, of b l d]; cases "M a b l") simp_all
qed

lemma reads_2_bytes:
  assumes a: "a < 64"
  shows "reads bus view M (read_2_bytes bus a b l) (location_value M a b l 2 :: u16 option)"
proof (rule readsI, goal_cases)
  case (1 s d)
  obtain s1 where 1: "read_memory_location bus a b l 0 s = (case M a b l of
      None \<Rightarrow> (DALI_ERR_NO_RESPONSE, 0, s1) | Some v \<Rightarrow> (DALI_OK, v, s1))" "holds bus view M s1"
    by (rule location_read [OF a 1])
  obtain s2 where 2: "read_memory_location bus a b (l + 1) 0 s1 = (case M a b (l + 1) of
      None \<Rightarrow> (DALI_ERR_NO_RESPONSE, 0, s2) | Some v \<Rightarrow> (DALI_OK, v, s2))" "holds bus view M s2"
    by (rule location_read [OF a 1(2)])
  show ?case
    using 1 2 by (cases "M a b l"; cases "M a b (l + 1)") (simp_all add: read_2_bytes_def location_value_unfold)
qed

lemma reads_3_bytes:
  assumes a: "a < 64"
  shows "reads bus view M (read_3_bytes bus a b l) (location_value M a b l 3 :: u32 option)"
proof (rule readsI, goal_cases)
  case (1 s d)
  obtain s1 where 1: "read_memory_location bus a b l 0 s = (case M a b l of
      None \<Rightarrow> (DALI_ERR_NO_RESPONSE, 0, s1) | Some v \<Rightarrow> (DALI_OK, v, s1))" "holds bus view M s1"
    by (rule location_read [OF a 1])
  obtain s2 where 2: "read_memory_location bus a b (l + 1) 0 s1 = (case M a b (l + 1) of
      None \<Rightarrow> (DALI_ERR_NO_RESPONSE, 0, s2) | Some v \<Rightarrow> (DALI_OK, v, s2))" "holds bus view M s2"
    by (rule location_read [OF a 1(2)])
  obtain s3 where 3: "read_memory_location bus a b (l + 2) 0 s2 = (case M a b (l + 2) of
      None \<Rightarrow> (DALI_ERR_NO_RESPONSE, 0, s3) | Some v \<Rightarrow> (DALI_OK, v, s3))" "holds bus view M s3"
    by (rule location_read [OF a 2(2)])
  show ?case
    using 1 2 3 by (cases "M a b l"; cases "M a b (l + 1)"; cases "M a b (l + 2)")
      (simp_all add: read_3_bytes_def location_value_3)
qed

lemma reads_4_bytes:
  assumes a: "a < 64"
  shows "reads bus view M (read_4_bytes bus a b l) (location_value M a b l 4 :: u32 option)"
proof (rule readsI, goal_cases)
  case (1 s d)
  obtain s1 where 1: "read_memory_location bus a b l 0 s = (case M a b l of
      None \<Rightarrow> (DALI_ERR_NO_RESPONSE, 0, s1) | Some v \<Rightarrow> (DALI_OK, v, s1))" "holds bus view M s1"
    by (rule location_read [OF a 1])
  obtain s2 where 2: "read_memory_location bus a b (l + 1) 0 s1 = (case M a b (l + 1) of
      None \<Rightarrow> (DALI_ERR_NO_RESPONSE, 0, s2) | Some v \<Rightarrow> (DALI_OK, v, s2))" "holds bus view M s2"
    by (rule location_read [OF a 1(2)])
  obtain s3 where 3: "read_memory_location bus a b (l + 2) 0 s2 = (case M a b (l + 2) of
      None \<Rightarrow> (DALI_ERR_NO_RESPONSE, 0, s3) | Some v \<Rightarrow> (DALI_OK, v, s3))" "holds bus view M s3"
    by (rule location_read [OF a 2(2)])
  obtain s4 where 4: "read_memory_location bus a b (l + 3) 0 s3 = (case M a b (l + 3) of
      None \<Rightarrow> (DALI_ERR_NO_RESPONSE, 0, s4) | Some v \<Rightarrow> (DALI_OK, v, s4))" "holds bus view M s4"
    by (rule location_read [OF a 3(2)])
  show ?case
    using 1 2 3 4 by (cases "M a b l"; cases "M a b (l + 1)"; cases "M a b (l + 2)"; cases "M a b (l + 3)")
      (simp_all add: read_4_bytes_def location_value_4)
qed

lemmas reads_location = reads_1_byte reads_2_bytes reads_3_bytes reads_4_bytes

definition put_answer :: "(Controle_gear_values_t \<Rightarrow> 'v) \<Rightarrow> (('v \<Rightarrow> 'v) \<Rightarrow> Controle_gear_values_t \<Rightarrow> Controle_gear_values_t)
    \<Rightarrow> 'v option \<Rightarrow> Controle_gear_values_t \<Rightarrow> Controle_gear_values_t" where
  "put_answer get upd v gear = upd (\<lambda>_. answer_or (get gear) v) gear"

lemma fetch_field:
  assumes "reads bus view M rd v" and "holds bus view M (snd (snd x))"
  shows "fst (fetch_field rd msg get upd x) = put_answer get upd v (fst x)"
    and "fst (snd (fetch_field rd msg get upd x)) = fst (snd x) @
      (case msg of None \<Rightarrow> [] | Some m \<Rightarrow> if v = None then [(m, DALI_ERR_NO_RESPONSE)] else [])"
    and "holds bus view M (snd (snd (fetch_field rd msg get upd x)))"
  using assms by (auto simp: reads_def fetch_field_def put_answer_def split_beta split: option.splits)

text \<open>The structure, the log and the state of the link after some of the steps.\<close>

definition fetched ::
    "'w bus \<Rightarrow> ('w \<Rightarrow> memory_view) \<Rightarrow> (u8 \<Rightarrow> u8 \<Rightarrow> u8 \<Rightarrow> u8 option) \<Rightarrow> 'w fetching
     \<Rightarrow> Controle_gear_values_t \<Rightarrow> (string \<times> DALI_Status) list \<Rightarrow> bool" where
  "fetched bus view M x gear log \<longleftrightarrow> fst x = gear \<and> fst (snd x) = log \<and> holds bus view M (snd (snd x))"

lemma fetched_step:
  assumes "fetched bus view M x gear log" and "reads bus view M rd v"
  shows "fetched bus view M (fetch_field rd (Some m) get upd x) (put_answer get upd v gear)
      (log @ (if v = None then [(m, DALI_ERR_NO_RESPONSE)] else []))"
    and "fetched bus view M (fetch_field rd None get upd x) (put_answer get upd v gear) log"
  using fetch_field [OF assms(2)] assms(1) by (simp_all add: fetched_def)

lemma fetch_banks:
  assumes "a < 64" and "fetched bus view M x gear log"
  shows "fetched bus view M (fetch_bank_207 bus a (fetch_bank_206 bus a (fetch_bank_205 bus a x)))
    (gear_of_memory M a gear) (log @ log_of_memory M a)"
proof -
  note r = reads_location [OF assms(1), where bus = bus and view = view and M = M]
  have "\<exists>g l. fetched bus view M (fetch_bank_207 bus a (fetch_bank_206 bus a (fetch_bank_205 bus a x))) g l
    \<and> g = gear_of_memory M a gear \<and> l = log @ log_of_memory M a"
    apply (intro exI conjI)
    apply (simp only: fetch_bank_205_def fetch_bank_206_def fetch_bank_207_def Let_def)
    apply ((rule fetched_step r assms(2))+)
    apply (cases gear; simp add: put_answer_def gear_of_memory_def)
    apply (simp only: log_of_memory_def logged_fields_def missing_iff [symmetric] list.map concat.simps prod.case append.assoc append_Nil append_Nil2)
    done
  then show ?thesis by blast
qed
section \<open>Properties\<close>

lemma write_memory_location_idle:
  assumes "memory_bus bus view" and "idle_link s"
  shows "idle_link (snd (write_memory_location bus a b l v s))"
proof -
  define t where "t = select_memory_bank_location bus b l s"
  have t: "idle_link t"
    using select_memory_bank_location(1) [of bus view "memory (view (gears s))" s b l] assms
    by (auto simp: t_def holds_def)
  have "write_memory_location bus a b l v s = (let u = vTaskDelay bus (send (WRITE_MEMORY_LOCATION + ucast v) t)
      in if new_data_available u then (DALI_OK, clear_new_data_flag u) else (DALI_ERR_NO_RESPONSE, u))"
    by (simp add: write_memory_location_def Let_def wait_idle [OF assms(2)] wait_idle [OF t] flip: t_def)
  then show ?thesis
    using exchange(2,3,5) [OF t, of bus "WRITE_MEMORY_LOCATION + ucast v"] by (auto simp: Let_def)
qed

lemma fetch_unlock_holds:
  assumes "memory_bus bus view" and "idle_link s"
  shows "holds bus view (memory (view (gears (fetch_unlock bus a s)))) (fetch_unlock bus a s)"
proof -
  define t where "t = vTaskDelay bus (send 0x0181 (vTaskDelay bus (send 0x0181 s)))"
  have "idle_link t"
    unfolding t_def
    by (intro exchange_silent [where bus = bus] memory_bus_enable [OF assms(1)] assms(2))
  then have "idle_link (fetch_unlock bus a s)"
    unfolding fetch_unlock_def Let_def t_def [symmetric]
    by (rule write_memory_location_idle [OF assms(1)])
  then show ?thesis
    using assms(1) by (simp add: holds_def)
qed

text \<open>
  C24: Fetching a gear's data reads every one of its 39 values from the right bank and
  location, most significant byte first; a value with a byte that does not answer keeps
  what the uninitialised structure held, and each such failure is logged, except that of
  the last value.
\<close>

theorem fetched_values_are_memory_contents:
  fixes bus view s a
  defines "M \<equiv> memory (view (gears (fetch_unlock bus a s)))"
  assumes "memory_bus bus view" and "idle_link s" and "a < 64" and "length bytes = 8"
  shows "\<exists>s'. fetch_controle_gear_data bus bytes junk a s =
      (gear_of_memory M a (junk\<lparr>manufacturer_id := combine_bytes (map (\<lambda>p. answer_or (snd p) (M a 0 (fst p)))
         (zip manufactor_id_locations bytes)), gear_short_address := a\<rparr>), log_of_memory M a, s')
    \<and> holds bus view M s'"
proof -
  note h = fetch_unlock_holds [OF assms(2,3), of a, folded M_def]
  obtain ident t where ident: "read_manufactor_id bus bytes a (fetch_unlock bus a s) = (ident, t)"
    by (cases "read_manufactor_id bus bytes a (fetch_unlock bus a s)")
  note i = read_manufactor_id [OF h assms(4,5), unfolded ident fst_conv snd_conv]
  let ?x = "(junk\<lparr>manufacturer_id := ident, gear_short_address := a\<rparr>, [], t)"
  have "fetched bus view M ?x (fst ?x) []"
    using i(2) by (simp add: fetched_def)
  from fetch_banks [OF assms(4) this] i(1) show ?thesis
    unfolding fetch_controle_gear_data_def Let_def ident fetched_def
    by (cases "fetch_bank_207 bus a (fetch_bank_206 bus a (fetch_bank_205 bus a ?x))") auto
qed

definition blank_gear :: Controle_gear_values_t where
  "blank_gear = \<lparr>manufacturer_id = 0, gear_short_address = 0, operating_time = 0, start_counter = 0,
     external_supply_voltage = 0, external_supply_voltage_frequency = 0, power_factor = 0,
     overall_faliure_condition = 0, external_supply_undervoltage = 0,
     external_supply_undervoltage_counter = 0, external_supply_overvoltage = 0,
     external_supply_overvoltage_counter = 0, output_power_limitation = 0,
     output_power_limitation_counter = 0, thermal_derating = 0, thermal_derating_counter =
     0, thermal_shutdown = 0, thermal_shutdown_counter = 0, temperature = 0,
     output_current_percent = 0, light_source_start_counter_resettable = 0,
     light_source_start_counter = 0, light_source_on_time_resettable = 0,
     light_source_on_time = 0, light_source_voltage = 0, light_source_current = 0,
     light_source_overall_faliure_condition = 0,
     light_source_overall_faliure_condition_counter = 0, light_source_short_circuit = 0,
     light_source_short_circuit_counter = 0, light_source_open_circuit = 0,
     light_source_open_circuit_counter = 0, light_source_thermal_derating = 0,
     light_source_thermal_derating_counter = 0, light_source_thermal_shutdown = 0,
     light_source_thermal_shutdown_counter = 0, light_source_temperature = 0,
     rated_median_usefull_life_of_luminare = 0,
     internal_controle_gear_reference_temperature = 0,
     rated_median_usefull_light_source_starts = 0\<rparr>"

lemma bank_bus_memory [simp]:
  "memory (gears (vTaskDelay bank_bus s)) = memory (gears s)"
  "gears (send_DALI_Tx e f s) = gears s"
  by (simp_all add: vTaskDelay_def bank_bus_def send_DALI_Tx_def Let_def split: prod.split option.split)

lemma fetch_unlock_bank_memory: "memory (gears (fetch_unlock bank_bus a s)) = memory (gears s)"
  by (simp add: fetch_unlock_def write_memory_location_def select_memory_bank_location_def Let_def
      clear_new_data_flag_def)

lemma fetched_values_are_memory_contents_witness:
  "operating_time (fst (fetch_controle_gear_data bank_bus (replicate 8 0) blank_gear 9
      (bank_link (\<lambda>_ b l. if l = 0x0D then None else Some l)))) = 0x04050607
    \<and> external_supply_voltage_frequency (fst (fetch_controle_gear_data bank_bus (replicate 8 0)
      (blank_gear\<lparr>external_supply_voltage_frequency := 42\<rparr>) 9
      (bank_link (\<lambda>_ b l. if l = 0x0D then None else Some l)))) = 42"
proof -
  let ?M = "\<lambda>_ _ l :: u8. if l = 0x0D then None else Some l"
  have M: "memory (gears (fetch_unlock bank_bus 9 (bank_link ?M))) = ?M"
    by (simp add: fetch_unlock_bank_memory bank_link_def)
  have "(location_value ?M 9 MEMORY_BANK_205 OPERATING_TIME_MSB 4 :: u32 option) = Some 0x04050607"
    "(location_value ?M 9 MEMORY_BANK_205 EXTERNAL_SUPPLY_VOLTAGE_FREQUENZY 1 :: u8 option) = None"
    by (simp_all add: location_value_4 location_value_unfold(1) [unfolded One_nat_def] location_defs)
  then show ?thesis
    using fetched_values_are_memory_contents [OF memory_bus_bank holdsD(2) [OF holds_bank_link], where a = 9 and bytes = "replicate 8 0" and M1 = ?M and junk = blank_gear]
      fetched_values_are_memory_contents [OF memory_bus_bank holdsD(2) [OF holds_bank_link], where a = 9 and bytes = "replicate 8 0" and M1 = ?M and junk = "blank_gear\<lparr>external_supply_voltage_frequency := 42\<rparr>"]
    by (auto simp: M gear_of_memory_def)
qed

text \<open>A line that only records the frames it sees.\<close>

definition recorder :: "u16 list bus" where
  "recorder fs f = (fs @ [f], None)"

text \<open>
  Before reading a gear the code enables writing and unlocks bank 205, but the enabling
  command is always addressed to short address 0, whatever gear is to be read: the
  frames sent do not depend on the gear's address.
\<close>

theorem write_enable_is_sent_to_driver_0:
  assumes "idle_link s"
  shows "gears (fetch_unlock recorder a s) = gears s @ [0x0181, 0x0181, 0xA302, 0xC3CD, 0xC755]"
proof -
  have rec: "silent (recorder w f)" "fst (recorder w f) = w @ [f]" for w f
    by (simp_all add: recorder_def silent_def)
  have ex: "gears (vTaskDelay recorder (send f u)) = gears u @ [f]" "idle_link (vTaskDelay recorder (send f u))"
    if "idle_link u" for f u
    using exchange(1) [OF that] exchange_silent [OF that, where bus = recorder] rec by simp_all
  show ?thesis
    using assms
    by (simp add: fetch_unlock_def write_memory_location_def select_memory_bank_location_def Let_def ex
        DTR0_def DTR1_def WRITE_MEMORY_LOCATION_def LOCK_BYTE_def MEMORY_BANK_205_def)
qed

definition quiet_line :: "u16 list link" where
  "quiet_line = \<lparr>dataToTransmit = 0, timerOn = False, newDataFlag = False,
     rx_data_buffer = replicate 8 0, err = 0, rx_intr = True, tx_timer_running = False, gears = []\<rparr>"

lemma write_enable_is_sent_to_driver_0_witness:
  "gears (fetch_unlock recorder 17 quiet_line) = [0x0181, 0x0181, 0xA302, 0xC3CD, 0xC755]"
  by (subst write_enable_is_sent_to_driver_0) (simp_all add: idle_link_def quiet_line_def)

end
