(* ===== verification/Nvs_Handler.thy ===== *)
theory Nvs_Handler
  imports Dali_Memory_Bank CStrings
begin

text \<open>
  components/Nvs_handler: what the gateway keeps in flash. The key-value library of the
  platform is a record of its calls, on a state of its own; what the code relies on of it
  is \<open>nvs_store\<close>. Handles and malloc'ed blocks are counted, so that leaks can be stated.
  Variables a failed call leaves uninitialised are arguments. Log output is not modelled.
\<close>

section \<open>The flash library\<close>

definition ESP_ERR_NVS_NOT_FOUND :: esp_err where "ESP_ERR_NVS_NOT_FOUND = 0x1102"
definition ESP_ERR_NVS_NO_FREE_PAGES :: esp_err where "ESP_ERR_NVS_NO_FREE_PAGES = 0x110d"
definition ESP_ERR_NVS_NEW_VERSION_FOUND :: esp_err where "ESP_ERR_NVS_NEW_VERSION_FOUND = 0x1110"

record 'n nvs_ops =
  flash_init :: "'n \<Rightarrow> esp_err \<times> 'n"
  flash_erase :: "'n \<Rightarrow> esp_err \<times> 'n"
  drv_open :: "string \<Rightarrow> 'n \<Rightarrow> esp_err \<times> nat \<times> 'n"
  drv_close :: "nat \<Rightarrow> 'n \<Rightarrow> 'n"
  drv_commit :: "nat \<Rightarrow> 'n \<Rightarrow> esp_err \<times> 'n"
  drv_set_str :: "nat \<Rightarrow> string \<Rightarrow> string \<Rightarrow> 'n \<Rightarrow> esp_err \<times> 'n"
  drv_get_str :: "nat \<Rightarrow> string \<Rightarrow> nat \<Rightarrow> 'n \<Rightarrow> esp_err \<times> string \<times> 'n"
  drv_set_u8 :: "nat \<Rightarrow> string \<Rightarrow> u8 \<Rightarrow> 'n \<Rightarrow> esp_err \<times> 'n"
  drv_get_u8 :: "nat \<Rightarrow> string \<Rightarrow> 'n \<Rightarrow> esp_err \<times> u8 \<times> 'n"
  drv_set_u64 :: "nat \<Rightarrow> string \<Rightarrow> u64 \<Rightarrow> 'n \<Rightarrow> esp_err \<times> 'n"
  drv_get_u64 :: "nat \<Rightarrow> string \<Rightarrow> 'n \<Rightarrow> esp_err \<times> u64 \<times> 'n"
  drv_erase_key :: "nat \<Rightarrow> string \<Rightarrow> 'n \<Rightarrow> esp_err \<times> 'n"
  drv_used_entry_count :: "nat \<Rightarrow> 'n \<Rightarrow> esp_err \<times> nat \<times> 'n"

text \<open>The library's state and the number of blocks on the heap.\<close>

record 'n flash =
  drv :: 'n
  blocks :: nat

definition call :: "('n \<Rightarrow> 'r \<times> 'n) \<Rightarrow> 'n flash \<Rightarrow> 'r \<times> 'n flash" where
  "call f s = (let (r, n) = f (drv s) in (r, s\<lparr>drv := n\<rparr>))"

definition nvs_open :: "'n nvs_ops \<Rightarrow> nat \<Rightarrow> string \<Rightarrow> 'n flash \<Rightarrow> esp_err \<times> nat \<times> 'n flash" where
  "nvs_open ops junk namespace s =
     (let (e, h, n) = drv_open ops namespace (drv s)
      in (e, (if e = ESP_OK then h else junk), s\<lparr>drv := n\<rparr>))"

definition nvs_close :: "'n nvs_ops \<Rightarrow> nat \<Rightarrow> 'n flash \<Rightarrow> 'n flash" where
  "nvs_close ops h s = s\<lparr>drv := drv_close ops h (drv s)\<rparr>"

text \<open>A value read through a pointer: a failed call leaves the variable as it was.\<close>

definition nvs_get_u64 :: "'n nvs_ops \<Rightarrow> nat \<Rightarrow> string \<Rightarrow> u64 \<Rightarrow> 'n flash \<Rightarrow> esp_err \<times> u64 \<times> 'n flash" where
  "nvs_get_u64 ops h key v s =
     (let (e, x, n) = drv_get_u64 ops h key (drv s)
      in (e, (if e = ESP_OK then x else v), s\<lparr>drv := n\<rparr>))"

definition nvs_get_u8 :: "'n nvs_ops \<Rightarrow> nat \<Rightarrow> string \<Rightarrow> u8 \<Rightarrow> 'n flash \<Rightarrow> esp_err \<times> u8 \<times> 'n flash" where
  "nvs_get_u8 ops h key v s =
     (let (e, x, n) = drv_get_u8 ops h key (drv s)
      in (e, (if e = ESP_OK then x else v), s\<lparr>drv := n\<rparr>))"

definition nvs_get_str :: "'n nvs_ops \<Rightarrow> nat \<Rightarrow> string \<Rightarrow> nat \<Rightarrow> string \<Rightarrow> 'n flash \<Rightarrow> esp_err \<times> string \<times> 'n flash" where
  "nvs_get_str ops h key len v s =
     (let (e, x, n) = drv_get_str ops h key len (drv s)
      in (e, (if e = ESP_OK then x else v), s\<lparr>drv := n\<rparr>))"

section \<open>Operations\<close>

definition init_nvs_handler :: "'n nvs_ops \<Rightarrow> 'n flash \<Rightarrow> fault + 'n flash" where
  "init_nvs_handler ops s =
     (case call (flash_init ops) s of (ret, s) \<Rightarrow>
        if ret = ESP_ERR_NVS_NO_FREE_PAGES \<or> ret = ESP_ERR_NVS_NEW_VERSION_FOUND
        then (case call (flash_erase ops) s of (e, s) \<Rightarrow>
                if e \<noteq> ESP_OK then Inl Abort
                else case call (flash_init ops) s of (e, s) \<Rightarrow>
                  if e \<noteq> ESP_OK then Inl Abort else Inr s)
        else Inr s)"

definition nvs_set_string :: "'n nvs_ops \<Rightarrow> string \<Rightarrow> string \<Rightarrow> string \<Rightarrow> 'n flash \<Rightarrow> bool \<times> 'n flash" where
  "nvs_set_string ops namespace key val s =
     (case nvs_open ops 0 namespace s of (e, h, s) \<Rightarrow>
        if e \<noteq> ESP_OK then (False, s) else
      case call (drv_set_str ops h key val) s of (e, s) \<Rightarrow>
        if e \<noteq> ESP_OK then (False, nvs_close ops h s) else
      case call (drv_commit ops h) s of (e, s) \<Rightarrow>
        if e \<noteq> ESP_OK then (False, nvs_close ops h s)
        else (True, nvs_close ops h s))"

text \<open>
  \<open>malloc_ok\<close> says whether the buffer (which is never used) could be allocated;
  \<open>return_value\<close> is what the caller's buffer holds before the call.
\<close>

definition nvs_get_string ::
    "'n nvs_ops \<Rightarrow> bool \<Rightarrow> string \<Rightarrow> string \<Rightarrow> string \<Rightarrow> 'n flash \<Rightarrow> bool \<times> string \<times> 'n flash" where
  "nvs_get_string ops malloc_ok namespace key return_value s =
     (case nvs_open ops 0 namespace s of (e, h, s) \<Rightarrow>
        if e \<noteq> ESP_OK then (False, return_value, s) else
        if \<not> malloc_ok then (False, return_value, nvs_close ops h s) else
        let s = s\<lparr>blocks := blocks s + 1\<rparr> in
      case nvs_get_str ops h key 512 return_value s of (e, return_value, s) \<Rightarrow>
        if e \<noteq> ESP_OK then (False, return_value, nvs_close ops h s)
        else (True, return_value, s))"

definition nvs_write_uint8 :: "'n nvs_ops \<Rightarrow> string \<Rightarrow> u8 \<Rightarrow> 'n flash \<Rightarrow> 'n flash" where
  "nvs_write_uint8 ops key val s =
     (case nvs_open ops 0 ''storage'' s of (e, h, s) \<Rightarrow>
        if e \<noteq> ESP_OK then s else
      case call (drv_set_u8 ops h key val) s of (e, s) \<Rightarrow>
      case call (drv_commit ops h) s of (e, s) \<Rightarrow>
        nvs_close ops h s)"

definition nvs_read_uint8 :: "'n nvs_ops \<Rightarrow> nat \<Rightarrow> u8 \<Rightarrow> string \<Rightarrow> 'n flash \<Rightarrow> u8 \<times> 'n flash" where
  "nvs_read_uint8 ops junk_handle junk key s =
     (case nvs_open ops junk_handle ''storage'' s of (e, h, s) \<Rightarrow>
      case nvs_get_u8 ops h key junk s of (e, val, s) \<Rightarrow>
        (val, nvs_close ops h s))"

text \<open>Writing and reading a 64-bit value in a namespace: four functions of the source.\<close>

definition write_u64 :: "'n nvs_ops \<Rightarrow> string \<Rightarrow> string \<Rightarrow> u64 \<Rightarrow> 'n flash \<Rightarrow> 'n flash" where
  "write_u64 ops namespace key val s =
     (case nvs_open ops 0 namespace s of (e, h, s) \<Rightarrow>
        if e \<noteq> ESP_OK then s else
      case call (drv_set_u64 ops h key val) s of (e, s) \<Rightarrow>
      case call (drv_commit ops h) s of (e, s) \<Rightarrow>
        nvs_close ops h s)"

definition read_u64 :: "'n nvs_ops \<Rightarrow> nat \<Rightarrow> u64 \<Rightarrow> string \<Rightarrow> string \<Rightarrow> 'n flash \<Rightarrow> u64 \<times> 'n flash" where
  "read_u64 ops junk_handle junk namespace key s =
     (case nvs_open ops junk_handle namespace s of (e, h, s) \<Rightarrow>
      case nvs_get_u64 ops h key junk s of (e, val, s) \<Rightarrow>
        (val, nvs_close ops h s))"

definition nvs_write_uint64 :: "'n nvs_ops \<Rightarrow> string \<Rightarrow> u64 \<Rightarrow> 'n flash \<Rightarrow> 'n flash" where
  "nvs_write_uint64 ops = write_u64 ops ''storage''"

definition nvs_read_uint64 :: "'n nvs_ops \<Rightarrow> nat \<Rightarrow> u64 \<Rightarrow> string \<Rightarrow> 'n flash \<Rightarrow> u64 \<times> 'n flash" where
  "nvs_read_uint64 ops jh jv = read_u64 ops jh jv ''storage''"

definition nvs_write_manufactoring_id :: "'n nvs_ops \<Rightarrow> string \<Rightarrow> u64 \<Rightarrow> 'n flash \<Rightarrow> 'n flash" where
  "nvs_write_manufactoring_id ops = write_u64 ops ''manu_id''"

definition nvs_read_manufactoring_id :: "'n nvs_ops \<Rightarrow> nat \<Rightarrow> u64 \<Rightarrow> string \<Rightarrow> 'n flash \<Rightarrow> u64 \<times> 'n flash" where
  "nvs_read_manufactoring_id ops jh jv = read_u64 ops jh jv ''manu_id''"

definition nvs_delete_key_value_pair :: "'n nvs_ops \<Rightarrow> string \<Rightarrow> string \<Rightarrow> 'n flash \<Rightarrow> 'n flash" where
  "nvs_delete_key_value_pair ops namespace key s =
     (case nvs_open ops 0 namespace s of (e, h, s) \<Rightarrow>
        if e \<noteq> ESP_OK then s else
      case call (drv_erase_key ops h key) s of (e, s) \<Rightarrow>
      case call (drv_commit ops h) s of (e, s) \<Rightarrow>
        nvs_close ops h s)"

definition getNumKeysInNamespace :: "'n nvs_ops \<Rightarrow> string \<Rightarrow> nat \<Rightarrow> 'n flash \<Rightarrow> esp_err \<times> nat \<times> 'n flash" where
  "getNumKeysInNamespace ops namespace num_keys s =
     (case nvs_open ops 0 namespace s of (e, h, s) \<Rightarrow>
        if e \<noteq> ESP_OK then (e, num_keys, s) else
      case call (\<lambda>n. case drv_used_entry_count ops h n of (e, c, n) \<Rightarrow> ((e, c), n)) s of ((e, c), s) \<Rightarrow>
        if e \<noteq> ESP_OK then (e, num_keys, nvs_close ops h s)
        else (ESP_OK, c, nvs_close ops h s))"

definition authenticated :: "'n nvs_ops \<Rightarrow> 'n flash \<Rightarrow> bool \<times> 'n flash" where
  "authenticated ops s =
     (case nvs_open ops 0 ''authentication'' s of (e, h, s) \<Rightarrow>
        if e \<noteq> ESP_OK then (False, s) else
      case nvs_get_str ops h ''refresh_token'' 512 [] s of (e, _, s) \<Rightarrow>
        if e = ESP_ERR_NVS_NOT_FOUND then (False, s)
        else if e \<noteq> ESP_OK then (False, s)
        else (True, s))"

text \<open>
  The key is the address i itself, cast from an integer; \<open>string_at\<close> is what the library
  would read there. The results go to consecutive entries of the caller's array.
\<close>

primrec control_gears_loop ::
    "'n nvs_ops \<Rightarrow> nat \<Rightarrow> u64 \<Rightarrow> (nat \<Rightarrow> string) \<Rightarrow> nat list \<Rightarrow> u64 list \<Rightarrow> nat \<Rightarrow> 'n flash
     \<Rightarrow> fault + u64 list \<times> nat \<times> 'n flash" where
  "control_gears_loop ops jh jv string_at [] ids num s = Inr (ids, num, s)"
| "control_gears_loop ops jh jv string_at (i # is) ids num s =
     (let (ident, s) = nvs_read_manufactoring_id ops jh jv (string_at i) s
      in if ident \<noteq> 0
         then (case array_update num (\<lambda>_. ident) ids of
                 Inl f \<Rightarrow> Inl f
               | Inr ids \<Rightarrow> control_gears_loop ops jh jv string_at is ids (num + 1) s)
         else control_gears_loop ops jh jv string_at is ids num s)"

definition nvs_get_control_gears ::
    "'n nvs_ops \<Rightarrow> nat \<Rightarrow> u64 \<Rightarrow> (nat \<Rightarrow> string) \<Rightarrow> (u64 list \<times> nat) option \<Rightarrow> nat \<Rightarrow> 'n flash
     \<Rightarrow> fault + (u64 list \<times> nat) option \<times> 'n flash" where
  "nvs_get_control_gears ops jh jv string_at out max_ids s =
     (case out of
        None \<Rightarrow> Inr (None, s)
      | Some (ids, num) \<Rightarrow>
          (case control_gears_loop ops jh jv string_at [0..<max_ids] ids num s of
             Inl f \<Rightarrow> Inl f
           | Inr (ids, num, s) \<Rightarrow> Inr (Some (ids, num), s)))"

subsection \<open>Listing the stored ids\<close>

definition CSV_SIZE :: nat where "CSV_SIZE = 1024"

text \<open>
  The loop over the keys: \<open>snprintf\<close> appends as much as fits and returns the full length,
  which the code then compares with the room left \<^emph>\<open>after\<close> writing.
\<close>

primrec csv_loop ::
    "'n nvs_ops \<Rightarrow> nat \<Rightarrow> u64 \<Rightarrow> nat list \<Rightarrow> string \<Rightarrow> 'n flash \<Rightarrow> string option \<times> 'n flash" where
  "csv_loop ops jh jv [] csv s = (Some csv, s)"
| "csv_loop ops jh jv (i # is) csv s =
     (let key = dec i;
          (val, s) = nvs_read_manufactoring_id ops jh jv key s
      in if val \<noteq> 0
         then let entry = key @ '':'' @ dec (unat val) @ '','';
                  csv = csv @ take (CSV_SIZE - length csv - 1) entry
              in if length entry \<ge> CSV_SIZE - length csv then (None, s)
                 else csv_loop ops jh jv is csv s
         else csv_loop ops jh jv is csv s)"

definition nvs_read_all_manufactoring_ids ::
    "'n nvs_ops \<Rightarrow> bool \<Rightarrow> nat \<Rightarrow> u64 \<Rightarrow> u8 \<Rightarrow> 'n flash \<Rightarrow> string option \<times> 'n flash" where
  "nvs_read_all_manufactoring_ids ops malloc_ok jh jv count s =
     (case nvs_open ops 0 ''manu_id'' s of (e, h, s) \<Rightarrow>
        if e \<noteq> ESP_OK then (None, s) else
        if \<not> malloc_ok then (None, nvs_close ops h s) else
        let s = s\<lparr>blocks := blocks s + 1\<rparr> in
      case csv_loop ops jh jv [0..<unat count] [] s of
        (None, s) \<Rightarrow> (None, nvs_close ops h (s\<lparr>blocks := blocks s - 1\<rparr>))
      | (Some csv, s) \<Rightarrow>
          let s = nvs_close ops h s
          in (Some (if length csv > 0 then butlast csv else csv), s))"

text \<open>
  The array of rows of ten characters is one block of memory; a row is written with up to
  21 characters, so a long id runs into the rows behind it.
\<close>

definition ROW :: nat where "ROW = 10"

definition write_at :: "nat \<Rightarrow> char list \<Rightarrow> char list \<Rightarrow> fault + char list" where
  "write_at off cs buf =
     (if off + length cs \<le> length buf
      then Inr (take off buf @ cs @ drop (off + length cs) buf) else Inl Out_of_bounds)"

primrec ids_array_loop ::
    "'n nvs_ops \<Rightarrow> nat \<Rightarrow> u64 \<Rightarrow> nat list \<Rightarrow> nat \<Rightarrow> char list \<Rightarrow> nat \<Rightarrow> 'n flash
     \<Rightarrow> fault + char list \<times> nat \<times> 'n flash" where
  "ids_array_loop ops jh jv [] max_ids buf num s = Inr (buf, num, s)"
| "ids_array_loop ops jh jv (i # is) max_ids buf num s =
     (let (val, s) = nvs_read_manufactoring_id ops jh jv (dec i) s
      in if val \<noteq> 0
         then if num < max_ids
              then (case write_at (ROW * num) (take 20 (dec (unat val)) @ [NUL]) buf of
                      Inl f \<Rightarrow> Inl f
                    | Inr buf \<Rightarrow> ids_array_loop ops jh jv is max_ids buf (num + 1) s)
              else Inr (buf, num, s)
         else ids_array_loop ops jh jv is max_ids buf num s)"

definition nvs_read_all_manufactoring_ids_array ::
    "'n nvs_ops \<Rightarrow> nat \<Rightarrow> u64 \<Rightarrow> u8 \<Rightarrow> char list \<Rightarrow> nat \<Rightarrow> 'n flash \<Rightarrow> fault + char list \<times> nat \<times> 'n flash" where
  "nvs_read_all_manufactoring_ids_array ops jh jv count buf max_ids s =
     (case nvs_open ops 0 ''manu_id'' s of (e, h, s) \<Rightarrow>
        if e \<noteq> ESP_OK then Inr (buf, 0, s) else
      case ids_array_loop ops jh jv [0..<unat count] max_ids buf 0 s of
        Inl f \<Rightarrow> Inl f
      | Inr (buf, num, s) \<Rightarrow> Inr (buf, num, nvs_close ops h s))"

subsection \<open>Synchronising with the bus\<close>

text \<open>
  The three loops of \<open>nvs_synchronize\<close>, over the device indices. \<open>bytes\<close> and \<open>jv\<close> are the
  uninitialised bytes of the id reads and the uninitialised value variable. A status is
  a failed store, which returns from the function.
\<close>

definition nth_device :: "nat \<Rightarrow> Device_t list \<Rightarrow> fault + Device_t" where
  "nth_device i ds = (if i < length ds then Inr (ds ! i) else Inl Out_of_bounds)"

primrec sync_store_loop ::
    "'n nvs_ops \<Rightarrow> 'w bus \<Rightarrow> u8 list \<Rightarrow> nat \<Rightarrow> nat list \<Rightarrow> Device_t list \<Rightarrow> 'n flash \<Rightarrow> 'w link
     \<Rightarrow> fault + bool \<times> Device_t list \<times> 'n flash \<times> 'w link" where
  "sync_store_loop ops bus bytes h [] ds s l = Inr (True, ds, s, l)"
| "sync_store_loop ops bus bytes h (i # is) ds s l =
     (case nth_device i ds of
        Inl f \<Rightarrow> Inl f
      | Inr d \<Rightarrow>
          (case read_manufactor_id bus bytes (short_address d) l of (ident, l) \<Rightarrow>
           case call (drv_set_u64 ops h (dec i) ident) s of (e, s) \<Rightarrow>
             if e \<noteq> ESP_OK then Inr (False, ds, nvs_close ops h s, l)
             else sync_store_loop ops bus bytes h is (ds[i := d\<lparr>manufactoring_id := ident\<rparr>]) s l))"

primrec sync_find_loop ::
    "'w bus \<Rightarrow> u8 list \<Rightarrow> u64 \<Rightarrow> nat list \<Rightarrow> Device_t list \<Rightarrow> 'w link \<Rightarrow> fault + bool \<times> 'w link" where
  "sync_find_loop bus bytes val [] ds l = Inr (False, l)"
| "sync_find_loop bus bytes val (j # js) ds l =
     (case nth_device j ds of
        Inl f \<Rightarrow> Inl f
      | Inr d \<Rightarrow>
          (case read_manufactor_id bus bytes (short_address d) l of (ident, l) \<Rightarrow>
             if val = ident then Inr (True, l) else sync_find_loop bus bytes val js ds l))"

primrec sync_check_loop ::
    "'n nvs_ops \<Rightarrow> 'w bus \<Rightarrow> u8 list \<Rightarrow> u64 \<Rightarrow> nat \<Rightarrow> nat \<Rightarrow> nat list \<Rightarrow> Device_t list \<Rightarrow> 'n flash \<Rightarrow> 'w link
     \<Rightarrow> fault + Device_t list \<times> 'n flash \<times> 'w link" where
  "sync_check_loop ops bus bytes jv h n [] ds s l = Inr (ds, s, l)"
| "sync_check_loop ops bus bytes jv h n (i # is) ds s l =
     (case nvs_get_u64 ops h (dec i) jv s of (e, val, s) \<Rightarrow>
        if e = ESP_ERR_NVS_NOT_FOUND then sync_check_loop ops bus bytes jv h n is ds s l
        else if e \<noteq> ESP_OK then sync_check_loop ops bus bytes jv h n is ds s l
        else (case sync_find_loop bus bytes val [0..<n] ds l of
                Inl f \<Rightarrow> Inl f
              | Inr (found, l) \<Rightarrow>
                  if found
                  then (case array_update i (\<lambda>d. d\<lparr>manufactoring_id := val\<rparr>) ds of
                          Inl f \<Rightarrow> Inl f
                        | Inr ds \<Rightarrow> sync_check_loop ops bus bytes jv h n is ds s l)
                  else sync_check_loop ops bus bytes jv h n is ds s l))"

definition nvs_synchronize ::
    "'n nvs_ops \<Rightarrow> 'w bus \<Rightarrow> u8 list \<Rightarrow> u64 \<Rightarrow> u8 \<Rightarrow> Device_t list \<Rightarrow> 'n flash \<Rightarrow> 'w link
     \<Rightarrow> fault + bool \<times> Device_t list \<times> 'n flash \<times> 'w link" where
  "nvs_synchronize ops bus bytes jv n ds s l =
     (case nvs_open ops 0 ''manu_id'' s of (e, h, s) \<Rightarrow>
        if e \<noteq> ESP_OK then Inr (False, ds, s, l) else
      case call (\<lambda>d. case drv_used_entry_count ops h d of (e, c, d) \<Rightarrow> ((e, c), d)) s of ((e, count), s) \<Rightarrow>
        if e \<noteq> ESP_OK then Inr (False, ds, nvs_close ops h s, l) else
        if count = 0
        then (case sync_store_loop ops bus bytes h [0..<unat n] ds s l of
                Inl f \<Rightarrow> Inl f
              | Inr (ok, ds, s, l) \<Rightarrow>
                  if \<not> ok then Inr (False, ds, s, l)
                  else case call (drv_commit ops h) s of (e, s) \<Rightarrow> Inr (True, ds, s, l))
        else if count \<noteq> unat n then Inr (False, ds, nvs_close ops h s, l)
        else (case sync_check_loop ops bus bytes jv h (unat n) [0..<unat n] ds s l of
                Inl f \<Rightarrow> Inl f
              | Inr (ds, s, l) \<Rightarrow> Inr (True, ds, nvs_close ops h (nvs_close ops h s), l)))"

section \<open>The library's contract\<close>

datatype nvs_value = Str string | U64 u64 | U8 u8

record nvs_view =
  entries :: "string \<Rightarrow> string \<Rightarrow> nvs_value option"   \<comment> \<open>by namespace and key\<close>
  handles :: "nat \<Rightarrow> string option"                     \<comment> \<open>the open handles\<close>

definition put_entry :: "string \<Rightarrow> string \<Rightarrow> nvs_value option \<Rightarrow> nvs_view \<Rightarrow> nvs_view" where
  "put_entry ns k v w = w\<lparr>entries := (entries w)(ns := (entries w ns)(k := v))\<rparr>"

text \<open>
  What the code relies on of the library: opening gives a fresh handle; through a handle
  values are stored, found and erased under keys of at most 15 characters in the handle's
  namespace; a string is returned when it fits; the entry count of a namespace is 0
  exactly when it is empty, and the number of keys while it only holds integers.
\<close>

definition through_handle :: "'n nvs_ops \<Rightarrow> ('n \<Rightarrow> nvs_view) \<Rightarrow> 'n \<Rightarrow> nat \<Rightarrow> string \<Rightarrow> bool" where
  "through_handle ops view n h ns \<longleftrightarrow>
     (\<exists>n'. drv_commit ops h n = (0, n') \<and> view n' = view n) \<and>
     (\<forall>k v. length k \<le> 15 \<longrightarrow> (\<exists>n'. drv_set_str ops h k v n = (0, n') \<and> view n' = put_entry ns k (Some (Str v)) (view n))) \<and>
     (\<forall>k v. length k \<le> 15 \<longrightarrow> (\<exists>n'. drv_set_u64 ops h k v n = (0, n') \<and> view n' = put_entry ns k (Some (U64 v)) (view n))) \<and>
     (\<forall>k len. \<exists>n'. view n' = view n \<and> drv_get_str ops h k len n =
        (case entries (view n) ns k of
           Some (Str v) \<Rightarrow> if length v < len then (0, v, n') else (0x110c, [], n')
         | _ \<Rightarrow> (ESP_ERR_NVS_NOT_FOUND, [], n'))) \<and>
     (\<forall>k. \<exists>n'. view n' = view n \<and> drv_get_u64 ops h k n =
        (case entries (view n) ns k of Some (U64 v) \<Rightarrow> (0, v, n') | _ \<Rightarrow> (ESP_ERR_NVS_NOT_FOUND, 0, n'))) \<and>
     (\<forall>k. entries (view n) ns k \<noteq> None \<longrightarrow>
        (\<exists>n'. drv_erase_key ops h k n = (0, n') \<and> view n' = put_entry ns k None (view n))) \<and>
     (\<exists>c n'. drv_used_entry_count ops h n = (0, c, n') \<and> view n' = view n \<and>
        (c = 0 \<longleftrightarrow> entries (view n) ns = Map.empty) \<and>
        ((\<forall>k v. entries (view n) ns k = Some v \<longrightarrow> (\<exists>x. v = U64 x)) \<longrightarrow> c = card (dom (entries (view n) ns))))"

definition nvs_store :: "'n nvs_ops \<Rightarrow> ('n \<Rightarrow> nvs_view) \<Rightarrow> bool" where
  "nvs_store ops view \<longleftrightarrow> (\<forall>n.
     (\<forall>ns. length ns \<le> 15 \<longrightarrow> (\<exists>h n'. drv_open ops ns n = (0, h, n') \<and> handles (view n) h = None \<and>
        view n' = (view n)\<lparr>handles := (handles (view n))(h \<mapsto> ns)\<rparr>)) \<and>
     (\<forall>h. view (drv_close ops h n) = (view n)\<lparr>handles := (handles (view n))(h := None)\<rparr>) \<and>
     (\<forall>h ns. handles (view n) h = Some ns \<longrightarrow> through_handle ops view n h ns))"

lemma through_handleD:
  assumes "through_handle ops view n h ns"
  shows "\<exists>n'. drv_commit ops h n = (0, n') \<and> view n' = view n"
    and "length k \<le> 15 \<Longrightarrow> \<exists>n'. drv_set_str ops h k v n = (0, n') \<and> view n' = put_entry ns k (Some (Str v)) (view n)"
    and "length k \<le> 15 \<Longrightarrow> \<exists>n'. drv_set_u64 ops h k x n = (0, n') \<and> view n' = put_entry ns k (Some (U64 x)) (view n)"
    and "\<exists>n'. view n' = view n \<and> drv_get_str ops h k len n =
        (case entries (view n) ns k of
           Some (Str v) \<Rightarrow> if length v < len then (0, v, n') else (0x110c, [], n')
         | _ \<Rightarrow> (ESP_ERR_NVS_NOT_FOUND, [], n'))"
    and "\<exists>n'. view n' = view n \<and> drv_get_u64 ops h k n =
        (case entries (view n) ns k of Some (U64 v) \<Rightarrow> (0, v, n') | _ \<Rightarrow> (ESP_ERR_NVS_NOT_FOUND, 0, n'))"
    and "entries (view n) ns k \<noteq> None \<Longrightarrow>
        \<exists>n'. drv_erase_key ops h k n = (0, n') \<and> view n' = put_entry ns k None (view n)"
    and "\<exists>c n'. drv_used_entry_count ops h n = (0, c, n') \<and> view n' = view n \<and>
        (c = 0 \<longleftrightarrow> entries (view n) ns = Map.empty) \<and>
        ((\<forall>k v. entries (view n) ns k = Some v \<longrightarrow> (\<exists>x. v = U64 x)) \<longrightarrow> c = card (dom (entries (view n) ns)))"
  using assms unfolding through_handle_def by (elim conjE; (assumption | simp only: not_None_eq | erule allE)+)+

lemma nvs_openD:
  assumes "nvs_store ops view" and "length ns \<le> 15"
  obtains h n' where "nvs_open ops j ns s = (0, h, s\<lparr>drv := n'\<rparr>)" and "handles (view (drv s)) h = None"
    and "view n' = (view (drv s))\<lparr>handles := (handles (view (drv s)))(h \<mapsto> ns)\<rparr>"
proof -
  have "\<exists>h n'. drv_open ops ns (drv s) = (0, h, n') \<and> handles (view (drv s)) h = None \<and>
      view n' = (view (drv s))\<lparr>handles := (handles (view (drv s)))(h \<mapsto> ns)\<rparr>"
    using assms unfolding nvs_store_def by blast
  then obtain h n' where "drv_open ops ns (drv s) = (0, h, n')" "handles (view (drv s)) h = None"
    "view n' = (view (drv s))\<lparr>handles := (handles (view (drv s)))(h \<mapsto> ns)\<rparr>"
    by blast
  then show thesis by (intro that [of h n']) (simp_all add: nvs_open_def)
qed

lemma blocks_nvs_close [simp]: "blocks (nvs_close ops h s) = blocks s"
  by (simp add: nvs_close_def)

lemma nvs_closeD:
  "nvs_store ops view \<Longrightarrow>
    view (drv (nvs_close ops h s)) = (view (drv s))\<lparr>handles := (handles (view (drv s)))(h := None)\<rparr>"
  unfolding nvs_store_def nvs_close_def by simp_all

text \<open>The calls through an open handle.\<close>

lemma nvs_callD:
  assumes "nvs_store ops view" and "handles (view (drv s)) h = Some ns"
  shows nvs_commitD: "\<exists>n'. call (drv_commit ops h) s = (0, s\<lparr>drv := n'\<rparr>) \<and> view n' = view (drv s)"
    and nvs_set_strD: "length k \<le> 15 \<Longrightarrow> \<exists>n'. call (drv_set_str ops h k v) s = (0, s\<lparr>drv := n'\<rparr>)
      \<and> view n' = put_entry ns k (Some (Str v)) (view (drv s))"
    and nvs_set_u64D: "length k \<le> 15 \<Longrightarrow> \<exists>n'. call (drv_set_u64 ops h k x) s = (0, s\<lparr>drv := n'\<rparr>)
      \<and> view n' = put_entry ns k (Some (U64 x)) (view (drv s))"
    and nvs_get_strD: "\<exists>n'. view n' = view (drv s) \<and> (case entries (view (drv s)) ns k of
        Some (Str u) \<Rightarrow> length u < len \<longrightarrow> nvs_get_str ops h k len v s = (0, u, s\<lparr>drv := n'\<rparr>)
      | _ \<Rightarrow> nvs_get_str ops h k len v s = (ESP_ERR_NVS_NOT_FOUND, v, s\<lparr>drv := n'\<rparr>))"
    and nvs_get_u64D: "\<exists>n'. view n' = view (drv s) \<and> nvs_get_u64 ops h k x s =
      (case entries (view (drv s)) ns k of
        Some (U64 u) \<Rightarrow> (0, u, s\<lparr>drv := n'\<rparr>) | _ \<Rightarrow> (ESP_ERR_NVS_NOT_FOUND, x, s\<lparr>drv := n'\<rparr>))"
    and nvs_countD: "\<exists>c n'. call (\<lambda>d. case drv_used_entry_count ops h d of (e, c, d) \<Rightarrow> ((e, c), d)) s = ((0, c), s\<lparr>drv := n'\<rparr>)
      \<and> view n' = view (drv s) \<and> (c = 0 \<longleftrightarrow> entries (view (drv s)) ns = Map.empty) \<and>
      ((\<forall>k v. entries (view (drv s)) ns k = Some v \<longrightarrow> (\<exists>x. v = U64 x)) \<longrightarrow> c = card (dom (entries (view (drv s)) ns)))"
proof -
  have "through_handle ops view (drv s) h ns"
    using assms unfolding nvs_store_def by blast
  note law = through_handleD [OF this]
  show "\<exists>n'. call (drv_commit ops h) s = (0, s\<lparr>drv := n'\<rparr>) \<and> view n' = view (drv s)"
    using law(1) by (auto simp: call_def)
  show "\<exists>n'. call (drv_set_str ops h k v) s = (0, s\<lparr>drv := n'\<rparr>)
      \<and> view n' = put_entry ns k (Some (Str v)) (view (drv s))" if "length k \<le> 15"
    using law(2) [OF that, of v] by (auto simp: call_def)
  show "\<exists>n'. call (drv_set_u64 ops h k x) s = (0, s\<lparr>drv := n'\<rparr>)
      \<and> view n' = put_entry ns k (Some (U64 x)) (view (drv s))" if "length k \<le> 15"
    using law(3) [OF that, of x] by (auto simp: call_def)
  obtain n1 where "view n1 = view (drv s)" "drv_get_str ops h k len (drv s) =
    (case entries (view (drv s)) ns k of
      Some (Str v) \<Rightarrow> if length v < len then (0, v, n1) else (0x110c, [], n1)
    | _ \<Rightarrow> (ESP_ERR_NVS_NOT_FOUND, [], n1))"
    using law(4) [of k len] by blast
  then show "\<exists>n'. view n' = view (drv s) \<and> (case entries (view (drv s)) ns k of
        Some (Str u) \<Rightarrow> length u < len \<longrightarrow> nvs_get_str ops h k len v s = (0, u, s\<lparr>drv := n'\<rparr>)
      | _ \<Rightarrow> nvs_get_str ops h k len v s = (ESP_ERR_NVS_NOT_FOUND, v, s\<lparr>drv := n'\<rparr>))"
    by (intro exI [of _ n1]) (auto simp: nvs_get_str_def ESP_ERR_NVS_NOT_FOUND_def split: option.split nvs_value.split)
  obtain n2 where "view n2 = view (drv s)" "drv_get_u64 ops h k (drv s) =
    (case entries (view (drv s)) ns k of Some (U64 v) \<Rightarrow> (0, v, n2) | _ \<Rightarrow> (ESP_ERR_NVS_NOT_FOUND, 0, n2))"
    using law(5) [of k] by blast
  then show "\<exists>n'. view n' = view (drv s) \<and> nvs_get_u64 ops h k x s =
      (case entries (view (drv s)) ns k of
        Some (U64 u) \<Rightarrow> (0, u, s\<lparr>drv := n'\<rparr>) | _ \<Rightarrow> (ESP_ERR_NVS_NOT_FOUND, x, s\<lparr>drv := n'\<rparr>))"
    by (intro exI [of _ n2]) (auto simp: nvs_get_u64_def ESP_ERR_NVS_NOT_FOUND_def split: option.split nvs_value.split)
  obtain c n3 where "drv_used_entry_count ops h (drv s) = (0, c, n3)" "view n3 = view (drv s)"
    "c = 0 \<longleftrightarrow> entries (view (drv s)) ns = Map.empty"
    "(\<forall>k v. entries (view (drv s)) ns k = Some v \<longrightarrow> (\<exists>x. v = U64 x)) \<longrightarrow> c = card (dom (entries (view (drv s)) ns))"
    using law(7) by (elim exE conjE) (rule that)
  then show "\<exists>c n'. call (\<lambda>d. case drv_used_entry_count ops h d of (e, c, d) \<Rightarrow> ((e, c), d)) s = ((0, c), s\<lparr>drv := n'\<rparr>)
      \<and> view n' = view (drv s) \<and> (c = 0 \<longleftrightarrow> entries (view (drv s)) ns = Map.empty) \<and>
      ((\<forall>k v. entries (view (drv s)) ns k = Some v \<longrightarrow> (\<exists>x. v = U64 x)) \<longrightarrow> c = card (dom (entries (view (drv s)) ns)))"
    by (intro exI [of _ c] exI [of _ n3]) (simp add: call_def)
qed

lemma put_entry_simps [simp]:
  "handles (put_entry ns k v w) = handles w"
  "entries (put_entry ns k v w) ns' k' = (if ns' = ns \<and> k' = k then v else entries w ns' k')"
  by (auto simp: put_entry_def)

text \<open>Closing the fresh handle restores the handles.\<close>

lemma handles_restored [simp]:
  assumes "handles w h = None"
  shows "w\<lparr>handles := (handles w)(h := None)\<rparr> = w"
    and "w\<lparr>entries := e, handles := (handles w)(h := None)\<rparr> = w\<lparr>entries := e\<rparr>"
proof -
  have "(handles w)(h := None) = handles w"
    using assms by (simp add: fun_upd_idem)
  then show "w\<lparr>handles := (handles w)(h := None)\<rparr> = w"
    "w\<lparr>entries := e, handles := (handles w)(h := None)\<rparr> = w\<lparr>entries := e\<rparr>"
    by simp_all
qed

lemma nvs_set_string_store:
  assumes "nvs_store ops view" and "length ns \<le> 15" and "length k \<le> 15"
  shows "\<exists>s'. nvs_set_string ops ns k v s = (True, s') \<and>
    view (drv s') = put_entry ns k (Some (Str v)) (view (drv s)) \<and> blocks s' = blocks s"
proof -
  obtain h n1 where o: "nvs_open ops 0 ns s = (0, h, s\<lparr>drv := n1\<rparr>)" "handles (view (drv s)) h = None"
    "view n1 = (view (drv s))\<lparr>handles := (handles (view (drv s)))(h \<mapsto> ns)\<rparr>"
    by (rule nvs_openD [OF assms(1,2)])
  let ?s1 = "s\<lparr>drv := n1\<rparr>"
  have h1: "handles (view (drv ?s1)) h = Some ns" by (simp add: o)
  obtain n2 where s: "call (drv_set_str ops h k v) ?s1 = (0, s\<lparr>drv := n2\<rparr>)"
    "view n2 = put_entry ns k (Some (Str v)) (view n1)"
    using nvs_set_strD [OF assms(1) h1 assms(3), of v] by auto
  have "handles (view (drv (s\<lparr>drv := n2\<rparr>))) h = Some ns" by (simp add: s o)
  from nvs_commitD [OF assms(1) this] obtain n3 where
    c: "call (drv_commit ops h) (s\<lparr>drv := n2\<rparr>) = (0, s\<lparr>drv := n3\<rparr>)" "view n3 = view n2"
    by auto
  show ?thesis
    by (intro exI [of _ "nvs_close ops h (s\<lparr>drv := n3\<rparr>)"])
      (simp add: nvs_set_string_def o s c nvs_closeD [OF assms(1)] put_entry_def)
qed

lemma nvs_get_string_store:
  assumes "nvs_store ops view" and "length ns \<le> 15"
  shows "case entries (view (drv s)) ns k of
      Some (Str u) \<Rightarrow> length u < 512 \<longrightarrow> (\<exists>s' h. nvs_get_string ops True ns k v s = (True, u, s') \<and>
        handles (view (drv s)) h = None \<and>
        view (drv s') = (view (drv s))\<lparr>handles := (handles (view (drv s)))(h \<mapsto> ns)\<rparr> \<and> blocks s' = blocks s + 1)
    | _ \<Rightarrow> (\<exists>s'. nvs_get_string ops True ns k v s = (False, v, s') \<and> view (drv s') = view (drv s)
        \<and> blocks s' = blocks s + 1)"
proof -
  obtain h n1 where o: "nvs_open ops 0 ns s = (0, h, s\<lparr>drv := n1\<rparr>)" "handles (view (drv s)) h = None"
    "view n1 = (view (drv s))\<lparr>handles := (handles (view (drv s)))(h \<mapsto> ns)\<rparr>"
    by (rule nvs_openD [OF assms(1,2)])
  let ?s1 = "s\<lparr>drv := n1, blocks := blocks s + 1\<rparr>"
  have h1: "handles (view (drv ?s1)) h = Some ns" by (simp add: o)
  have e: "entries (view n1) = entries (view (drv s))" by (simp add: o)
  obtain n2 where g: "view n2 = view n1" "(case entries (view (drv s)) ns k of
        Some (Str u) \<Rightarrow> length u < 512 \<longrightarrow> nvs_get_str ops h k 512 v ?s1 = (0, u, ?s1\<lparr>drv := n2\<rparr>)
      | _ \<Rightarrow> nvs_get_str ops h k 512 v ?s1 = (ESP_ERR_NVS_NOT_FOUND, v, ?s1\<lparr>drv := n2\<rparr>))"
    using nvs_get_strD [OF assms(1) h1, of k 512 v] by (auto simp: e)
  have nf: "ESP_ERR_NVS_NOT_FOUND \<noteq> 0" by (simp add: ESP_ERR_NVS_NOT_FOUND_def)
  show ?thesis
    using g o nf
    by (auto simp: nvs_get_string_def nvs_closeD [OF assms(1)]
        split: option.splits nvs_value.splits)
qed

end
