(* ===== verification/State_Manager.thy ===== *)
theory State_Manager
  imports Prelude
begin

text \<open>
  components/State_manager: the state variable every task reads and writes, and the task
  that shows it on four LEDs. One iteration of the task is the list of pin levels it sets
  and delays it makes; \<open>display\<close> is what can be seen of it.
\<close>

section \<open>States\<close>

datatype State_t =
    NVS_INIT_STATE
  | INIT_POP_STATE
  | AWAIT_WIFI_PROVISIONING_STATE
  | WIFI_PROVISIONING_STATE
  | WIFI_CONNECTED_STATE
  | DALI_COMMUNICATION_INIT_STATE
  | DALI_COMMUNICATION_OK_STATE
  | DALI_COMMISION_BUS_STATE
  | SYNCRONIZE_NVS_STATE
  | SYNCRONIZE_BACKEND_STATE
  | BLINK_LAMP_STATE
  | ANALYZE_DALI_BUS_STATE
  | TCP_SERVER_INIT_STATE
  | MDNS_INIT_STATE
  | AUTHENTICATION_STATE
  | NOT_AUTHENTICATED_STATE
  | SYSTEM_RUNNING_STATE
  | NO_WIFI_STATE
  | DALI_BUS_CORRUPTED_STATE
  | DALI_BUS_NOT_COMMISIONED_STATE
  | NO_RESPONSE_ON_DALI_BUS

text \<open>The enumeration in the order of the source; the state variable itself is an \<open>int\<close>.\<close>

definition all_states :: "State_t list" where
  "all_states = [
     NVS_INIT_STATE,
     INIT_POP_STATE,
     AWAIT_WIFI_PROVISIONING_STATE,
     WIFI_PROVISIONING_STATE,
     WIFI_CONNECTED_STATE,
     DALI_COMMUNICATION_INIT_STATE,
     DALI_COMMUNICATION_OK_STATE,
     DALI_COMMISION_BUS_STATE,
     SYNCRONIZE_NVS_STATE,
     SYNCRONIZE_BACKEND_STATE,
     BLINK_LAMP_STATE,
     ANALYZE_DALI_BUS_STATE,
     TCP_SERVER_INIT_STATE,
     MDNS_INIT_STATE,
     AUTHENTICATION_STATE,
     NOT_AUTHENTICATED_STATE,
     SYSTEM_RUNNING_STATE,
     NO_WIFI_STATE,
     DALI_BUS_CORRUPTED_STATE,
     DALI_BUS_NOT_COMMISIONED_STATE,
     NO_RESPONSE_ON_DALI_BUS]"

definition code_of :: "State_t \<Rightarrow> int" where
  "code_of s = int (length (takeWhile (\<lambda>t. t \<noteq> s) all_states))"

definition state_of :: "int \<Rightarrow> State_t option" where
  "state_of n = (if 0 \<le> n \<and> nat n < length all_states then Some (all_states ! nat n) else None)"

lemma state_of_code_of [simp]: "state_of (code_of s) = Some s"
  by (cases s) (simp_all add: state_of_def code_of_def all_states_def)

lemma code_of_inject [simp]: "code_of s = code_of t \<longleftrightarrow> s = t"
  by (metis state_of_code_of option.inject)

text \<open>The states are the ones listed, so a claim about all of them can be evaluated.\<close>

lemma UNIV_State_t: "UNIV = set all_states"
proof -
  have "st \<in> set all_states" for st
    by (cases st) (simp_all add: all_states_def)
  then show ?thesis by auto
qed

instantiation State_t :: enum
begin

definition enum_State_t :: "State_t list" where
  "enum_State_t = all_states"

definition enum_all_State_t :: "(State_t \<Rightarrow> bool) \<Rightarrow> bool" where
  "enum_all_State_t P = list_all P all_states"

definition enum_ex_State_t :: "(State_t \<Rightarrow> bool) \<Rightarrow> bool" where
  "enum_ex_State_t P = list_ex P all_states"

instance
proof
  show "distinct (enum_class.enum :: State_t list)"
    by (simp add: enum_State_t_def all_states_def)
qed (simp_all add: enum_State_t_def enum_all_State_t_def enum_ex_State_t_def UNIV_State_t list_all_iff list_ex_iff)

end

record manager =
  state_machine :: int
  last_state :: int
  state_manager_inited :: bool

definition initial_manager :: manager where
  "initial_manager = \<lparr>state_machine = code_of NVS_INIT_STATE, last_state = 0, state_manager_inited = False\<rparr>"

text \<open>
  \<open>set_state\<close> takes an \<open>int\<close>; it also says whether it logged that the manager is not
  initialised. Most callers pass one of the states.
\<close>

definition set_state_code :: "int \<Rightarrow> manager \<Rightarrow> log_entry list \<times> manager" where
  "set_state_code new_state m =
     (let m = m\<lparr>last_state := state_machine m\<rparr>;
          log = (if \<not> state_manager_inited m then [LOGE ''State manager not initialized''] else [])
      in (log, m\<lparr>state_machine := new_state\<rparr>))"

definition set_state :: "State_t \<Rightarrow> manager \<Rightarrow> log_entry list \<times> manager" where
  "set_state new_state = set_state_code (code_of new_state)"

lemma state_machine_set_state [simp]:
  "state_machine (snd (set_state new m)) = code_of new"
  "last_state (snd (set_state new m)) = state_machine m"
  "state_manager_inited (snd (set_state new m)) = state_manager_inited m"
  "state_machine (snd (set_state_code n m)) = n"
  "last_state (snd (set_state_code n m)) = state_machine m"
  "state_manager_inited (snd (set_state_code n m)) = state_manager_inited m"
  by (simp_all add: set_state_def set_state_code_def Let_def)

definition get_state :: "manager \<Rightarrow> int" where
  "get_state m = state_machine m"

definition get_last_state :: "manager \<Rightarrow> int" where
  "get_last_state m = last_state m"

section \<open>Pins\<close>

datatype led = BLUE | RED | YELLOW | GREEN

definition pin_of :: "led \<Rightarrow> nat" where
  "pin_of l = (case l of BLUE \<Rightarrow> 4 | RED \<Rightarrow> 5 | YELLOW \<Rightarrow> 6 | GREEN \<Rightarrow> 7)"

definition HIGH :: bool where "HIGH = True"
definition LOW :: bool where "LOW = False"

record board =
  levels :: "led \<Rightarrow> bool"
  configs :: "gpio_config list"
  resets :: "nat list"

definition gpio_set_level :: "led \<Rightarrow> bool \<Rightarrow> board \<Rightarrow> board" where
  "gpio_set_level l v b = b\<lparr>levels := (levels b)(l := v)\<rparr>"

definition gpio_reset_pin :: "led \<Rightarrow> board \<Rightarrow> board" where
  "gpio_reset_pin l b = b\<lparr>resets := resets b @ [pin_of l]\<rparr>"

definition gpio_configure :: "gpio_config \<Rightarrow> board \<Rightarrow> board" where
  "gpio_configure c b = b\<lparr>configs := configs b @ [c]\<rparr>"

definition io_config_state_manager :: "led \<Rightarrow> gpio_config" where
  "io_config_state_manager l = \<lparr>
     cfg_mode = GPIO_MODE_OUTPUT, cfg_intr_type = GPIO_INTR_DISABLE,
     cfg_pin_bit_mask = push_bit (pin_of l) 1, cfg_pull_down_en = False, cfg_pull_up_en = False\<rparr>"

definition init_state_manager :: "manager \<times> board \<Rightarrow> manager \<times> board" where
  "init_state_manager = (\<lambda>(m, b).
     let b = gpio_reset_pin BLUE b;
         b = gpio_reset_pin RED b;
         b = gpio_reset_pin YELLOW b;
         b = gpio_reset_pin GREEN b;
         b = gpio_configure (io_config_state_manager BLUE) b;
         b = gpio_configure (io_config_state_manager RED) b;
         b = gpio_configure (io_config_state_manager YELLOW) b;
         b = gpio_configure (io_config_state_manager GREEN) b;
         b = gpio_set_level BLUE LOW b;
         b = gpio_set_level RED LOW b;
         b = gpio_set_level YELLOW LOW b;
         b = gpio_set_level GREEN LOW b
     in (m\<lparr>state_manager_inited := True\<rparr>, b))"

section \<open>The LED task\<close>

datatype led_action = Level led bool | Delay nat

text \<open>One iteration of the loop in each state; \<open>tick\<close> is \<open>portTICK_PERIOD_MS\<close>.\<close>

definition pattern :: "nat \<Rightarrow> State_t \<Rightarrow> led_action list" where
  "pattern tick s = (case s of
      NVS_INIT_STATE \<Rightarrow>
       [Level BLUE HIGH, Delay (100 div tick), Level BLUE LOW, Delay (100 div tick)]
    | INIT_POP_STATE \<Rightarrow>
       [Level BLUE HIGH, Level YELLOW HIGH, Delay (100 div tick), Level BLUE LOW, Level
        YELLOW LOW, Delay (100 div tick)]
    | WIFI_PROVISIONING_STATE \<Rightarrow>
       [Level BLUE HIGH, Delay (100 div tick), Level BLUE LOW, Delay (100 div tick)]
    | AWAIT_WIFI_PROVISIONING_STATE \<Rightarrow>
       [Level BLUE HIGH, Delay (500 div tick), Level BLUE LOW, Delay (500 div tick)]
    | DALI_COMMUNICATION_INIT_STATE \<Rightarrow>
       [Level BLUE HIGH, Level YELLOW HIGH, Delay (100 div tick), Level YELLOW LOW, Delay
        (100 div tick)]
    | DALI_COMMUNICATION_OK_STATE \<Rightarrow>
       [Level BLUE HIGH, Level GREEN HIGH, Delay (500 div tick)]
    | ANALYZE_DALI_BUS_STATE \<Rightarrow>
       [Level BLUE HIGH, Level YELLOW HIGH, Delay (500 div tick), Level YELLOW LOW, Delay
        (500 div tick)]
    | SYNCRONIZE_NVS_STATE \<Rightarrow>
       [Level BLUE HIGH, Level YELLOW HIGH, Delay (500 div tick), Level YELLOW LOW, Delay
        (500 div tick)]
    | SYNCRONIZE_BACKEND_STATE \<Rightarrow>
       [Level BLUE HIGH, Level YELLOW HIGH, Delay (500 div tick), Level YELLOW LOW, Delay
        (500 div tick)]
    | DALI_COMMISION_BUS_STATE \<Rightarrow>
       [Level BLUE HIGH, Level GREEN LOW, Level YELLOW LOW, Level RED HIGH, Delay (100 div
        tick), Level GREEN LOW, Level YELLOW HIGH, Level RED LOW, Delay (100 div
        tick), Level GREEN HIGH, Level YELLOW LOW, Level RED LOW, Delay (100 div
        tick)]
    | TCP_SERVER_INIT_STATE \<Rightarrow>
       [Level BLUE HIGH, Level GREEN HIGH, Delay (500 div tick)]
    | MDNS_INIT_STATE \<Rightarrow>
       [Level BLUE HIGH, Level GREEN HIGH, Delay (500 div tick)]
    | AUTHENTICATION_STATE \<Rightarrow>
       [Level BLUE HIGH, Level GREEN HIGH, Delay (500 div tick)]
    | BLINK_LAMP_STATE \<Rightarrow>
       [Level BLUE LOW, Level GREEN LOW, Level YELLOW LOW, Level RED LOW, Delay (500 div
        tick)]
    | DALI_BUS_NOT_COMMISIONED_STATE \<Rightarrow>
       [Level YELLOW HIGH, Level RED LOW, Level GREEN LOW, Level BLUE HIGH, Delay (500 div
        tick)]
    | DALI_BUS_CORRUPTED_STATE \<Rightarrow>
       [Level YELLOW HIGH, Level RED HIGH, Level GREEN LOW, Level BLUE HIGH, Delay (500 div
        tick), Level YELLOW LOW, Level RED HIGH, Level GREEN LOW, Level BLUE HIGH]
    | NO_RESPONSE_ON_DALI_BUS \<Rightarrow>
       [Level YELLOW HIGH, Level RED HIGH, Level GREEN LOW, Level BLUE HIGH, Delay (500 div
        tick)]
    | SYSTEM_RUNNING_STATE \<Rightarrow>
       [Level GREEN HIGH, Level BLUE LOW, Level YELLOW LOW, Level RED LOW, Delay (50 div
        tick), Level GREEN LOW, Level BLUE LOW, Level YELLOW LOW, Level RED LOW,
        Delay (2950 div tick)]
    | NO_WIFI_STATE \<Rightarrow>
       [Level RED HIGH, Level BLUE HIGH, Delay (500 div tick)]
    | WIFI_CONNECTED_STATE \<Rightarrow>
       [Level BLUE HIGH, Level YELLOW LOW, Level RED LOW, Level GREEN LOW, Delay (500 div
        tick)]
    | NOT_AUTHENTICATED_STATE \<Rightarrow>
       [Level YELLOW HIGH, Level RED LOW, Level GREEN LOW, Level BLUE LOW, Delay (500 div
        tick)])"

definition default_pattern :: "nat \<Rightarrow> led_action list" where
  "default_pattern tick = [Level RED HIGH, Delay (500 div tick)]"

definition state_task_iteration :: "nat \<Rightarrow> manager \<Rightarrow> led_action list" where
  "state_task_iteration tick m =
     (case state_of (state_machine m) of Some s \<Rightarrow> pattern tick s | None \<Rightarrow> default_pattern tick)"

text \<open>What the LEDs show during each delay, and their levels afterwards.\<close>

fun display :: "led_action list \<Rightarrow> (led \<Rightarrow> bool) \<Rightarrow> ((led \<Rightarrow> bool) \<times> nat) list" where
  "display [] v = []"
| "display (Level l b # as) v = display as (v(l := b))"
| "display (Delay n # as) v = (v, n) # display as v"

fun leds_after :: "led_action list \<Rightarrow> (led \<Rightarrow> bool) \<Rightarrow> led \<Rightarrow> bool" where
  "leds_after [] v = v"
| "leds_after (Level l b # as) v = leds_after as (v(l := b))"
| "leds_after (Delay n # as) v = leds_after as v"

text \<open>n iterations of the loop in one state.\<close>

fun show_state :: "nat \<Rightarrow> led_action list \<Rightarrow> (led \<Rightarrow> bool) \<Rightarrow> ((led \<Rightarrow> bool) \<times> nat) list" where
  "show_state 0 p v = []"
| "show_state (Suc n) p v = display p v @ show_state n p (leds_after p v)"

fun ticks :: "led_action list \<Rightarrow> nat" where
  "ticks [] = 0"
| "ticks (Level l b # as) = ticks as"
| "ticks (Delay n # as) = n + ticks as"

section \<open>Properties\<close>

text \<open>
  C38: No state makes the LED task spin: whatever the state variable holds, an iteration of
  its loop waits at least 10 ticks when a tick is at most 10 ms, and at most 3 seconds.
\<close>

theorem led_task_always_yields:
  assumes "0 < tick" and "tick \<le> 10"
  shows "10 \<le> ticks (state_task_iteration tick m) \<and> ticks (state_task_iteration tick m) \<le> 3000"
proof -
  have low: "10 \<le> 100 div tick" "10 \<le> 500 div tick" "10 \<le> 2950 div tick"
    using assms div_le_mono2 [of tick 10 100] div_le_mono2 [of tick 10 500] div_le_mono2 [of tick 10 2950]
    by simp_all
  have high: "n div tick \<le> n" for n by simp
  note bounds = low high [of 50] high [of 100] high [of 500] high [of 2950]
  show ?thesis
  proof (cases "state_of (state_machine m)")
    case None
    then show ?thesis
      by (simp add: state_task_iteration_def default_pattern_def) (use bounds in linarith)
  next
    case (Some s)
    then show ?thesis
      by (cases s; simp add: state_task_iteration_def pattern_def; use bounds in linarith)
  qed
qed

lemma led_task_always_yields_witness:
  "10 \<le> ticks (state_task_iteration 10 initial_manager) \<and> ticks (state_task_iteration 10 initial_manager) \<le> 3000"
  by (rule led_task_always_yields) simp_all

text \<open>The pins a pattern sets before its first delay.\<close>

fun set_first :: "led_action list \<Rightarrow> led list" where
  "set_first (Level l b # as) = l # set_first as"
| "set_first _ = []"

lemma display_set_first:
  assumes "\<forall>l. l \<in> set (set_first p) \<or> v l = w l"
  shows "display p v = display p w"
  using assms
proof (induction p arbitrary: v w rule: set_first.induct, goal_cases)
  case (1 l b as v w)
  have "\<forall>k. k \<in> set (set_first as) \<or> (v(l := b)) k = (w(l := b)) k"
    using 1(2) by auto
  from 1(1) [of "v(l := b)" "w(l := b)", OF this] show ?case by (simp add: fun_upd_def)
next
  case (3 n as v w)
  then have "v = w" by auto
  then show ?case by simp
qed simp_all

text \<open>The states whose pattern sets all four LEDs.\<close>

definition self_contained :: "State_t \<Rightarrow> bool" where
  "self_contained s \<longleftrightarrow> s \<in> {DALI_COMMISION_BUS_STATE, BLINK_LAMP_STATE, DALI_BUS_NOT_COMMISIONED_STATE,
     DALI_BUS_CORRUPTED_STATE, NO_RESPONSE_ON_DALI_BUS, SYSTEM_RUNNING_STATE, WIFI_CONNECTED_STATE,
     NOT_AUTHENTICATED_STATE}"

definition inherited_led :: "State_t \<Rightarrow> led" where
  "inherited_led s = (if s = NO_WIFI_STATE then YELLOW else RED)"

lemma first_shown:
  "\<not> self_contained s \<Longrightarrow> fst (hd (display (pattern tick s) v)) (inherited_led s) = v (inherited_led s)"
  by (cases s) (simp_all add: pattern_def self_contained_def inherited_led_def)

text \<open>
  What the LEDs show is determined by the state exactly for eight of the twenty-one
  states, among them every error state but NO_WIFI_STATE; in the others an LED keeps the
  level an earlier state left it at.
\<close>

theorem leds_determined_by_state_iff:
  "(\<forall>v w. display (pattern tick s) v = display (pattern tick s) w) \<longleftrightarrow> self_contained s"
proof
  assume "self_contained s"
  then have "\<forall>l. l \<in> set (set_first (pattern tick s))"
    by (auto simp: self_contained_def pattern_def) (metis led.exhaust)+
  then show "\<forall>v w. display (pattern tick s) v = display (pattern tick s) w"
    by (intro allI display_set_first) simp
next
  assume same: "\<forall>v w. display (pattern tick s) v = display (pattern tick s) w"
  show "self_contained s"
    using first_shown [of s tick "\<lambda>_. True"] first_shown [of s tick "\<lambda>_. False"]
      same [rule_format, of "\<lambda>_. True" "\<lambda>_. False"] by metis
qed

text \<open>
  The second phase of the pattern for a corrupted bus is not followed by a delay, so
  the yellow LED is never seen off: however long it is shown, a corrupted bus looks
  exactly like a bus on which nothing answers.
\<close>

theorem corrupted_bus_looks_like_silent_bus:
  "show_state n (pattern tick DALI_BUS_CORRUPTED_STATE) v = show_state n (pattern tick NO_RESPONSE_ON_DALI_BUS) w"
proof (induction n arbitrary: v w)
  case (Suc n)
  have "display (pattern tick DALI_BUS_CORRUPTED_STATE) v = display (pattern tick NO_RESPONSE_ON_DALI_BUS) w"
    by (auto simp: pattern_def fun_eq_iff split: led.split) (metis led.exhaust)+
  with Suc show ?case by simp
qed simp

text \<open>
  Setting a state makes it the current one and remembers the one before, with a
  complaint exactly when the manager was not initialised; initialisation leaves all four
  LEDs off on pins configured as plain outputs.
\<close>

theorem set_state_remembers_previous:
  "state_of (get_state (snd (set_state t m))) = Some t
   \<and> get_last_state (snd (set_state t m)) = get_state m
   \<and> (fst (set_state t m) = [] \<longleftrightarrow> state_manager_inited m)
   \<and> (let (m', b') = init_state_manager (m, b) in
        fst (set_state t m') = [] \<and> (\<forall>l. \<not> levels b' l) \<and>
        (\<forall>l. io_config_state_manager l \<in> set (configs b')) \<and> get_state m' = get_state m)"
proof -
  have off: "\<not> levels (snd (init_state_manager (m, b))) l" for l
    by (cases l) (simp_all add: init_state_manager_def Let_def gpio_set_level_def LOW_def
        gpio_configure_def gpio_reset_pin_def)
  have cfg: "io_config_state_manager l \<in> set (configs (snd (init_state_manager (m, b))))" for l
    by (cases l) (simp_all add: init_state_manager_def Let_def gpio_set_level_def
        gpio_configure_def gpio_reset_pin_def)
  have "fst (init_state_manager (m, b)) = m\<lparr>state_manager_inited := True\<rparr>"
    by (simp add: init_state_manager_def Let_def)
  with off cfg show ?thesis
    by (simp add: set_state_def set_state_code_def get_state_def get_last_state_def Let_def split_beta)
qed

end
