(* ===== verification/Http_Handler.thy ===== *)
theory Http_Handler
  imports Nvs_Handler Dali_Diagnostics State_Manager
begin

text \<open>
  components/Http_handler: the JSON bodies posted to the backend, the answers read back
  from it, and the tokens. The HTTP client library is the argument \<open>server\<close>: what
  performing a request returns, and the data events it delivers on the way. Writing past
  a buffer, and reading past the end of a string, are the fault \<open>Out_of_bounds\<close>.
\<close>

section \<open>JSON objects\<close>

definition append_json_pair :: "string \<Rightarrow> string \<Rightarrow> string \<Rightarrow> string" where
  "append_json_pair json key val = json @ ''\"'' @ key @ ''\":\"'' @ val @ ''\",''"

text \<open>\<open>buf_size\<close> is the size of the caller's buffer; the comma of the last pair becomes the bracket.\<close>

definition create_json_object :: "nat \<Rightarrow> string list \<Rightarrow> string list \<Rightarrow> fault + string" where
  "create_json_object buf_size keys values =
     (let json = fold (\<lambda>(k, v) json. append_json_pair json k v) (zip keys values) ''{''
      in if buf_size \<le> length json then Inl Out_of_bounds
         else Inr (json[length json - 1 := CHR ''}'']))"

section \<open>Reading the answer of the backend\<close>

definition json_space :: "char \<Rightarrow> bool" where
  "json_space c \<longleftrightarrow> c = CHR '' '' \<or> c = CHR 0x09 \<or> c = CHR 0x0A \<or> c = CHR 0x0D"

definition gears_key :: string where
  "gears_key = ''\"controleGears\":[''"

text \<open>
  The loop of \<open>parseJSONResponse\<close>: the argument is the string from \<open>ptr\<close> on, empty when
  \<open>ptr\<close> is at the terminating NUL; stepping over that is reading out of bounds.
\<close>

function parse_elements :: "string \<Rightarrow> u64 list \<Rightarrow> fault + u64 list" where
  "parse_elements ptr elements =
     (if (ptr \<noteq> [] \<and> hd ptr = CHR '']'') \<or> length elements \<ge> 64 then Inr elements
      else let ptr = dropWhile json_space ptr
           in case ptr of
                [] \<Rightarrow> Inl Out_of_bounds
              | c # ptr \<Rightarrow>
                  if c = CHR 0x22
                  then let val = takeWhile (\<lambda>c. c \<noteq> CHR 0x22) ptr;
                           ptr = dropWhile (\<lambda>c. c \<noteq> CHR 0x22) ptr
                       in case ptr of
                            [] \<Rightarrow> Inl Out_of_bounds
                          | _ # ptr \<Rightarrow> parse_elements ptr
                              (if length val < 32 then elements @ [strtoull val] else elements)
                  else parse_elements ptr elements)"
  by pat_completeness auto
termination
proof (relation "measure (\<lambda>(ptr, es). length ptr)", goal_cases)
  case 1
  then show ?case by simp
next
  case (2 ptr es p c cs v p' d ds)
  have "length (c # cs) \<le> length ptr"
    using length_dropWhile_le [of json_space ptr] 2(2,3) by (metis (no_types))
  moreover have "length (d # ds) \<le> length cs"
    using length_dropWhile_le [of "\<lambda>c. c \<noteq> CHR 0x22" cs] 2(6,7) by (metis (no_types, lifting))
  ultimately show ?case by simp
next
  case (3 ptr es p c cs)
  have "length (c # cs) \<le> length ptr"
    using length_dropWhile_le [of json_space ptr] 3(2,3) by (metis (no_types))
  then show ?case by simp
qed

declare parse_elements.simps [simp del]

definition parseJSONResponse :: "bool \<Rightarrow> string \<Rightarrow> fault + u64 list option" where
  "parseJSONResponse malloc_ok response =
     (case strstr response gears_key of
        None \<Rightarrow> Inr None
      | Some start_pos \<Rightarrow>
          if \<not> malloc_ok then Inr None
          else map_sum (\<lambda>f. f) Some (parse_elements (drop (length gears_key) start_pos) []))"

section \<open>State\<close>

datatype HTTP_REQUEST_TYPE =
    HTTP_NON_REQUEST
  | HTTP_ACCESS_TOKEN_REQUEST
  | HTTP_GET_CONTROL_GEARS_REQUEST
  | HTTP_REFRESH_TOKEN_REQUEST
  | HTTP_ADD_CONTROLE_GEAR_REQUEST

definition HTTP_OK :: int where "HTTP_OK = 200"

record 'n http =
  nvs :: "'n flash"
  mgr :: manager
  new_access_token :: string
  HTTP_REQUEST :: HTTP_REQUEST_TYPE
  global_elements :: "u64 list"
  global_num_elements :: nat
  current_device_short_address :: u8
  clients :: nat                     \<comment> \<open>client handles not cleaned up\<close>

datatype http_method = HTTP_METHOD_GET | HTTP_METHOD_POST

record request =
  req_url :: string
  req_method :: http_method
  req_headers :: "(string \<times> string) list"
  req_body :: string

text \<open>A data event: its length, the memory from its data pointer on, and whether the parser's
  allocation succeeds. Other events are ignored.\<close>

datatype http_event = On_data nat "char list" bool | Other_event

section \<open>The event handler\<close>

definition forget_tokens :: "'n nvs_ops \<Rightarrow> 'n http \<Rightarrow> 'n http" where
  "forget_tokens ops s =
     (let s = s\<lparr>nvs := nvs_delete_key_value_pair ops ''authentication'' ''refresh_token'' (nvs s)\<rparr>;
          s = s\<lparr>nvs := nvs_delete_key_value_pair ops ''authentication'' ''access_token'' (nvs s)\<rparr>
      in s\<lparr>mgr := snd (set_state NOT_AUTHENTICATED_STATE (mgr s))\<rparr>)"

definition access_token_key :: string where "access_token_key = ''\"accessToken\":\"''"
definition refresh_token_key :: string where "refresh_token_key = ''\"refreshToken\":\"''"

definition take_access_token :: "'n nvs_ops \<Rightarrow> string \<Rightarrow> 'n http \<Rightarrow> fault + 'n http" where
  "take_access_token ops data s =
     (case strstr data access_token_key of
        None \<Rightarrow> Inr s
      | Some token_start \<Rightarrow>
          (case until CHR 0x22 (drop (length access_token_key) token_start) of
             None \<Rightarrow> Inr s
           | Some access_token \<Rightarrow>
               if 256 \<le> length access_token then Inl Out_of_bounds
               else Inr (s\<lparr>new_access_token := access_token,
                           nvs := snd (nvs_set_string ops ''authentication'' ''access_token'' access_token (nvs s))\<rparr>)))"

definition take_refresh_token :: "'n nvs_ops \<Rightarrow> string \<Rightarrow> 'n http \<Rightarrow> 'n http" where
  "take_refresh_token ops data s =
     (case strstr data refresh_token_key of
        None \<Rightarrow> forget_tokens ops s
      | Some token_start \<Rightarrow>
          (case until CHR 0x22 (drop (length refresh_token_key) token_start) of
             None \<Rightarrow> forget_tokens ops s
           | Some tok \<Rightarrow>
               (case nvs_set_string ops ''authentication'' ''refresh_token'' tok (nvs s) of
                  (result, n) \<Rightarrow>
                    let s = s\<lparr>nvs := n\<rparr>
                    in if \<not> result then forget_tokens ops s else s)))"

definition store_elements :: "u64 list \<Rightarrow> u64 list \<Rightarrow> fault + u64 list" where
  "store_elements elements globals =
     (if length elements \<le> length globals
      then Inr (elements @ drop (length elements) globals) else Inl Out_of_bounds)"

definition http_event_handler :: "'n nvs_ops \<Rightarrow> http_event \<Rightarrow> 'n http \<Rightarrow> fault + 'n http" where
  "http_event_handler ops evt s =
     (case evt of
        Other_event \<Rightarrow> Inr s
      | On_data data_len mem malloc_ok \<Rightarrow>
          if 512 \<le> data_len \<or> length mem < data_len then Inl Out_of_bounds
          else (case HTTP_REQUEST s of
             HTTP_REFRESH_TOKEN_REQUEST \<Rightarrow>
               if NUL \<notin> set mem then Inl Out_of_bounds
               else (case take_access_token ops (cstr mem) s of
                       Inl f \<Rightarrow> Inl f
                     | Inr s \<Rightarrow>
                         let s = take_refresh_token ops (cstr mem) s
                         in Inr (s\<lparr>HTTP_REQUEST := HTTP_NON_REQUEST\<rparr>))
           | HTTP_GET_CONTROL_GEARS_REQUEST \<Rightarrow>
               if NUL \<notin> set mem then Inl Out_of_bounds
               else (case parseJSONResponse malloc_ok (cstr mem) of
                       Inl f \<Rightarrow> Inl f
                     | Inr None \<Rightarrow> Inr (s\<lparr>global_num_elements := 0\<rparr>)
                     | Inr (Some elements) \<Rightarrow>
                         (case store_elements elements (global_elements s) of
                            Inl f \<Rightarrow> Inl f
                          | Inr globals \<Rightarrow> Inr (s\<lparr>global_num_elements := length elements,
                                                  global_elements := globals\<rparr>)))
           | _ \<Rightarrow> Inr s))"

text \<open>\<open>esp_http_client_perform\<close>: the events are delivered in order.\<close>

primrec deliver :: "'n nvs_ops \<Rightarrow> http_event list \<Rightarrow> 'n http \<Rightarrow> fault + 'n http" where
  "deliver ops [] s = Inr s"
| "deliver ops (e # es) s = (case http_event_handler ops e s of Inl f \<Rightarrow> Inl f | Inr s \<Rightarrow> deliver ops es s)"

interpretation delivery: runner "http_event_handler ops" "deliver ops"
  by unfold_locales simp_all

type_synonym server = "request \<Rightarrow> esp_err \<times> http_event list"

definition esp_http_client_perform ::
    "'n nvs_ops \<Rightarrow> server \<Rightarrow> request \<Rightarrow> 'n http \<Rightarrow> fault + esp_err \<times> 'n http" where
  "esp_http_client_perform ops server req s =
     (case server req of (e, evs) \<Rightarrow> map_sum (\<lambda>f. f) (Pair e) (deliver ops evs s))"

definition client_init :: "'n http \<Rightarrow> 'n http" where
  "client_init s = s\<lparr>clients := clients s + 1\<rparr>"

definition client_cleanup :: "'n http \<Rightarrow> 'n http" where
  "client_cleanup s = s\<lparr>clients := clients s - 1\<rparr>"

section \<open>Requests\<close>

definition json_header :: "string \<times> string" where
  "json_header = (''Content-Type'', ''application/json'')"

definition JSON_BUFFER_SIZE :: nat where "JSON_BUFFER_SIZE = 2048"

definition post_json_data ::
    "'n nvs_ops \<Rightarrow> server \<Rightarrow> string list \<Rightarrow> string list \<Rightarrow> 'n http \<Rightarrow> fault + int \<times> 'n http" where
  "post_json_data ops server keys values s =
     (case create_json_object JSON_BUFFER_SIZE keys values of
        Inl f \<Rightarrow> Inl f
      | Inr body \<Rightarrow>
          let s = client_init s
          in case esp_http_client_perform ops server
                    \<lparr>req_url = ''http://95.217.159.233/controller/new_data_instance'',
                     req_method = HTTP_METHOD_POST,
                     req_headers = [json_header, (''token'', new_access_token s)],
                     req_body = body\<rparr> s of
               Inl f \<Rightarrow> Inl f
             | Inr (e, s) \<Rightarrow> if e = ESP_OK then Inr (HTTP_OK, s) else Inr (2, s))"

text \<open>\<open>str_ok\<close> says whether the allocation in \<open>nvs_get_string\<close> succeeds. The local buffers are zeroed, so a failed read of the token leaves the empty string.\<close>

definition refresh_access :: "'n nvs_ops \<Rightarrow> bool \<Rightarrow> server \<Rightarrow> 'n http \<Rightarrow> fault + 'n http" where
  "refresh_access ops str_ok server s =
     (case nvs_get_string ops str_ok ''authentication'' ''refresh_token'' [] (nvs s) of (_, token, n) \<Rightarrow>
      let s = client_init (s\<lparr>nvs := n\<rparr>)
      in case create_json_object 1024 [''refreshToken''] [token] of
           Inl f \<Rightarrow> Inl f
         | Inr body \<Rightarrow>
             let s = s\<lparr>HTTP_REQUEST := HTTP_REFRESH_TOKEN_REQUEST\<rparr>
             in case esp_http_client_perform ops server
                       \<lparr>req_url = ''http://95.217.159.233/auth/controller/refresh_token'',
                        req_method = HTTP_METHOD_POST, req_headers = [json_header], req_body = body\<rparr> s of
                  Inl f \<Rightarrow> Inl f
                | Inr (e, s) \<Rightarrow> Inr (client_cleanup s))"

text \<open>The keys and the values of the posted object; a value is printed into 20 bytes.\<close>

definition gear_keys :: "string list" where
  "gear_keys = [
     ''manufactoringID'',
     ''operating_time'',
     ''start_counter'',
     ''external_supply_voltage'',
     ''external_supply_voltage_frequency'',
     ''power_factor'',
     ''overall_faliure_condition'',
     ''external_supply_undervoltage'',
     ''external_supply_undervoltage_counter'',
     ''external_supply_overvoltage'',
     ''external_supply_overvoltage_counter'',
     ''output_power_limitation'',
     ''output_power_limitation_counter'',
     ''thermal_derating'',
     ''thermal_derating_counter'',
     ''thermal_shutdown'',
     ''thermal_shutdown_counter'',
     ''temperature'',
     ''output_current_percent'',
     ''light_source_start_counter_resettable'',
     ''light_source_start_counter'',
     ''light_source_on_time_resettable'',
     ''light_source_on_time'',
     ''light_source_voltage'',
     ''light_source_current'',
     ''light_source_overall_faliure_condition'',
     ''light_source_overall_faliure_condition_counter'',
     ''light_source_short_circuit'',
     ''light_source_short_circuit_counter'',
     ''light_source_open_circuit'',
     ''light_source_open_circuit_counter'',
     ''light_source_thermal_derating'',
     ''light_source_thermal_derating_counter'',
     ''light_source_thermal_shutdown'',
     ''light_source_thermal_shutdown_counter'',
     ''light_source_temperature'',
     ''rated_median_usefull_life_of_luminare'',
     ''internal_controle_gear_reference_temperature'',
     ''rated_median_usefull_light_source_starts'']"

definition gear_values :: "Controle_gear_values_t \<Rightarrow> string list" where
  "gear_values gear = [
     dec (unat (manufacturer_id gear)),
     dec (unat (operating_time gear)),
     dec (unat (start_counter gear)),
     dec (unat (external_supply_voltage gear)),
     dec (unat (external_supply_voltage_frequency gear)),
     dec (unat (power_factor gear)),
     dec (unat (overall_faliure_condition gear)),
     dec (unat (external_supply_undervoltage gear)),
     dec (unat (external_supply_undervoltage_counter gear)),
     dec (unat (external_supply_overvoltage gear)),
     dec (unat (external_supply_overvoltage_counter gear)),
     dec (unat (output_power_limitation gear)),
     dec (unat (output_power_limitation_counter gear)),
     dec (unat (thermal_derating gear)),
     dec (unat (thermal_derating_counter gear)),
     dec (unat (thermal_shutdown gear)),
     dec (unat (thermal_shutdown_counter gear)),
     dec (unat (temperature gear)),
     dec (unat (output_current_percent gear)),
     dec (unat (light_source_start_counter_resettable gear)),
     dec (unat (light_source_start_counter gear)),
     dec (unat (light_source_on_time_resettable gear)),
     dec (unat (light_source_on_time gear)),
     dec (unat (light_source_voltage gear)),
     dec (unat (light_source_current gear)),
     dec (unat (light_source_overall_faliure_condition gear)),
     dec (unat (light_source_overall_faliure_condition_counter gear)),
     dec (unat (light_source_short_circuit gear)),
     dec (unat (light_source_short_circuit_counter gear)),
     dec (unat (light_source_open_circuit gear)),
     dec (unat (light_source_open_circuit_counter gear)),
     dec (unat (light_source_thermal_derating gear)),
     dec (unat (light_source_thermal_derating_counter gear)),
     dec (unat (light_source_thermal_shutdown gear)),
     dec (unat (light_source_thermal_shutdown_counter gear)),
     dec (unat (light_source_temperature gear)),
     dec (unat (rated_median_usefull_life_of_luminare gear)),
     dec (unat (internal_controle_gear_reference_temperature gear)),
     dec (unat (rated_median_usefull_light_source_starts gear))]"

text \<open>\<open>alloc i\<close> says whether the allocation of value buffer i succeeds.\<close>

primrec values_loop :: "(nat \<Rightarrow> bool) \<Rightarrow> string list \<Rightarrow> nat list \<Rightarrow> string list \<Rightarrow> fault + string list option" where
  "values_loop alloc strings [] values = Inr (Some values)"
| "values_loop alloc strings (i # is) values =
     (if \<not> alloc i then Inr None
      else if 20 \<le> length (strings ! i) then Inl Out_of_bounds
      else values_loop alloc strings is (values @ [strings ! i]))"

definition post_controle_gear_data ::
    "'n nvs_ops \<Rightarrow> bool \<Rightarrow> server \<Rightarrow> bool \<Rightarrow> (nat \<Rightarrow> bool) \<Rightarrow> Controle_gear_values_t \<Rightarrow> 'n http \<Rightarrow> fault + int \<times> 'n http" where
  "post_controle_gear_data ops str_ok server malloc_ok alloc gear s =
     (let s = s\<lparr>current_device_short_address := gear_short_address gear\<rparr>
      in case refresh_access ops str_ok server s of
           Inl f \<Rightarrow> Inl f
         | Inr s \<Rightarrow>
             if \<not> malloc_ok then Inr (0, s)
             else (case values_loop alloc (gear_values gear) [0..<length gear_keys] [] of
                     Inl f \<Rightarrow> Inl f
                   | Inr None \<Rightarrow> Inr (0, s)
                   | Inr (Some values) \<Rightarrow> post_json_data ops server gear_keys values s))"

text \<open>The url buffer holds 100 bytes; \<open>snprintf\<close> truncates.\<close>

definition getControleGearsRemote ::
    "'n nvs_ops \<Rightarrow> bool \<Rightarrow> server \<Rightarrow> string \<Rightarrow> 'n http \<Rightarrow> fault + (u64 list \<times> nat) \<times> 'n http" where
  "getControleGearsRemote ops str_ok server popID s =
     (case nvs_get_string ops str_ok ''authentication'' ''access_token'' [] (nvs s) of (_, access_token, n) \<Rightarrow>
      let s = client_init (s\<lparr>nvs := n\<rparr>);
          url = take 99 (''http://95.217.159.233/controller/controle_gears/'' @ popID);
          s = s\<lparr>HTTP_REQUEST := HTTP_GET_CONTROL_GEARS_REQUEST\<rparr>
      in (case esp_http_client_perform ops server
                \<lparr>req_url = url, req_method = HTTP_METHOD_GET,
                 req_headers = [json_header, (''token'', access_token)], req_body = []\<rparr> s of
           Inl f \<Rightarrow> Inl f
         | Inr (e, s) \<Rightarrow> Inr ((global_elements s, global_num_elements s), client_cleanup s)))"

definition add_controle_gear_to_db ::
    "'n nvs_ops \<Rightarrow> bool \<Rightarrow> server \<Rightarrow> string \<Rightarrow> u64 \<Rightarrow> 'n http \<Rightarrow> fault + 'n http" where
  "add_controle_gear_to_db ops str_ok server popID ident s =
     (case nvs_get_string ops str_ok ''authentication'' ''access_token'' [] (nvs s) of (_, access_token, n) \<Rightarrow>
      let s = client_init (s\<lparr>nvs := n\<rparr>)
      in case create_json_object 1024 [''manufactoringID'', ''popID''] [dec (unat ident), popID] of
           Inl f \<Rightarrow> Inl f
         | Inr body \<Rightarrow>
             let s = s\<lparr>HTTP_REQUEST := HTTP_NON_REQUEST\<rparr>
             in case esp_http_client_perform ops server
                       \<lparr>req_url = ''http://95.217.159.233/controller/add_control_gear'',
                        req_method = HTTP_METHOD_POST,
                        req_headers = [json_header, (''token'', access_token)], req_body = body\<rparr> s of
                  Inl f \<Rightarrow> Inl f
                | Inr (e, s) \<Rightarrow> Inr s)"

end
