(* ===== verification/Tcp_Server.thy ===== *)
theory Tcp_Server
  imports Http_Handler Dali_Addressing
begin

text \<open>
  components/Tcp_server: the server task that takes commands from the app, one connection
  at a time, and the replies. The state extends the one of the HTTP handler, with which it
  shares the flash and the state variable. What the sockets return is an argument;
  uninitialised arrays are arguments; a write past \<open>response\<close>, a string read past the end of
  an array and \<open>strlen(NULL)\<close> are \<open>Out_of_bounds\<close>.
\<close>

section \<open>State\<close>

record 'n tcp = "'n http" +
  response :: string
  transmit :: string
  global_socket :: int
  transmit_error_flag :: bool
  rx_buffer :: "char list"
  sent :: "(int \<times> string) list"
  open_sockets :: "int list"
  tcp_event_bit :: bool
  selected_driver :: u64
  error_message_send :: bool
  found :: inventory                \<comment> \<open>what the bus check has found\<close>
  popID :: string

definition RX_SIZE :: nat where "RX_SIZE = 512"
definition RESPONSE_SIZE :: nat where "RESPONSE_SIZE = 128"

definition send_socket :: "int \<Rightarrow> string \<Rightarrow> ('n, 'z) tcp_scheme \<Rightarrow> ('n, 'z) tcp_scheme" where
  "send_socket sock msg s = s\<lparr>sent := sent s @ [(sock, msg)]\<rparr>"

text \<open>\<open>sprintf(response, ...)\<close>.\<close>

definition sprintf_response :: "string \<Rightarrow> ('n, 'z) tcp_scheme \<Rightarrow> fault + ('n, 'z) tcp_scheme" where
  "sprintf_response msg s =
     (if length msg < RESPONSE_SIZE then Inr (s\<lparr>response := msg\<rparr>) else Inl Out_of_bounds)"

definition reply :: "int \<Rightarrow> string \<Rightarrow> ('n, 'z) tcp_scheme \<Rightarrow> fault + ('n, 'z) tcp_scheme" where
  "reply sock msg s =
     (case sprintf_response msg s of Inl f \<Rightarrow> Inl f | Inr s \<Rightarrow> Inr (send_socket sock (response s) s))"

definition goto :: "State_t \<Rightarrow> ('n, 'z) tcp_scheme \<Rightarrow> ('n, 'z) tcp_scheme" where
  "goto st s = s\<lparr>mgr := snd (set_state st (mgr s))\<rparr>"

text \<open>The string a pointer into an array is at: it must be terminated inside the array.\<close>

definition string_in :: "char list \<Rightarrow> fault + string" where
  "string_in mem = (if NUL \<in> set mem then Inr (cstr mem) else Inl Out_of_bounds)"

section \<open>Status report\<close>

definition with_pop :: "string \<Rightarrow> string \<Rightarrow> string" where
  "with_pop status pop = ''{\"status\":\"'' @ status @ ''\", \"popID\":\"'' @ pop @ ''\"}''"

definition state_text :: "State_t \<Rightarrow> string option" where
  "state_text st = (case st of
      NVS_INIT_STATE \<Rightarrow> Some ''NVS initialization state''
    | AWAIT_WIFI_PROVISIONING_STATE \<Rightarrow> Some ''Awaiting WiFi provisioning''
    | WIFI_PROVISIONING_STATE \<Rightarrow> Some ''WiFi provisioning state''
    | WIFI_CONNECTED_STATE \<Rightarrow> Some ''WiFi connected state''
    | DALI_COMMUNICATION_INIT_STATE \<Rightarrow> Some ''DALI communication initialization state''
    | DALI_COMMUNICATION_OK_STATE \<Rightarrow> Some ''DALI communication OK state''
    | ANALYZE_DALI_BUS_STATE \<Rightarrow> Some ''Analyzing DALI bus state''
    | TCP_SERVER_INIT_STATE \<Rightarrow> Some ''TCP server initialization state''
    | MDNS_INIT_STATE \<Rightarrow> Some ''mDNS initialization state''
    | AUTHENTICATION_STATE \<Rightarrow> Some ''Authentication state''
    | NOT_AUTHENTICATED_STATE \<Rightarrow> Some ''Not authenticated state''
    | SYSTEM_RUNNING_STATE \<Rightarrow> Some ''System is running''
    | NO_WIFI_STATE \<Rightarrow> Some ''No WiFi connection''
    | DALI_BUS_CORRUPTED_STATE \<Rightarrow> Some ''DALI bus corrupted state''
    | DALI_BUS_NOT_COMMISIONED_STATE \<Rightarrow> Some ''DALI bus not commissioned state''
    | NO_RESPONSE_ON_DALI_BUS \<Rightarrow> Some ''No response on DALI bus''
    | _ \<Rightarrow> None)"

definition unknown_state :: string where
  "unknown_state = ''{\"status\":\"Unknown state or perhaps a programmer added a state without adding it here! Dammit programmer!\"}''"

definition get_controler_state :: "('n, 'z) tcp_scheme \<Rightarrow> fault + ('n, 'z) tcp_scheme" where
  "get_controler_state s =
     sprintf_response
       (case Option.bind (state_of (get_state (mgr s))) state_text of
          Some status \<Rightarrow> with_pop status (popID s)
        | None \<Rightarrow> unknown_state) s"

section \<open>Commands\<close>

definition blink_lamp :: "u64 \<Rightarrow> ('n, 'z) tcp_scheme \<Rightarrow> ('n, 'z) tcp_scheme" where
  "blink_lamp manuID s = goto BLINK_LAMP_STATE (s\<lparr>selected_driver := manuID\<rparr>)"

text \<open>Cutting trailing white space: the last character that is kept, and the terminator behind it.\<close>

fun trim_end :: "char list \<Rightarrow> nat \<Rightarrow> nat" where
  "trim_end buf 0 = 0"
| "trim_end buf (Suc e) = (if isspace (buf ! Suc e) then trim_end buf e else Suc e)"

definition trimmed :: "char list \<Rightarrow> nat \<Rightarrow> char list" where
  "trimmed buf len = buf[trim_end buf (len - 1) + 1 := NUL]"

definition get_state_command :: "int \<Rightarrow> ('n, 'z) tcp_scheme \<Rightarrow> fault + ('n, 'z) tcp_scheme" where
  "get_state_command sock s =
     (case get_controler_state s of Inl f \<Rightarrow> Inl f | Inr s \<Rightarrow> Inr (send_socket sock (response s) s))"

definition commission_command :: "('n, 'z) tcp_scheme \<Rightarrow> ('n, 'z) tcp_scheme" where
  "commission_command s = goto DALI_COMMISION_BUS_STATE s\<lparr>tcp_event_bit := True\<rparr>"

definition blink_command :: "string \<Rightarrow> ('n, 'z) tcp_scheme \<Rightarrow> ('n, 'z) tcp_scheme" where
  "blink_command msg s =
     blink_lamp (strtoull (drop (length ''BLINK_LAMP'') msg)) (s\<lparr>tcp_event_bit := True\<rparr>)"

definition stop_command :: "('n, 'z) tcp_scheme \<Rightarrow> ('n, 'z) tcp_scheme" where
  "stop_command s = s\<lparr>mgr := snd (set_state_code (get_last_state (mgr s)) (mgr s))\<rparr>"

text \<open>\<open>malloc_ok\<close>, \<open>jh\<close> and \<open>jv\<close> are those of \<open>nvs_read_all_manufactoring_ids\<close>; the list is not freed.\<close>

definition ids_command ::
    "'n nvs_ops \<Rightarrow> bool \<Rightarrow> nat \<Rightarrow> u64 \<Rightarrow> int \<Rightarrow> ('n, 'z) tcp_scheme \<Rightarrow> fault + ('n, 'z) tcp_scheme" where
  "ids_command ops malloc_ok jh jv sock s =
     (case nvs_read_all_manufactoring_ids ops malloc_ok jh jv (devices_on_bus_count (found s)) (nvs s) of
        (None, n) \<Rightarrow> Inl Out_of_bounds
      | (Some manu_id, n) \<Rightarrow>
          reply sock (''{\"status\":\"ManufactoringID\", \"ids\":\"'' @ manu_id @ ''\"}'') (s\<lparr>nvs := n\<rparr>))"

text \<open>The argument of a command starts one character after its name, whatever that character is.\<close>

definition set_refresh_token_command ::
    "'n nvs_ops \<Rightarrow> char list \<Rightarrow> int \<Rightarrow> ('n, 'z) tcp_scheme \<Rightarrow> fault + ('n, 'z) tcp_scheme" where
  "set_refresh_token_command ops buf sock s =
     (case string_in (drop (length ''SET_REFRESH_TOKEN'' + 1) buf) of
        Inl f \<Rightarrow> Inl f
      | Inr tok \<Rightarrow>
          if tok \<noteq> []
          then (case nvs_set_string ops ''authentication'' ''refresh_token'' tok (nvs s) of (result, n) \<Rightarrow>
                  let s = s\<lparr>nvs := n\<rparr>
                  in if result then reply sock (with_pop ''Refresh token set successfully'' (popID s)) s
                     else reply sock (with_pop ''Failed to set token'' (popID s)) s)
          else reply sock (with_pop ''Empty token provided'' (popID s)) s)"

definition set_email_command ::
    "'n nvs_ops \<Rightarrow> char list \<Rightarrow> int \<Rightarrow> ('n, 'z) tcp_scheme \<Rightarrow> fault + ('n, 'z) tcp_scheme" where
  "set_email_command ops buf sock s =
     (case string_in (drop (length ''SET_EMAIL'' + 1) buf) of
        Inl f \<Rightarrow> Inl f
      | Inr email \<Rightarrow>
          if email \<noteq> []
          then (case nvs_set_string ops ''authentication'' ''email'' email (nvs s) of (result, n) \<Rightarrow>
                  let s = s\<lparr>nvs := n\<rparr>
                  in if result then Inr (send_socket sock ''Email set successfully'' s)
                     else Inr (send_socket sock ''Failed to set email'' s))
          else Inr s)"

text \<open>
  Sending a stored string: \<open>junk\<close> is what the uninitialised array of 512 characters holds;
  a successful read puts the value and its terminator there.
\<close>

definition get_string_command ::
    "'n nvs_ops \<Rightarrow> bool \<Rightarrow> char list \<Rightarrow> string \<Rightarrow> int \<Rightarrow> ('n, 'z) tcp_scheme \<Rightarrow> fault + ('n, 'z) tcp_scheme" where
  "get_string_command ops malloc_ok junk key sock s =
     (case nvs_get_string ops malloc_ok ''authentication'' key [] (nvs s) of (ok, v, n) \<Rightarrow>
        case string_in (if ok then v @ [NUL] else junk) of
          Inl f \<Rightarrow> Inl f
        | Inr v \<Rightarrow> Inr (send_socket sock v (s\<lparr>nvs := n\<rparr>)))"

text \<open>The second branch for SET_REFRESH_TOKEN, with replies of its own.\<close>

definition set_refresh_token_again_command ::
    "'n nvs_ops \<Rightarrow> char list \<Rightarrow> int \<Rightarrow> ('n, 'z) tcp_scheme \<Rightarrow> fault + ('n, 'z) tcp_scheme" where
  "set_refresh_token_again_command ops buf sock s =
     (case string_in (drop (length ''SET_REFRESH_TOKEN'' + 1) buf) of
        Inl f \<Rightarrow> Inl f
      | Inr tok \<Rightarrow>
          if tok \<noteq> []
          then (case nvs_set_string ops ''authentication'' ''refresh_token'' tok (nvs s) of (result, n) \<Rightarrow>
                  let s = s\<lparr>nvs := n\<rparr>
                  in if result then reply sock (with_pop ''Refresh token set successfully in NVS'' (popID s)) s
                     else Inr (send_socket sock ''Failed to set refresh token in NVS'' s))
          else Inr s)"

record junk =
  junk_handle :: nat
  junk_value :: u64
  junk_array :: "char list"
  malloc_succeeds :: bool

text \<open>
  \<open>message_handler\<close>: the first matching command. The second SET_REFRESH_TOKEN and
  GET_REFRESH_TOKEN branches come after the first ones, and are never reached.
\<close>

definition message_handler ::
    "'n nvs_ops \<Rightarrow> junk \<Rightarrow> nat \<Rightarrow> int \<Rightarrow> ('n, 'z) tcp_scheme \<Rightarrow> fault + ('n, 'z) tcp_scheme" where
  "message_handler ops j len sock s =
     (let buf = trimmed (rx_buffer s) len; s = s\<lparr>rx_buffer := buf\<rparr>; msg = cstr buf in
      if msg = ''GET_STATE'' then get_state_command sock s
      else if msg = ''COMMISION_DALI_BUS'' then Inr (commission_command s)
      else if starts_with msg ''BLINK_LAMP'' then Inr (blink_command msg s)
      else if msg = ''STOP_BLINK'' then Inr (stop_command s)
      else if msg = ''GET_MANUFACTORING_ID_ON_BUS''
           then ids_command ops (malloc_succeeds j) (junk_handle j) (junk_value j) sock s
      else if starts_with msg ''SET_REFRESH_TOKEN'' then set_refresh_token_command ops buf sock s
      else if msg = ''GET_REFRESH_TOKEN''
           then get_string_command ops (malloc_succeeds j) (junk_array j) ''token'' sock s
      else if starts_with msg ''SET_EMAIL'' then set_email_command ops buf sock s
      else if msg = ''GET_EMAIL''
           then get_string_command ops (malloc_succeeds j) (junk_array j) ''email'' sock s
      else if starts_with msg ''SET_REFRESH_TOKEN'' then set_refresh_token_again_command ops buf sock s
      else if msg = ''GET_REFRESH_TOKEN''
           then get_string_command ops (malloc_succeeds j) (junk_array j) ''refresh_token'' sock s
      else if msg = ''ERROR_MESSAGES_READ'' then Inr (s\<lparr>error_message_send := True\<rparr>)
      else Inr s)"

section \<open>The server task\<close>

text \<open>What \<open>recv\<close> can return; data has between 1 and 511 characters.\<close>

datatype received = Recv_failed | Recv_closed | Recv_data "char list"

definition receive_into :: "char list \<Rightarrow> char list \<Rightarrow> char list" where
  "receive_into cs buf = cs @ NUL # drop (length cs + 1) buf"

text \<open>The inner loop; when the list ends, the task is still waiting for the peer.\<close>

primrec connection_loop ::
    "'n nvs_ops \<Rightarrow> int \<Rightarrow> (received \<times> junk) list \<Rightarrow> ('n, 'z) tcp_scheme \<Rightarrow> fault + ('n, 'z) tcp_scheme" where
  "connection_loop ops sock [] s = Inl Still_running"
| "connection_loop ops sock (r # rs) s =
     (case r of
        (Recv_failed, j) \<Rightarrow> Inr s
      | (Recv_closed, j) \<Rightarrow> Inr s
      | (Recv_data cs, j) \<Rightarrow>
          (case message_handler ops j (length cs) sock (s\<lparr>rx_buffer := receive_into cs (rx_buffer s)\<rparr>) of
             Inl f \<Rightarrow> Inl f
           | Inr s \<Rightarrow> connection_loop ops sock rs s))"

record sockets =
  listen_sock :: int
  bind_err :: int
  listen_err :: int
  accepted :: int
  recvs :: "(received \<times> junk) list"

definition close_socket :: "int \<Rightarrow> ('n, 'z) tcp_scheme \<Rightarrow> ('n, 'z) tcp_scheme" where
  "close_socket sock s = s\<lparr>open_sockets := filter (\<lambda>x. x \<noteq> sock) (open_sockets s)\<rparr>"

definition open_socket :: "int \<Rightarrow> ('n, 'z) tcp_scheme \<Rightarrow> ('n, 'z) tcp_scheme" where
  "open_socket sock s = (if sock < 0 then s else s\<lparr>open_sockets := sock # open_sockets s\<rparr>)"

text \<open>One iteration of the outer loop.\<close>

definition tcp_server_iteration ::
    "'n nvs_ops \<Rightarrow> sockets \<Rightarrow> ('n, 'z) tcp_scheme \<Rightarrow> fault + ('n, 'z) tcp_scheme" where
  "tcp_server_iteration ops env s =
     (if listen_sock env < 0 then Inr s else
      let s = open_socket (listen_sock env) s in
      if bind_err env \<noteq> 0 then Inr (close_socket (listen_sock env) s) else
      if listen_err env \<noteq> 0 then Inr (close_socket (listen_sock env) s) else
      let sock = accepted env;
          s = open_socket sock s;
          s = (if transmit_error_flag s
               then send_socket sock (transmit s) s\<lparr>transmit_error_flag := False\<rparr> else s);
          s = s\<lparr>global_socket := sock\<rparr> in
      if sock < 0 then Inr (close_socket (listen_sock env) s) else
      case connection_loop ops sock (recvs env) s of
        Inl f \<Rightarrow> Inl f
      | Inr s \<Rightarrow>
          let s = (if sock \<noteq> - 1 then close_socket sock s\<lparr>global_socket := - 1\<rparr> else s)
          in Inr (close_socket (listen_sock env) s))"

primrec tcp_server_task ::
    "'n nvs_ops \<Rightarrow> sockets list \<Rightarrow> ('n, 'z) tcp_scheme \<Rightarrow> fault + ('n, 'z) tcp_scheme" where
  "tcp_server_task ops [] s = Inr s"
| "tcp_server_task ops (env # envs) s =
     (case tcp_server_iteration ops env s of Inl f \<Rightarrow> Inl f | Inr s \<Rightarrow> tcp_server_task ops envs s)"

interpretation connections: runner "tcp_server_iteration ops" "tcp_server_task ops"
  by unfold_locales simp_all

text \<open>Two operations of the interface that do nothing.\<close>

definition turn_lamp_on :: "u8 \<Rightarrow> ('n, 'z) tcp_scheme \<Rightarrow> ('n, 'z) tcp_scheme" where
  "turn_lamp_on a s = s"

definition turn_lamp_off :: "u8 \<Rightarrow> ('n, 'z) tcp_scheme \<Rightarrow> ('n, 'z) tcp_scheme" where
  "turn_lamp_off a s = s"

text \<open>Sending from the other tasks; \<open>transmit\<close> holds 128 characters.\<close>

definition send_tcp_message :: "string \<Rightarrow> ('n, 'z) tcp_scheme \<Rightarrow> fault + ('n, 'z) tcp_scheme" where
  "send_tcp_message message s =
     (if global_socket s = - 1
      then (if length message < 128 then Inr (s\<lparr>transmit_error_flag := True, transmit := message\<rparr>)
            else Inl Out_of_bounds)
      else Inr (send_socket (global_socket s) message s))"

end
