(* ===== verification/Nvs_Store.thy ===== *)
theory Nvs_Store
  imports Nvs_Handler
begin

text \<open>
  components/Nvs_handler, continued: the operations as a key-value store, the
  synchronisation of the stored ids with the bus, the listings of the ids, and a RAM
  implementation of the flash library on which the properties are exercised.
\<close>

section \<open>The operations on a working library\<close>

lemma write_u64_store:
  assumes "nvs_store ops view" and "length ns \<le> 15" and "length k \<le> 15"
  shows "view (drv (write_u64 ops ns k x s)) = put_entry ns k (Some (U64 x)) (view (drv s))"
proof -
  obtain h n1 where o: "nvs_open ops 0 ns s = (0, h, s\<lparr>drv := n1\<rparr>)" "handles (view (drv s)) h = None"
    "view n1 = (view (drv s))\<lparr>handles := (handles (view (drv s)))(h \<mapsto> ns)\<rparr>"
    by (rule nvs_openD [OF assms(1,2)])
  have h1: "handles (view (drv (s\<lparr>drv := n1\<rparr>))) h = Some ns" by (simp add: o)
  obtain n2 where s: "call (drv_set_u64 ops h k x) (s\<lparr>drv := n1\<rparr>) = (0, s\<lparr>drv := n2\<rparr>)"
    "view n2 = put_entry ns k (Some (U64 x)) (view n1)"
    using nvs_set_u64D [OF assms(1) h1 assms(3), of x] by auto
  have "handles (view (drv (s\<lparr>drv := n2\<rparr>))) h = Some ns" by (simp add: s o)
  from nvs_commitD [OF assms(1) this] obtain n3 where
    c: "call (drv_commit ops h) (s\<lparr>drv := n2\<rparr>) = (0, s\<lparr>drv := n3\<rparr>)" "view n3 = view n2"
    by auto
  show ?thesis
    by (simp add: write_u64_def o s c nvs_closeD [OF assms(1)] put_entry_def)
qed

definition u64_or :: "u64 \<Rightarrow> nvs_value option \<Rightarrow> u64" where
  "u64_or d v = (case v of Some (U64 x) \<Rightarrow> x | _ \<Rightarrow> d)"

lemma u64_or_U64 [simp]: "u64_or d (Some (U64 x)) = x" "u64_or d None = d"
  by (simp_all add: u64_or_def)

lemma read_u64_store:
  assumes "nvs_store ops view" and "length ns \<le> 15"
  shows "fst (read_u64 ops jh jv ns k s) = u64_or jv (entries (view (drv s)) ns k)"
    and "view (drv (snd (read_u64 ops jh jv ns k s))) = view (drv s)"
    and "blocks (snd (read_u64 ops jh jv ns k s)) = blocks s"
proof -
  obtain h n1 where o: "nvs_open ops jh ns s = (0, h, s\<lparr>drv := n1\<rparr>)" "handles (view (drv s)) h = None"
    "view n1 = (view (drv s))\<lparr>handles := (handles (view (drv s)))(h \<mapsto> ns)\<rparr>"
    by (rule nvs_openD [OF assms(1,2)])
  have h1: "handles (view (drv (s\<lparr>drv := n1\<rparr>))) h = Some ns" by (simp add: o)
  obtain n2 where g: "view n2 = view n1" "nvs_get_u64 ops h k jv (s\<lparr>drv := n1\<rparr>) =
      (case entries (view n1) ns k of
        Some (U64 u) \<Rightarrow> (0, u, s\<lparr>drv := n2\<rparr>) | _ \<Rightarrow> (ESP_ERR_NVS_NOT_FOUND, jv, s\<lparr>drv := n2\<rparr>))"
    using nvs_get_u64D [OF assms(1) h1, of k jv] by (auto cong: option.case_cong nvs_value.case_cong)
  have "read_u64 ops jh jv ns k s = (u64_or jv (entries (view (drv s)) ns k), nvs_close ops h (s\<lparr>drv := n2\<rparr>))"
    by (simp add: read_u64_def o g u64_or_def split: option.split nvs_value.split)
  then show "fst (read_u64 ops jh jv ns k s) = u64_or jv (entries (view (drv s)) ns k)"
    "view (drv (snd (read_u64 ops jh jv ns k s))) = view (drv s)"
    "blocks (snd (read_u64 ops jh jv ns k s)) = blocks s"
    by (simp_all add: nvs_closeD [OF assms(1)] g o)
qed

lemma nvs_delete_store:
  assumes "nvs_store ops view" and "length ns \<le> 15" and "entries (view (drv s)) ns k \<noteq> None"
  shows "view (drv (nvs_delete_key_value_pair ops ns k s)) = put_entry ns k None (view (drv s))"
proof -
  obtain h n1 where o: "nvs_open ops 0 ns s = (0, h, s\<lparr>drv := n1\<rparr>)" "handles (view (drv s)) h = None"
    "view n1 = (view (drv s))\<lparr>handles := (handles (view (drv s)))(h \<mapsto> ns)\<rparr>"
    by (rule nvs_openD [OF assms(1,2)])
  have "through_handle ops view n1 h ns"
    using assms(1) by (simp add: nvs_store_def o)
  from through_handleD(6) [OF this, of k] obtain n2 where
    e: "drv_erase_key ops h k n1 = (0, n2)" "view n2 = put_entry ns k None (view n1)"
    using assms(3) by (auto simp: o)
  have "handles (view (drv (s\<lparr>drv := n2\<rparr>))) h = Some ns" by (simp add: e o)
  from nvs_commitD [OF assms(1) this] obtain n3 where
    c: "call (drv_commit ops h) (s\<lparr>drv := n2\<rparr>) = (0, s\<lparr>drv := n3\<rparr>)" "view n3 = view n2"
    by auto
  have "call (drv_erase_key ops h k) (s\<lparr>drv := n1\<rparr>) = (0, s\<lparr>drv := n2\<rparr>)"
    by (simp add: call_def e)
  then show ?thesis
    by (simp add: nvs_delete_key_value_pair_def o e(2) c nvs_closeD [OF assms(1)] put_entry_def)
qed

lemma nvs_store_get_str:
  assumes "nvs_store ops view" and "handles (view (drv s)) h = Some ns"
  shows "\<exists>e v' n. nvs_get_str ops h k len v s = (e, v', s\<lparr>drv := n\<rparr>) \<and> view n = view (drv s)"
proof -
  have "through_handle ops view (drv s) h ns"
    using assms unfolding nvs_store_def by blast
  from through_handleD(4) [OF this, of k len] obtain n' where n': "view n' = view (drv s)"
    "drv_get_str ops h k len (drv s) = (case entries (view (drv s)) ns k of
       Some (Str v) \<Rightarrow> if length v < len then (0, v, n') else (0x110c, [], n')
     | _ \<Rightarrow> (ESP_ERR_NVS_NOT_FOUND, [], n'))"
    by blast
  then have "\<exists>e x. drv_get_str ops h k len (drv s) = (e, x, n')"
    by (simp split: option.split nvs_value.split)
  then show ?thesis
    using n'(1) by (auto simp: nvs_get_str_def)
qed

lemma authenticated_store:
  assumes "nvs_store ops view"
  shows "case entries (view (drv s)) ''authentication'' ''refresh_token'' of
      Some (Str u) \<Rightarrow> length u < 512 \<longrightarrow> fst (authenticated ops s)
    | _ \<Rightarrow> \<not> fst (authenticated ops s)"
    and "entries (view (drv (snd (authenticated ops s)))) = entries (view (drv s))"
proof -
  obtain h n1 where o: "nvs_open ops 0 ''authentication'' s = (0, h, s\<lparr>drv := n1\<rparr>)" "handles (view (drv s)) h = None"
    "view n1 = (view (drv s))\<lparr>handles := (handles (view (drv s)))(h \<mapsto> ''authentication'')\<rparr>"
    by (rule nvs_openD [OF assms]) auto
  have h1: "handles (view (drv (s\<lparr>drv := n1\<rparr>))) h = Some ''authentication''" by (simp add: o)
  obtain n2 where g: "view n2 = view n1" "case entries (view n1) ''authentication'' ''refresh_token'' of
        Some (Str u) \<Rightarrow> length u < 512 \<longrightarrow> nvs_get_str ops h ''refresh_token'' 512 [] (s\<lparr>drv := n1\<rparr>) = (0, u, s\<lparr>drv := n2\<rparr>)
      | _ \<Rightarrow> nvs_get_str ops h ''refresh_token'' 512 [] (s\<lparr>drv := n1\<rparr>) = (ESP_ERR_NVS_NOT_FOUND, [], s\<lparr>drv := n2\<rparr>)"
    using nvs_get_strD [OF assms h1, of "''refresh_token''" 512 "[]"] by (auto cong: option.case_cong nvs_value.case_cong)
  show "case entries (view (drv s)) ''authentication'' ''refresh_token'' of
      Some (Str u) \<Rightarrow> length u < 512 \<longrightarrow> fst (authenticated ops s)
    | _ \<Rightarrow> \<not> fst (authenticated ops s)"
    using g o(1,3) by (auto simp: authenticated_def ESP_ERR_NVS_NOT_FOUND_def split: option.splits nvs_value.splits)
  obtain e v n3 where r: "nvs_get_str ops h ''refresh_token'' 512 [] (s\<lparr>drv := n1\<rparr>) = (e, v, s\<lparr>drv := n3\<rparr>)"
    and n3: "view n3 = view n1"
    using nvs_store_get_str [OF assms h1, of "''refresh_token''" 512 "[]"] by auto
  then show "entries (view (drv (snd (authenticated ops s)))) = entries (view (drv s))"
    using o(1,3) by (auto simp: authenticated_def)
qed

section \<open>A key-value store\<close>

text \<open>
  What the rest of the firmware takes the operations for: a value put under a key is
  found there, and nowhere else, until another is put.
\<close>

locale kv_store =
  fixes put :: "'k \<Rightarrow> 'v \<Rightarrow> 's \<Rightarrow> bool \<times> 's"
    and find :: "'k \<Rightarrow> 's \<Rightarrow> 'v option"
    and ok :: "'s \<Rightarrow> bool"
    and fits :: "'k \<Rightarrow> 'v \<Rightarrow> bool"
    and legal :: "'k \<Rightarrow> bool"
  assumes put_ok: "ok s \<Longrightarrow> fits k v \<Longrightarrow> fst (put k v s) \<and> ok (snd (put k v s))"
    and find_put: "ok s \<Longrightarrow> fits k v \<Longrightarrow> legal k' \<Longrightarrow> find k' (snd (put k v s)) = (if k' = k then Some v else find k' s)"
begin

definition puts :: "('k \<times> 'v) list \<Rightarrow> 's \<Rightarrow> 's" where
  "puts kvs s = fold (\<lambda>(k, v) s. snd (put k v s)) kvs s"

lemma find_puts:
  assumes "ok s" and "\<forall>(k, v)\<in>set kvs. fits k v" and "legal k"
  shows "ok (puts kvs s) \<and>
    find k (puts kvs s) = (case map_of (rev kvs) k of Some v \<Rightarrow> Some v | None \<Rightarrow> find k s)"
  using assms(1,2)
proof (induction kvs arbitrary: s)
  case (Cons p kvs)
  obtain k' v where p: "p = (k', v)" by (cases p)
  have 1: "ok (snd (put k' v s))" and f: "fits k' v"
    using Cons.prems put_ok by (auto simp: p)
  from Cons.IH [OF 1] Cons.prems find_put [OF Cons.prems(1) f assms(3)] show ?case
    by (auto simp: p puts_def map_add_def split: option.split)
qed (simp add: puts_def)

end

text \<open>The strings kept under \<open>authentication\<close> and the ids kept under \<open>manu_id\<close>.\<close>

definition put_string :: "'n nvs_ops \<Rightarrow> string \<times> string \<Rightarrow> string \<Rightarrow> 'n flash \<Rightarrow> bool \<times> 'n flash" where
  "put_string ops = (\<lambda>(ns, k) v. nvs_set_string ops ns k v)"

definition find_string :: "'n nvs_ops \<Rightarrow> string \<times> string \<Rightarrow> 'n flash \<Rightarrow> string option" where
  "find_string ops = (\<lambda>(ns, k) s.
     case nvs_get_string ops True ns k [] s of (found, v, _) \<Rightarrow> if found then Some v else None)"

definition string_fits :: "string \<times> string \<Rightarrow> string \<Rightarrow> bool" where
  "string_fits = (\<lambda>(ns, k) v. length ns \<le> 15 \<and> length k \<le> 15 \<and> length v < 512)"

text \<open>The strings stored so far are short enough for the callers' buffers.\<close>

definition strings_ok :: "'n nvs_ops \<Rightarrow> ('n \<Rightarrow> nvs_view) \<Rightarrow> 'n flash \<Rightarrow> bool" where
  "strings_ok ops view s \<longleftrightarrow> nvs_store ops view \<and>
     (\<forall>ns k v. entries (view (drv s)) ns k = Some (Str v) \<longrightarrow> length v < 512 \<and> length ns \<le> 15)"

lemma find_string_store:
  assumes "strings_ok ops view s" and "length ns \<le> 15"
  shows "find_string ops (ns, k) s = (case entries (view (drv s)) ns k of Some (Str v) \<Rightarrow> Some v | _ \<Rightarrow> None)"
proof -
  have law: "nvs_store ops view" and short: "\<And>v. entries (view (drv s)) ns k = Some (Str v) \<Longrightarrow> length v < 512"
    using assms(1) by (auto simp: strings_ok_def)
  show ?thesis
    using nvs_get_string_store [OF law assms(2), where s = s and k = k and v = "[]"] short
    by (fastforce simp: find_string_def split: option.splits nvs_value.splits)
qed

text \<open>A read in terms of what is found: only a failure leaves the caller's buffer alone.\<close>

lemma get_string_find:
  assumes "strings_ok ops view s" and "length ns \<le> 15"
  shows "\<exists>s'. nvs_get_string ops True ns k old s
    = (case find_string ops (ns, k) s of Some v \<Rightarrow> (True, v, s') | None \<Rightarrow> (False, old, s'))"
proof -
  have law: "nvs_store ops view" and short: "\<And>v. entries (view (drv s)) ns k = Some (Str v) \<Longrightarrow> length v < 512"
    using assms(1) by (auto simp: strings_ok_def)
  show ?thesis
    using nvs_get_string_store [OF law assms(2), where s = s and k = k and v = old] short
      find_string_store [OF assms, of k]
    by (fastforce split: option.splits nvs_value.splits)
qed

lemma put_string_store:
  assumes "strings_ok ops view s" and "string_fits (ns, k) v"
  shows "fst (put_string ops (ns, k) v s)" and "strings_ok ops view (snd (put_string ops (ns, k) v s))"
    and "entries (view (drv (snd (put_string ops (ns, k) v s)))) ns' k'
      = (if ns' = ns \<and> k' = k then Some (Str v) else entries (view (drv s)) ns' k')"
proof -
  have law: "nvs_store ops view" and len: "length ns \<le> 15" "length k \<le> 15" "length v < 512"
    using assms by (auto simp: strings_ok_def string_fits_def)
  obtain s' where s': "nvs_set_string ops ns k v s = (True, s')"
    "view (drv s') = put_entry ns k (Some (Str v)) (view (drv s))"
    using nvs_set_string_store [OF law len(1,2), of v s] by blast
  show "fst (put_string ops (ns, k) v s)" "strings_ok ops view (snd (put_string ops (ns, k) v s))"
    "entries (view (drv (snd (put_string ops (ns, k) v s)))) ns' k'
      = (if ns' = ns \<and> k' = k then Some (Str v) else entries (view (drv s)) ns' k')"
    using assms len by (auto simp: put_string_def s' strings_ok_def split: if_splits)
qed

interpretation strings: kv_store "put_string ops" "find_string ops" "strings_ok ops view" string_fits
    "\<lambda>(ns, k). length ns \<le> 15"
  for ops :: "'n nvs_ops" and view
proof (unfold_locales, goal_cases)
  case (1 s key v)
  then show ?case by (cases key) (simp add: put_string_store)
next
  case (2 s key v key')
  obtain ns k where key: "key = (ns, k)" by (cases key)
  obtain ns' k' where key': "key' = (ns', k')" by (cases key')
  have "length ns' \<le> 15" using 2(3) by (simp add: key')
  then show ?case
    using 2 find_string_store [of ops view] put_string_store(2,3) [of ops view s ns k v]
    by (simp add: key key')
qed

definition put_id :: "'n nvs_ops \<Rightarrow> string \<Rightarrow> u64 \<Rightarrow> 'n flash \<Rightarrow> bool \<times> 'n flash" where
  "put_id ops k v s = (True, nvs_write_manufactoring_id ops k v s)"

definition find_id :: "'n nvs_ops \<Rightarrow> nat \<Rightarrow> string \<Rightarrow> 'n flash \<Rightarrow> u64 option" where
  "find_id ops jh k s =
     (let x = fst (nvs_read_manufactoring_id ops jh 0 k s); y = fst (nvs_read_manufactoring_id ops jh 1 k s)
      in if x = y then Some x else None)"

lemma find_id_store:
  assumes "nvs_store ops view"
  shows "find_id ops jh k s = (case entries (view (drv s)) ''manu_id'' k of Some (U64 x) \<Rightarrow> Some x | _ \<Rightarrow> None)"
  using read_u64_store(1) [OF assms, of "''manu_id''"]
  by (simp add: find_id_def nvs_read_manufactoring_id_def u64_or_def split: option.split nvs_value.split)

interpretation ids: kv_store "put_id ops" "find_id ops jh" "\<lambda>_. nvs_store ops view" "\<lambda>k _. length k \<le> 15" "\<lambda>_. True"
  for ops :: "'n nvs_ops" and view jh
  by unfold_locales
    (simp_all add: put_id_def find_id_store nvs_write_manufactoring_id_def write_u64_store)

section \<open>A library in memory\<close>

record ram =
  ram_entries :: "((string \<times> string) \<times> nvs_value) list"
  ram_handles :: "(nat \<times> string) list"

definition ram_view :: "ram \<Rightarrow> nvs_view" where
  "ram_view r = \<lparr>entries = (\<lambda>ns k. map_of (ram_entries r) (ns, k)), handles = map_of (ram_handles r)\<rparr>"

definition ram_set :: "nat \<Rightarrow> string \<Rightarrow> nvs_value \<Rightarrow> ram \<Rightarrow> esp_err \<times> ram" where
  "ram_set h k v r = (case map_of (ram_handles r) h of
     None \<Rightarrow> (0x1107, r)
   | Some ns \<Rightarrow> if length k \<le> 15 then (0, r\<lparr>ram_entries := ((ns, k), v) # ram_entries r\<rparr>) else (0x1109, r))"

definition ram_get :: "nat \<Rightarrow> string \<Rightarrow> ram \<Rightarrow> nvs_value option" where
  "ram_get h k r = (case map_of (ram_handles r) h of None \<Rightarrow> None | Some ns \<Rightarrow> map_of (ram_entries r) (ns, k))"

definition ram_ops :: "ram nvs_ops" where
  "ram_ops = \<lparr>
     flash_init = (\<lambda>r. (0, r)), flash_erase = (\<lambda>r. (0, r\<lparr>ram_entries := []\<rparr>)),
     drv_open = (\<lambda>ns r. let h = Suc (foldr max (map fst (ram_handles r)) 0)
        in (0, h, r\<lparr>ram_handles := (h, ns) # ram_handles r\<rparr>)),
     drv_close = (\<lambda>h r. r\<lparr>ram_handles := filter (\<lambda>p. fst p \<noteq> h) (ram_handles r)\<rparr>),
     drv_commit = (\<lambda>h r. (0, r)),
     drv_set_str = (\<lambda>h k v. ram_set h k (Str v)),
     drv_get_str = (\<lambda>h k len r. case ram_get h k r of
        Some (Str v) \<Rightarrow> if length v < len then (0, v, r) else (0x110c, [], r)
      | _ \<Rightarrow> (ESP_ERR_NVS_NOT_FOUND, [], r)),
     drv_set_u8 = (\<lambda>h k v. ram_set h k (U8 v)),
     drv_get_u8 = (\<lambda>h k r. case ram_get h k r of Some (U8 v) \<Rightarrow> (0, v, r) | _ \<Rightarrow> (ESP_ERR_NVS_NOT_FOUND, 0, r)),
     drv_set_u64 = (\<lambda>h k v. ram_set h k (U64 v)),
     drv_get_u64 = (\<lambda>h k r. case ram_get h k r of Some (U64 v) \<Rightarrow> (0, v, r) | _ \<Rightarrow> (ESP_ERR_NVS_NOT_FOUND, 0, r)),
     drv_erase_key = (\<lambda>h k r. case map_of (ram_handles r) h of
        None \<Rightarrow> (0x1107, r)
      | Some ns \<Rightarrow> (0, r\<lparr>ram_entries := filter (\<lambda>p. fst p \<noteq> (ns, k)) (ram_entries r)\<rparr>)),
     drv_used_entry_count = (\<lambda>h r. case map_of (ram_handles r) h of
        None \<Rightarrow> (0x1107, 0, r)
      | Some ns \<Rightarrow> (0, card (set (map fst (filter (\<lambda>p. fst (fst p) = ns) (ram_entries r)))), r))\<rparr>"

lemma map_of_filter_key: "map_of (filter (\<lambda>p. fst p \<noteq> a) xs) = (map_of xs)(a := None)"
  by (induction xs) (auto simp: fun_eq_iff)

lemma fresh_handle: "map_of hs (Suc (foldr max (map fst hs) 0)) = None"
proof -
  have "x \<le> foldr max xs 0" if "x \<in> set xs" for x :: nat and xs
    using that by (induction xs) auto
  from this [of _ "map fst hs"] have "Suc (foldr max (map fst hs) 0) \<notin> set (map fst hs)"
    by (metis not_less_eq_eq order_refl)
  then show ?thesis by (simp add: map_of_eq_None_iff)
qed

lemma nvs_store_ram: "nvs_store ram_ops ram_view"
proof -
  have keys: "dom (\<lambda>k. map_of es (ns, k)) = snd ` set (map fst (filter (\<lambda>p. fst (fst p) = ns) es))"
    for es :: "((string \<times> string) \<times> nvs_value) list" and ns
    by (force simp: dom_def image_iff map_of_eq_None_iff [symmetric] dest: map_of_SomeD
        intro: weak_map_of_SomeI)
  have inj: "inj_on snd (set (map fst (filter (\<lambda>p. fst (fst p) = ns) es)))"
    for es :: "((string \<times> string) \<times> nvs_value) list" and ns
    by (auto simp: inj_on_def)
  have card: "card (dom (\<lambda>k. map_of es (ns, k))) = card (set (map fst (filter (\<lambda>p. fst (fst p) = ns) es)))"
    for es :: "((string \<times> string) \<times> nvs_value) list" and ns
    unfolding keys by (rule card_image [OF inj])
  have zero: "card (set (map fst (filter (\<lambda>p. fst (fst p) = ns) es))) = 0 \<longleftrightarrow> (\<lambda>k. map_of es (ns, k)) = Map.empty"
    for es :: "((string \<times> string) \<times> nvs_value) list" and ns
    unfolding card [symmetric] by (simp add: keys card_eq_0_iff) (simp add: dom_eq_empty_conv [symmetric] keys)
  have thr: "through_handle ram_ops ram_view n h ns" if "handles (ram_view n) h = Some ns" for n h ns
    using that unfolding through_handle_def ram_ops_def
    by (auto simp: ram_view_def ram_set_def ram_get_def put_entry_def fun_eq_iff map_of_filter_key card zero
        split: option.split nvs_value.split) (force simp: map_of_eq_None_iff image_iff)+
  show ?thesis
    unfolding nvs_store_def
    by (auto simp: thr) (simp_all add: ram_ops_def ram_view_def Let_def fresh_handle map_of_filter_key)
qed

section \<open>Synchronising with the bus\<close>

text \<open>The id read over the bus for a device, with the uninitialised bytes \<open>bytes\<close>.\<close>

definition bus_id :: "(u8 \<Rightarrow> u8 \<Rightarrow> u8 \<Rightarrow> u8 option) \<Rightarrow> u8 list \<Rightarrow> Device_t \<Rightarrow> u64" where
  "bus_id M bytes d = combine_bytes (map (\<lambda>p. answer_or (snd p) (M (short_address d) 0 (fst p)))
     (zip manufactor_id_locations bytes))"

lemma bus_id_update [simp]: "bus_id M bytes (d\<lparr>manufactoring_id := x\<rparr>) = bus_id M bytes d"
  by (simp add: bus_id_def)

lemma read_bus_id:
  assumes "holds bus mview M l" and "short_address d < 64" and "length bytes = 8"
  obtains l' where "read_manufactor_id bus bytes (short_address d) l = (bus_id M bytes d, l')"
    and "holds bus mview M l'"
  using read_manufactor_id [OF assms] by (cases "read_manufactor_id bus bytes (short_address d) l")
    (simp add: bus_id_def)

definition put_ids :: "(nat \<Rightarrow> u64) \<Rightarrow> nat list \<Rightarrow> nvs_view \<Rightarrow> nvs_view" where
  "put_ids f is w = fold (\<lambda>i. put_entry ''manu_id'' (dec i) (Some (U64 (f i)))) is w"

lemma put_ids_simps:
  "handles (put_ids f is w) = handles w"
  "entries (put_ids f is w) ''manu_id'' (dec i) = (if i \<in> set is then Some (U64 (f i)) else entries w ''manu_id'' (dec i))"
  by (induction "is" arbitrary: w) (auto simp: put_ids_def)

definition write_ids :: "(nat \<Rightarrow> u64) \<Rightarrow> nat list \<Rightarrow> Device_t list \<Rightarrow> Device_t list" where
  "write_ids f is ds = fold (\<lambda>i ds. ds[i := (ds ! i)\<lparr>manufactoring_id := f i\<rparr>]) is ds"

lemma length_write_ids [simp]: "length (write_ids f is ds) = length ds"
  by (induction "is" arbitrary: ds) (auto simp: write_ids_def)

lemma nth_write_ids:
  "i < length ds \<Longrightarrow> write_ids f is ds ! i = (if i \<in> set is then (ds ! i)\<lparr>manufactoring_id := f i\<rparr> else ds ! i)"
proof (induction "is" arbitrary: ds)
  case (Cons a "is")
  then show ?case by (cases "a = i") (auto simp: write_ids_def)
qed (simp add: write_ids_def)

lemma dec_key: "i < 256 \<Longrightarrow> length (dec i) \<le> 15"
  using length_dec [of i 3] by simp

lemma sync_store_loop_store:
  assumes law: "nvs_store ops view" and "handles (view (drv s)) h = Some ''manu_id''"
    and "holds bus mview M l" and bytes: "length bytes = 8"
    and "\<forall>i\<in>set is. i < length ds \<and> i < 256" and "\<forall>d\<in>set ds. short_address d < 64"
    and "distinct is"
  shows "\<exists>s' l'. sync_store_loop ops bus bytes h is ds s l
      = Inr (True, write_ids (\<lambda>i. bus_id M bytes (ds ! i)) is ds, s', l')
    \<and> view (drv s') = put_ids (\<lambda>i. bus_id M bytes (ds ! i)) is (view (drv s)) \<and> holds bus mview M l'"
  using assms(2,3,5-)
proof (induction "is" arbitrary: ds s l)
  case Nil
  then show ?case by (simp add: write_ids_def put_ids_def)
next
  case (Cons i "is")
  let ?d = "ds ! i" and ?x = "bus_id M bytes (ds ! i)"
  have i: "i < length ds" "i < 256" using Cons.prems(3) by auto
  then have "short_address ?d < 64" using Cons.prems(4) by simp
  from read_bus_id [OF Cons.prems(2) this bytes] obtain l1
    where r: "read_manufactor_id bus bytes (short_address ?d) l = (?x, l1)" "holds bus mview M l1" .
  obtain n1 where c: "call (drv_set_u64 ops h (dec i) ?x) s = (0, s\<lparr>drv := n1\<rparr>)"
    "view n1 = put_entry ''manu_id'' (dec i) (Some (U64 ?x)) (view (drv s))"
    using nvs_set_u64D [OF law Cons.prems(1) dec_key [OF i(2)]] by blast
  let ?ds = "ds[i := ?d\<lparr>manufactoring_id := ?x\<rparr>]"
  have short: "\<forall>d\<in>set ?ds. short_address d < 64"
    using Cons.prems(4) i(1) by (auto dest!: set_update_subset_insert [THEN subsetD])
  have same: "bus_id M bytes (?ds ! j) = bus_id M bytes (ds ! j)" for j
    using i(1) by (cases "j = i") auto
  have "handles (view (drv (s\<lparr>drv := n1\<rparr>))) h = Some ''manu_id''"
    using Cons.prems(1) by (simp add: c)
  from Cons.IH [OF this r(2), of ?ds] obtain s' l' where
    "sync_store_loop ops bus bytes h is ?ds (s\<lparr>drv := n1\<rparr>) l1
      = Inr (True, write_ids (\<lambda>i. bus_id M bytes (ds ! i)) is ?ds, s', l')"
    "view (drv s') = put_ids (\<lambda>i. bus_id M bytes (ds ! i)) is (view n1)" "holds bus mview M l'"
    unfolding same using short Cons.prems(3,5) by auto
  then show ?case
    using i(1) by (simp add: nth_device_def r(1) c write_ids_def put_ids_def)
qed

lemma sync_find_loop_finds:
  assumes "holds bus mview M l" and bytes: "length bytes = 8"
    and "\<forall>j\<in>set js. j < length ds" and "\<forall>d\<in>set ds. short_address d < 64"
  shows "\<exists>l'. sync_find_loop bus bytes v js ds l = Inr (\<exists>j\<in>set js. bus_id M bytes (ds ! j) = v, l') \<and> holds bus mview M l'"
  using assms(1,3)
proof (induction js arbitrary: l)
  case (Cons j js)
  have "j < length ds" using Cons.prems(2) by simp
  then have "short_address (ds ! j) < 64" using assms(4) by simp
  from read_bus_id [OF Cons.prems(1) this bytes] obtain l1
    where r: "read_manufactor_id bus bytes (short_address (ds ! j)) l = (bus_id M bytes (ds ! j), l1)"
      "holds bus mview M l1" .
  from Cons.IH [OF r(2)] Cons.prems(2) r \<open>j < length ds\<close> show ?case
    by (auto simp: nth_device_def)
qed simp

definition found_id :: "nvs_view \<Rightarrow> (nat \<Rightarrow> u64) \<Rightarrow> nat \<Rightarrow> nat \<Rightarrow> u64 option" where
  "found_id w f n i = (case entries w ''manu_id'' (dec i) of
     Some (U64 v) \<Rightarrow> if \<exists>j\<in>set [0..<n]. f j = v then Some v else None | _ \<Rightarrow> None)"

text \<open>One round of the check loop: the entry of device \<open>i\<close> is compared with the identities on the bus.\<close>

lemma sync_check_step:
  assumes law: "nvs_store ops view" and "handles (view (drv s)) h = Some ''manu_id''"
    and "holds bus mview M l" and bytes: "length bytes = 8" and "n \<le> length ds"
    and i: "i < length ds" and "\<forall>d\<in>set ds. short_address d < 64"
  shows "\<exists>n1 l1. view n1 = view (drv s) \<and> holds bus mview M l1
    \<and> sync_check_loop ops bus bytes jv h n (i # is) ds s l = sync_check_loop ops bus bytes jv h n is
        (case found_id (view (drv s)) (\<lambda>j. bus_id M bytes (ds ! j)) n i of
           Some v \<Rightarrow> ds[i := (ds ! i)\<lparr>manufactoring_id := v\<rparr>] | None \<Rightarrow> ds) (s\<lparr>drv := n1\<rparr>) l1"
proof -
  let ?w = "view (drv s)" and ?f = "\<lambda>j. bus_id M bytes (ds ! j)"
  obtain n1 where g: "view n1 = ?w" "nvs_get_u64 ops h (dec i) jv s =
      (case entries ?w ''manu_id'' (dec i) of
        Some (U64 u) \<Rightarrow> (0, u, s\<lparr>drv := n1\<rparr>) | _ \<Rightarrow> (ESP_ERR_NVS_NOT_FOUND, jv, s\<lparr>drv := n1\<rparr>))"
    using nvs_get_u64D [OF law assms(2), of "dec i" jv] by blast
  show ?thesis
  proof (cases "\<exists>v. entries ?w ''manu_id'' (dec i) = Some (U64 v)")
    case False
    then have "nvs_get_u64 ops h (dec i) jv s = (ESP_ERR_NVS_NOT_FOUND, jv, s\<lparr>drv := n1\<rparr>)"
      "found_id ?w ?f n i = None"
      using g(2) by (auto simp: found_id_def split: option.splits nvs_value.splits)
    then show ?thesis
      using assms(3) g(1) by (intro exI [of _ n1] exI [of _ l]) (simp add: ESP_ERR_NVS_NOT_FOUND_def)
  next
    case True
    then obtain v where v: "entries ?w ''manu_id'' (dec i) = Some (U64 v)" by blast
    from sync_find_loop_finds [OF assms(3) bytes _ assms(7), of "[0..<n]" v] assms(5)
    obtain l1 where l1: "sync_find_loop bus bytes v [0..<n] ds l
        = Inr (\<exists>j\<in>set [0..<n]. ?f j = v, l1)" "holds bus mview M l1" by auto
    have "found_id ?w ?f n i = (if \<exists>j\<in>set [0..<n]. ?f j = v then Some v else None)"
      by (simp add: found_id_def v)
    then show ?thesis
      using g l1 i
      by (intro exI [of _ n1] exI [of _ l1]; cases "\<exists>j\<in>set [0..<n]. ?f j = v")
        (simp_all add: v ESP_ERR_NVS_NOT_FOUND_def del: set_upt)
  qed
qed

lemma sync_check_loop_checks:
  assumes law: "nvs_store ops view" and "handles (view (drv s)) h = Some ''manu_id''"
    and "holds bus mview M l" and bytes: "length bytes = 8" and "n \<le> length ds"
    and "\<forall>i\<in>set is. i < length ds" and "\<forall>d\<in>set ds. short_address d < 64" and "distinct is"
  shows "\<exists>ds' s' l'. sync_check_loop ops bus bytes jv h n is ds s l = Inr (ds', s', l')
    \<and> length ds' = length ds
    \<and> (\<forall>i<length ds. ds' ! i = (if i \<in> set is
        then case found_id (view (drv s)) (\<lambda>j. bus_id M bytes (ds ! j)) n i of
               Some v \<Rightarrow> (ds ! i)\<lparr>manufactoring_id := v\<rparr> | None \<Rightarrow> ds ! i
        else ds ! i))
    \<and> view (drv s') = view (drv s) \<and> holds bus mview M l'"
  using assms(2,3,5-)
proof (induction "is" arbitrary: ds s l)
  case Nil
  then show ?case by simp
next
  case (Cons i "is")
  let ?w = "view (drv s)" and ?f = "\<lambda>j. bus_id M bytes (ds ! j)"
  have i: "i < length ds" using Cons.prems(4) by simp
  let ?ds = "case found_id ?w ?f n i of Some v \<Rightarrow> ds[i := (ds ! i)\<lparr>manufactoring_id := v\<rparr>] | None \<Rightarrow> ds"
  have same: "bus_id M bytes (?ds ! j) = bus_id M bytes (ds ! j)" for j
    using i by (cases "j = i") (auto split: option.split)
  have short: "\<forall>d\<in>set ?ds. short_address d < 64"
    using Cons.prems(5) i by (auto dest!: set_update_subset_insert [THEN subsetD] split: option.split)
  have len: "length ?ds = length ds" by (simp split: option.split)
  obtain n1 l1 where g: "view n1 = ?w"
    and l1: "sync_check_loop ops bus bytes jv h n (i # is) ds s l
      = sync_check_loop ops bus bytes jv h n is ?ds (s\<lparr>drv := n1\<rparr>) l1" "holds bus mview M l1"
    using sync_check_step [OF law Cons.prems(1,2) bytes Cons.prems(3) i Cons.prems(5), of jv "is"] by blast
  have h1: "handles (view (drv (s\<lparr>drv := n1\<rparr>))) h = Some ''manu_id''"
    using Cons.prems(1) by (simp add: g)
  have "\<exists>ds' s' l'. sync_check_loop ops bus bytes jv h n is ?ds (s\<lparr>drv := n1\<rparr>) l1 = Inr (ds', s', l')
    \<and> length ds' = length ?ds
    \<and> (\<forall>j<length ?ds. ds' ! j = (if j \<in> set is
        then case found_id (view (drv (s\<lparr>drv := n1\<rparr>))) (\<lambda>j. bus_id M bytes (?ds ! j)) n j of
               Some v \<Rightarrow> (?ds ! j)\<lparr>manufactoring_id := v\<rparr> | None \<Rightarrow> ?ds ! j
        else ?ds ! j))
    \<and> view (drv s') = view (drv (s\<lparr>drv := n1\<rparr>)) \<and> holds bus mview M l'"
    using Cons.prems(3,4,6) short by (intro Cons.IH [OF h1 l1(2)]) (auto split: option.split)
  then obtain ds' s' l' where ih: "sync_check_loop ops bus bytes jv h n is ?ds (s\<lparr>drv := n1\<rparr>) l1 = Inr (ds', s', l')"
    "length ds' = length ds" "view (drv s') = ?w" "holds bus mview M l'"
    and nth: "\<And>j. j < length ds \<Longrightarrow> ds' ! j = (if j \<in> set is
        then case found_id ?w ?f n j of Some v \<Rightarrow> (?ds ! j)\<lparr>manufactoring_id := v\<rparr> | None \<Rightarrow> ?ds ! j
        else ?ds ! j)"
    unfolding same len by (auto simp: g)
  have "ds' ! j = (if j \<in> set (i # is) then case found_id ?w ?f n j of
      Some v \<Rightarrow> (ds ! j)\<lparr>manufactoring_id := v\<rparr> | None \<Rightarrow> ds ! j else ds ! j)" if "j < length ds" for j
    using nth [OF that] Cons.prems(6) i that by (cases "j = i") (auto split: option.split)
  then show ?case
    using l1(1) ih by (intro exI [of _ ds'] exI [of _ s'] exI [of _ l']) simp
qed

section \<open>Properties\<close>

text \<open>
  C22: \<open>nvs_set_string\<close> and \<open>nvs_get_string\<close> are a key-value store (namespaces and keys of
  at most 15 characters, values shorter than 512). After any sequence of writes a read
  gives the last value written under its key; a key that was not written reads as it did
  before them: the string that was there, or, if there was none, failure with the
  caller's buffer left as it is. No write is seen under another key.
\<close>

theorem stored_strings_are_found:
  assumes "strings_ok ops view s" and "\<forall>((ns, k), v)\<in>set kvs. string_fits (ns, k) v"
    and "length ns \<le> 15"
  shows "\<exists>s'. nvs_get_string ops True ns k old
      (fold (\<lambda>((ns, k), v) s. snd (nvs_set_string ops ns k v s)) kvs s) =
    (case map_of (rev kvs) (ns, k) of
       Some v \<Rightarrow> (True, v, s')
     | None \<Rightarrow> (case entries (view (drv s)) ns k of
           Some (Str v) \<Rightarrow> (True, v, s')
         | _ \<Rightarrow> (False, old, s')))"
proof -
  let ?s = "fold (\<lambda>((ns, k), v) s. snd (nvs_set_string ops ns k v s)) kvs s"
  have puts: "?s = strings.puts ops kvs s"
    unfolding strings.puts_def unfolding put_string_def by (simp add: split_beta')
  have ok: "strings_ok ops view (strings.puts ops kvs s)"
    and found: "find_string ops (ns, k) (strings.puts ops kvs s)
      = (case map_of (rev kvs) (ns, k) of Some v \<Rightarrow> Some v | None \<Rightarrow> find_string ops (ns, k) s)"
    using strings.find_puts [OF assms(1), where kvs = kvs and k = "(ns, k)"] assms(2,3)
    by (auto simp: split_beta')
  show ?thesis
    unfolding puts using get_string_find [OF ok assms(3), of k old] found find_string_store [OF assms(1,3), of k]
    by (auto split: option.splits nvs_value.splits)
qed

definition empty_ram :: "ram flash" where
  "empty_ram = \<lparr>drv = \<lparr>ram_entries = [], ram_handles = []\<rparr>, blocks = 0\<rparr>"

lemma strings_ok_empty: "strings_ok ram_ops ram_view empty_ram"
  by (simp add: strings_ok_def nvs_store_ram empty_ram_def ram_view_def)

lemma stored_strings_are_found_witness:
  "(let s = fold (\<lambda>((ns, k), v) s. snd (nvs_set_string ram_ops ns k v s))
        [((''authentication'', ''access_token''), ''a1''), ((''authentication'', ''refresh_token''), ''r1''),
         ((''authentication'', ''access_token''), ''a2'')] empty_ram
    in (\<exists>s'. nvs_get_string ram_ops True ''authentication'' ''access_token'' [] s = (True, ''a2'', s'))
      \<and> (\<exists>s'. nvs_get_string ram_ops True ''authentication'' ''username'' ''??'' s = (False, ''??'', s')))"
proof -
  let ?kvs = "[((''authentication'', ''access_token''), ''a1''), ((''authentication'', ''refresh_token''), ''r1''),
    ((''authentication'', ''access_token''), ''a2'')]"
  have fits: "\<forall>((ns, k), v)\<in>set ?kvs. string_fits (ns, k) v"
    by (simp add: string_fits_def)
  have empty: "entries (ram_view (drv empty_ram)) ns k = None" for ns k
    by (simp add: empty_ram_def ram_view_def)
  note found = stored_strings_are_found [OF strings_ok_empty fits, of "''authentication''"]
  have "\<exists>s'. nvs_get_string ram_ops True ''authentication'' ''access_token'' []
      (fold (\<lambda>((ns, k), v) s. snd (nvs_set_string ram_ops ns k v s)) ?kvs empty_ram) = (True, ''a2'', s')"
    using found [of "''access_token''" "[]"] by simp
  moreover have "\<exists>s'. nvs_get_string ram_ops True ''authentication'' ''username'' ''??''
      (fold (\<lambda>((ns, k), v) s. snd (nvs_set_string ram_ops ns k v s)) ?kvs empty_ram) = (False, ''??'', s')"
    using found [of "''username''" "''??''"] by (simp add: empty)
  ultimately show ?thesis
    unfolding Let_def by (rule conjI)
qed

text \<open>
  \<open>nvs_get_string\<close> never closes its handle and never frees its buffer when it succeeds:
  n successful reads leave n more open handles and n more blocks on the heap.
\<close>

theorem successful_reads_leak_handles:
  fixes ops :: "'n nvs_ops" and s :: "'n flash" and n :: nat and ns k u :: string
  assumes "nvs_store ops view" and "length ns \<le> 15" and "finite (dom (handles (view (drv s))))"
    and "entries (view (drv s)) ns k = Some (Str u)" and "length u < 512"
  defines "s' \<equiv> ((\<lambda>s. snd (snd (nvs_get_string ops True ns k [] s))) ^^ n) s"
  shows "card (dom (handles (view (drv s')))) = card (dom (handles (view (drv s)))) + n
    \<and> blocks s' = blocks s + n \<and> fst (nvs_get_string ops True ns k [] s')"
proof -
  let ?get = "\<lambda>s. nvs_get_string ops True ns k [] s"
  let ?good = "\<lambda>n s'. finite (dom (handles (view (drv s')))) \<and> entries (view (drv s')) ns k = Some (Str u)
    \<and> card (dom (handles (view (drv s')))) = card (dom (handles (view (drv s)))) + n \<and> blocks s' = blocks s + n"
  have step: "fst (?get t) \<and> ?good (Suc m) (snd (snd (?get t)))" if "?good m t" for m t
    using nvs_get_string_store [OF assms(1,2), where s = t and k = k and v = "[]"] that assms(5)
    by (auto simp: card_insert_if domIff)
  have "?good n (((\<lambda>s. snd (snd (?get s))) ^^ n) s)"
    by (induction n) (use assms(3,4) step in auto)
  then show ?thesis
    using step by (auto simp: s'_def)
qed

lemma successful_reads_leak_handles_witness:
  "card (dom (handles (ram_view (drv (((\<lambda>s. snd (snd (nvs_get_string ram_ops True ''authentication'' ''email'' [] s))) ^^ 3)
     (snd (nvs_set_string ram_ops ''authentication'' ''email'' ''a@b'' empty_ram))))))) = 3"
proof -
  obtain s' where "nvs_set_string ram_ops ''authentication'' ''email'' ''a@b'' empty_ram = (True, s')"
    "ram_view (drv s') = put_entry ''authentication'' ''email'' (Some (Str ''a@b'')) (ram_view (drv empty_ram))"
    using nvs_set_string_store [OF nvs_store_ram, of "''authentication''" "''email''" "''a@b''" empty_ram] by auto
  then show ?thesis
    using successful_reads_leak_handles [OF nvs_store_ram, of "''authentication''" s' "''email''" "''a@b''" 3]
    by (simp add: empty_ram_def ram_view_def put_entry_def)
qed

text \<open>
  C20: On first use, with nothing stored under \<open>manu_id\<close>, synchronisation stores the id of
  device i, as read over the bus, under key i, for every device, enters it in the device
  table, and reports success.
\<close>

theorem first_synchronisation_stores_all_ids:
  assumes "nvs_store ops view" and "entries (view (drv s)) ''manu_id'' = Map.empty"
    and "holds bus mview M l" and "length bytes = 8" and "unat n \<le> length ds"
    and "\<forall>d\<in>set ds. short_address d < 64"
  shows "\<exists>ds' s' l'. nvs_synchronize ops bus bytes jv n ds s l = Inr (True, ds', s', l')
    \<and> length ds' = length ds
    \<and> (\<forall>i<length ds. ds' ! i = (if i < unat n then (ds ! i)\<lparr>manufactoring_id := bus_id M bytes (ds ! i)\<rparr> else ds ! i))
    \<and> (\<forall>i<unat n. entries (view (drv s')) ''manu_id'' (dec i) = Some (U64 (bus_id M bytes (ds ! i))))"
proof -
  obtain h n1 where o: "nvs_open ops 0 ''manu_id'' s = (0, h, s\<lparr>drv := n1\<rparr>)" "handles (view (drv s)) h = None"
    "view n1 = (view (drv s))\<lparr>handles := (handles (view (drv s)))(h \<mapsto> ''manu_id'')\<rparr>"
    by (rule nvs_openD [OF assms(1)]) auto
  have h1: "handles (view (drv (s\<lparr>drv := n1\<rparr>))) h = Some ''manu_id''" by (simp add: o)
  obtain n2 where c: "call (\<lambda>d. case drv_used_entry_count ops h d of (e, c, d) \<Rightarrow> ((e, c), d)) (s\<lparr>drv := n1\<rparr>)
      = ((0, 0), s\<lparr>drv := n2\<rparr>)" "view n2 = view n1"
    using nvs_countD [OF assms(1) h1] assms(2) by (auto simp: o)
  have h2: "handles (view (drv (s\<lparr>drv := n2\<rparr>))) h = Some ''manu_id''" by (simp add: c o)
  have small: "unat n < 256" using unsigned_less [of n, where ?'a = nat] by simp
  obtain s3 l3 where st: "sync_store_loop ops bus bytes h [0..<unat n] ds (s\<lparr>drv := n2\<rparr>) l
      = Inr (True, write_ids (\<lambda>i. bus_id M bytes (ds ! i)) [0..<unat n] ds, s3, l3)"
    "view (drv s3) = put_ids (\<lambda>i. bus_id M bytes (ds ! i)) [0..<unat n] (view n2)" "holds bus mview M l3"
    using sync_store_loop_store [OF assms(1) h2 assms(3,4), of "[0..<unat n]" ds] assms(5,6) small by auto
  have "handles (view (drv s3)) h = Some ''manu_id''"
    using h2 by (simp add: st(2) put_ids_simps)
  from nvs_commitD [OF assms(1) this] obtain n4 where
    cm: "call (drv_commit ops h) s3 = (0, s3\<lparr>drv := n4\<rparr>)" "view n4 = view (drv s3)" by auto
  have "nvs_synchronize ops bus bytes jv n ds s l
      = Inr (True, write_ids (\<lambda>i. bus_id M bytes (ds ! i)) [0..<unat n] ds, s3\<lparr>drv := n4\<rparr>, l3)"
    by (simp add: nvs_synchronize_def o(1) c(1) st(1) cm(1))
  then show ?thesis
    by (auto simp: nth_write_ids cm(2) st(2) put_ids_simps)
qed

definition device :: "u8 \<Rightarrow> Device_t" where
  "device a = \<lparr>short_address = a, manufactoring_id = 0, refresh_token = []\<rparr>"

text \<open>Two gears whose ids are 4 and 5 (in every byte).\<close>

definition two_ids :: "u8 \<Rightarrow> u8 \<Rightarrow> u8 \<Rightarrow> u8 option" where
  "two_ids a b l = Some (a + 4)"

lemma replicate_8: "replicate 8 x = [x, x, x, x, x, x, x, x]"
  by (simp add: numeral_eq_Suc)

lemma first_synchronisation_stores_all_ids_witness:
  "\<exists>ds' s' l'. nvs_synchronize ram_ops bank_bus (replicate 8 0) 0 2 [device 0, device 1] empty_ram (bank_link two_ids)
      = Inr (True, ds', s', l')
    \<and> manufactoring_id (ds' ! 0) = 0x0404040404040404 \<and> manufactoring_id (ds' ! 1) = 0x0505050505050505"
proof -
  have ids: "bus_id two_ids (replicate 8 0) (device 0) = 0x0404040404040404"
    "bus_id two_ids (replicate 8 0) (device 1) = 0x0505050505050505"
    by (simp_all add: bus_id_def two_ids_def device_def manufactor_id_locations_def combine_bytes_8 replicate_8)
  let ?ds = "[device 0, device 1]"
  have u: "unat (2 :: u8) = 2" and len: "length ?ds = 2" by simp_all
  have pre: "\<forall>d\<in>set ?ds. short_address d < 64" "entries (ram_view (drv empty_ram)) ''manu_id'' = Map.empty"
    by (simp_all add: device_def empty_ram_def ram_view_def)
  from first_synchronisation_stores_all_ids [OF nvs_store_ram pre(2) holds_bank_link [of two_ids], where
      bytes = "replicate 8 0" and n = 2 and ds = ?ds and jv = 0, unfolded u len] pre(1)
  obtain ds' s' l' where
    run: "nvs_synchronize ram_ops bank_bus (replicate 8 0) 0 2 ?ds empty_ram (bank_link two_ids) = Inr (True, ds', s', l')"
    and ds': "length ds' = 2" "\<forall>i<2. ds' ! i = (if i < 2
      then (?ds ! i)\<lparr>manufactoring_id := bus_id two_ids (replicate 8 0) (?ds ! i)\<rparr> else ?ds ! i)"
    by auto
  have "manufactoring_id (ds' ! 0) = 0x0404040404040404" "manufactoring_id (ds' ! 1) = 0x0505050505050505"
    using ds'(2) [rule_format, of 0] ds'(2) [rule_format, of 1] ids by simp_all
  with run show ?thesis by blast
qed

text \<open>
  C21: Once ids are stored and as many gears are found, synchronisation always reports
  success, whatever gears they are: entry i of the device table gets the id stored under
  key i if any gear on the bus has it - not the id of the gear at that entry - and
  is left alone otherwise.
\<close>

theorem resynchronisation_keeps_stored_order:
  assumes "nvs_store ops view"
    and "\<forall>k v. entries (view (drv s)) ''manu_id'' k = Some v \<longrightarrow> (\<exists>x. v = U64 x)"
    and "card (dom (entries (view (drv s)) ''manu_id'')) = unat n" and "0 < n"
    and "holds bus mview M l" and "length bytes = 8" and "unat n \<le> length ds"
    and "\<forall>d\<in>set ds. short_address d < 64"
  shows "\<exists>ds' s' l'. nvs_synchronize ops bus bytes jv n ds s l = Inr (True, ds', s', l')
    \<and> length ds' = length ds
    \<and> (\<forall>i<unat n. ds' ! i = (case found_id (view (drv s)) (\<lambda>j. bus_id M bytes (ds ! j)) (unat n) i of
        Some v \<Rightarrow> (ds ! i)\<lparr>manufactoring_id := v\<rparr> | None \<Rightarrow> ds ! i))
    \<and> entries (view (drv s')) = entries (view (drv s))"
proof -
  obtain h n1 where o: "nvs_open ops 0 ''manu_id'' s = (0, h, s\<lparr>drv := n1\<rparr>)" "handles (view (drv s)) h = None"
    "view n1 = (view (drv s))\<lparr>handles := (handles (view (drv s)))(h \<mapsto> ''manu_id'')\<rparr>"
    by (rule nvs_openD [OF assms(1)]) auto
  have h1: "handles (view (drv (s\<lparr>drv := n1\<rparr>))) h = Some ''manu_id''" by (simp add: o)
  obtain n2 where c: "call (\<lambda>d. case drv_used_entry_count ops h d of (e, c, d) \<Rightarrow> ((e, c), d)) (s\<lparr>drv := n1\<rparr>)
      = ((0, unat n), s\<lparr>drv := n2\<rparr>)" "view n2 = view n1"
    using nvs_countD [OF assms(1) h1] assms(2,3) by (auto simp: o)
  have h2: "handles (view (drv (s\<lparr>drv := n2\<rparr>))) h = Some ''manu_id''" by (simp add: c o)
  have n0: "unat n \<noteq> 0" using assms(4) by (metis unat_eq_zero word_not_simps(1))
  have found: "found_id (view n2) f k = found_id (view (drv s)) f k" for f k
    by (rule ext) (simp add: found_id_def c o)
  from sync_check_loop_checks [OF assms(1) h2 assms(5,6,7), of "[0..<unat n]" jv] assms(7,8)
  obtain ds' s' l' where ch: "sync_check_loop ops bus bytes jv h (unat n) [0..<unat n] ds (s\<lparr>drv := n2\<rparr>) l
      = Inr (ds', s', l')" "length ds' = length ds" "view (drv s') = view n2"
    "\<forall>i<unat n. ds' ! i = (case found_id (view (drv s)) (\<lambda>j. bus_id M bytes (ds ! j)) (unat n) i of
        Some v \<Rightarrow> (ds ! i)\<lparr>manufactoring_id := v\<rparr> | None \<Rightarrow> ds ! i)"
    by (auto simp: found)
  have "nvs_synchronize ops bus bytes jv n ds s l = Inr (True, ds', nvs_close ops h (nvs_close ops h s'), l')"
    using n0 by (simp add: nvs_synchronize_def o(1) c(1) ch(1))
  then show ?thesis
    using ch by (auto simp: nvs_closeD [OF assms(1)] c o)
qed

text \<open>The gears of \<open>two_ids\<close> have changed places since their ids were stored.\<close>

definition swapped_ram :: "ram flash" where
  "swapped_ram = \<lparr>drv = \<lparr>ram_entries = [((''manu_id'', ''0''), U64 0x0505050505050505),
     ((''manu_id'', ''1''), U64 0x0404040404040404)], ram_handles = []\<rparr>, blocks = 0\<rparr>"

lemma resynchronisation_keeps_stored_order_witness:
  "\<exists>ds' s' l'. nvs_synchronize ram_ops bank_bus (replicate 8 0) 0 2 [device 0, device 1] swapped_ram (bank_link two_ids)
      = Inr (True, ds', s', l')
    \<and> manufactoring_id (ds' ! 0) = 0x0505050505050505 \<and> bus_id two_ids (replicate 8 0) (ds' ! 0) = 0x0404040404040404"
proof -
  let ?ds = "[device 0, device 1]"
  have ids: "bus_id two_ids (replicate 8 0) (device 0) = 0x0404040404040404"
    "bus_id two_ids (replicate 8 0) (device 1) = 0x0505050505050505"
    by (simp_all add: bus_id_def two_ids_def device_def manufactor_id_locations_def combine_bytes_8 replicate_8)
  have u: "unat (2 :: u8) = 2" and len: "length ?ds = 2" by simp_all
  have dom: "dom (entries (ram_view (drv swapped_ram)) ''manu_id'') = {''0'', ''1''}"
    by (auto simp: swapped_ram_def ram_view_def split: if_splits)
  have d0: "dec 0 = ''0''" by (simp add: digit_def) code_simp
  have found: "found_id (ram_view (drv swapped_ram)) (\<lambda>j. bus_id two_ids (replicate 8 0) (?ds ! j)) 2 0
      = Some 0x0505050505050505"
    using ids by (simp add: found_id_def d0 swapped_ram_def ram_view_def numeral_2_eq_2)
  have all: "\<forall>k v. entries (ram_view (drv swapped_ram)) ''manu_id'' k = Some v \<longrightarrow> (\<exists>x. v = U64 x)"
    by (simp add: swapped_ram_def ram_view_def)
  have pre: "\<forall>d\<in>set ?ds. short_address d < 64" by (simp add: device_def)
  have card: "card (dom (entries (ram_view (drv swapped_ram)) ''manu_id'')) = unat (2 :: u8)"
    unfolding dom by simp
  from resynchronisation_keeps_stored_order [OF nvs_store_ram all card _ holds_bank_link [of two_ids], where
      bytes = "replicate 8 0" and ds = ?ds and jv = 0, unfolded u len] pre
  obtain ds' s' l' where
    run: "nvs_synchronize ram_ops bank_bus (replicate 8 0) 0 2 ?ds swapped_ram (bank_link two_ids) = Inr (True, ds', s', l')"
    and ds': "\<forall>i<2. ds' ! i = (case found_id (ram_view (drv swapped_ram)) (\<lambda>j. bus_id two_ids (replicate 8 0) (?ds ! j)) 2 i of
        Some v \<Rightarrow> (?ds ! i)\<lparr>manufactoring_id := v\<rparr> | None \<Rightarrow> ?ds ! i)"
    by auto
  have "ds' ! 0 = (device 0)\<lparr>manufactoring_id := 0x0505050505050505\<rparr>"
    using ds' [rule_format, of 0] found by simp
  with run ids show ?thesis by auto
qed

section \<open>Listing the ids\<close>

definition csv_entry :: "(nat \<Rightarrow> u64) \<Rightarrow> nat \<Rightarrow> string" where
  "csv_entry f i = (if f i \<noteq> 0 then dec i @ '':'' @ dec (unat (f i)) @ '','' else [])"

lemma length_dec_u64: "length (dec (unat (x :: u64))) \<le> 20"
proof -
  have "unat x < 2 ^ 64" using unsigned_less [of x, where ?'a = nat] by simp
  then have "unat x < 10 ^ 20" by simp
  then show ?thesis by (rule length_dec) simp
qed

text \<open>
  When the list is made: after every entry, what is written so far and the length of that
  entry once more fit the buffer.
\<close>

definition csv_fits :: "(nat \<Rightarrow> u64) \<Rightarrow> nat list \<Rightarrow> string \<Rightarrow> bool" where
  "csv_fits f is csv \<longleftrightarrow> (\<forall>m<length is. f (is ! m) \<noteq> 0 \<longrightarrow>
     length (csv @ concat (map (csv_entry f) (take (Suc m) is))) + length (csv_entry f (is ! m)) < CSV_SIZE)"

lemma csv_fits_Nil: "csv_fits f [] csv"
  by (simp add: csv_fits_def)

lemma csv_fits_Cons:
  "csv_fits f (i # is) csv \<longleftrightarrow>
     (f i \<noteq> 0 \<longrightarrow> length (csv @ csv_entry f i) + length (csv_entry f i) < CSV_SIZE) \<and> csv_fits f is (csv @ csv_entry f i)"
  unfolding csv_fits_def by (auto simp: less_Suc_eq_0_disj)

lemma csv_loop_exact:
  assumes law: "nvs_store ops view"
    and "\<forall>i\<in>set is. entries (view (drv s)) ''manu_id'' (dec i) = Some (U64 (f i))"
    and "length csv < CSV_SIZE"
  shows "fst (csv_loop ops jh jv is csv s)
    = (if csv_fits f is csv then Some (csv @ concat (map (csv_entry f) is)) else None)"
  using assms(2-)
proof (induction "is" arbitrary: csv s)
  case Nil
  then show ?case by (simp add: csv_fits_Nil)
next
  case (Cons i "is")
  obtain x s1 where r: "nvs_read_manufactoring_id ops jh jv (dec i) s = (x, s1)"
    by (cases "nvs_read_manufactoring_id ops jh jv (dec i) s")
  have x: "x = f i" "view (drv s1) = view (drv s)"
    using read_u64_store [OF law, of "''manu_id''" jh jv "dec i" s] Cons.prems(1) r
    by (simp_all add: nvs_read_manufactoring_id_def)
  have st: "\<forall>i\<in>set is. entries (view (drv s1)) ''manu_id'' (dec i) = Some (U64 (f i))"
    using Cons.prems(1) by (simp add: x)
  show ?case
  proof (cases "f i = 0")
    case True
    then have "csv_loop ops jh jv (i # is) csv s = csv_loop ops jh jv is csv s1" "csv_entry f i = []"
      by (simp_all add: r x csv_entry_def)
    then show ?thesis
      using Cons.IH [OF st Cons.prems(2)] True by (simp add: csv_fits_Cons)
  next
    case False
    let ?e = "csv_entry f i"
    have e: "?e = dec i @ '':'' @ dec (unat (f i)) @ '',''" using False by (simp add: csv_entry_def)
    let ?csv = "csv @ take (CSV_SIZE - length csv - 1) ?e"
    have run: "csv_loop ops jh jv (i # is) csv s = (if length ?e \<ge> CSV_SIZE - length ?csv then (None, s1)
        else csv_loop ops jh jv is ?csv s1)"
      by (simp only: csv_loop.simps r x(1) Let_def prod.case e False not_False_eq_True if_True)
    have room: "length ?e \<ge> CSV_SIZE - length ?csv \<longleftrightarrow> \<not> length (csv @ ?e) + length ?e < CSV_SIZE"
      using Cons.prems(2) e by auto
    show ?thesis
    proof (cases "length (csv @ ?e) + length ?e < CSV_SIZE")
      case True
      then have fits: "?csv = csv @ ?e" "length (csv @ ?e) < CSV_SIZE" by auto
      from True room have "csv_loop ops jh jv (i # is) csv s = csv_loop ops jh jv is (csv @ ?e) s1"
        unfolding run fits(1) by simp
      then show ?thesis
        using Cons.IH [OF st fits(2)] True by (simp add: csv_fits_Cons)
    next
      case long: False
      then show ?thesis
        unfolding run if_P [OF room [THEN iffD2, OF long]] using False by (simp add: csv_fits_Cons)
    qed
  qed
qed

lemma read_all_ids:
  assumes "nvs_store ops view"
    and "\<forall>i<unat n. entries (view (drv s)) ''manu_id'' (dec i) = Some (U64 (f i))"
  shows "fst (nvs_read_all_manufactoring_ids ops True jh jv n s) =
    (if csv_fits f [0..<unat n] [] then Some (butlast (concat (map (csv_entry f) [0..<unat n]))) else None)"
proof -
  obtain h n1 where o: "nvs_open ops 0 ''manu_id'' s = (0, h, s\<lparr>drv := n1\<rparr>)" "handles (view (drv s)) h = None"
    "view n1 = (view (drv s))\<lparr>handles := (handles (view (drv s)))(h \<mapsto> ''manu_id'')\<rparr>"
    by (rule nvs_openD [OF assms(1)]) auto
  define R where "R = csv_loop ops jh jv [0..<unat n] [] (s\<lparr>drv := n1, blocks := Suc (blocks s)\<rparr>)"
  have "fst R = (if csv_fits f [0..<unat n] [] then Some (concat (map (csv_entry f) [0..<unat n])) else None)"
    using csv_loop_exact [OF assms(1), of "[0..<unat n]" "s\<lparr>drv := n1, blocks := Suc (blocks s)\<rparr>" f "[]" jh jv] assms(2)
    by (simp add: R_def o CSV_SIZE_def)
  moreover have "fst (nvs_read_all_manufactoring_ids ops True jh jv n s) = map_option butlast (fst R)"
    by (cases R; cases "fst R")
      (auto simp: nvs_read_all_manufactoring_ids_def o(1) Let_def simp flip: R_def)
  ultimately show ?thesis by simp
qed

text \<open>
  C37: The list of stored ids is complete or NULL, never cut short. With the ids of all
  devices stored it is \<open>i:id\<close> for every non-zero id, in order and separated by commas,
  exactly when after each entry the text so far and that entry's length once more stay
  below the 1024 characters of the buffer; otherwise it is NULL. So a list is also refused
  that would have fitted, when less room is left behind its last entry than that entry
  takes; up to 39 devices there is always a list.
\<close>

theorem id_list_is_complete_or_null:
  assumes "nvs_store ops view"
    and "\<forall>i<unat n. entries (view (drv s)) ''manu_id'' (dec i) = Some (U64 (f i))"
  defines "listed \<equiv> \<lambda>m. concat (map (csv_entry f) [0..<m])"
  shows "fst (nvs_read_all_manufactoring_ids ops True jh jv n s) =
      (if \<forall>i<unat n. f i \<noteq> 0 \<longrightarrow> length (listed (Suc i)) + length (csv_entry f i) < 1024
       then Some (butlast (listed (unat n))) else None)
    \<and> (n \<le> 39 \<longrightarrow> fst (nvs_read_all_manufactoring_ids ops True jh jv n s) \<noteq> None)"
proof -
  let ?fits = "\<forall>i<unat n. f i \<noteq> 0 \<longrightarrow> length (listed (Suc i)) + length (csv_entry f i) < 1024"
  have fits: "csv_fits f [0..<unat n] [] \<longleftrightarrow> ?fits"
    by (auto simp: csv_fits_def listed_def CSV_SIZE_def take_upt simp del: upt_Suc)
  have exact: "fst (nvs_read_all_manufactoring_ids ops True jh jv n s)
      = (if ?fits then Some (butlast (listed (unat n))) else None)"
    using read_all_ids [OF assms(1,2), of jh jv] unfolding fits by (simp only: listed_def)
  have "?fits" if "n \<le> 39"
  proof (intro allI impI)
    fix i assume i: "i < unat n"
    with that have small: "i < 39" by (simp add: word_le_nat_alt)
    have entry: "length (csv_entry f j) \<le> 25" if "j < 39" for j
      using length_dec [of j 3] length_dec_u64 [of "f j"] that by (simp add: csv_entry_def)
    have "(\<Sum>j\<leftarrow>[0..<Suc i]. length (csv_entry f j)) \<le> (\<Sum>j\<leftarrow>[0..<Suc i]. 25)"
      using small by (intro sum_list_mono entry) auto
    then have "length (listed (Suc i)) \<le> 25 * Suc i"
      by (simp add: listed_def length_concat o_def sum_list_triv)
    with entry [OF small] small show "length (listed (Suc i)) + length (csv_entry f i) < 1024"
      by simp
  qed
  with exact show ?thesis by simp
qed

lemma id_list_is_complete_or_null_witness:
  "fst (nvs_read_all_manufactoring_ids ram_ops True 0 0 2 swapped_ram)
    = Some (''0:'' @ dec 361700864190383365 @ '',1:'' @ dec 289360691352306692)"
proof -
  let ?f = "\<lambda>i. if i = (0 :: nat) then 0x0505050505050505 else 0x0404040404040404 :: u64"
  have d: "dec 0 = ''0''" "dec 1 = ''1''"
    by code_simp+
  have two: "[0..<2] = [0, 1 :: nat]" by code_simp
  have csv: "concat (map (csv_entry ?f) [0..<2])
      = ''0:'' @ dec 361700864190383365 @ '',1:'' @ dec 289360691352306692 @ '',''"
    using d by (simp add: two csv_entry_def del: dec_small)
  have "\<forall>i<unat (2 :: u8). entries (ram_view (drv swapped_ram)) ''manu_id'' (dec i) = Some (U64 (?f i))"
  proof (intro allI impI)
    fix i assume "i < unat (2 :: u8)"
    then consider "i = 0" | "i = 1" by fastforce
    then show "entries (ram_view (drv swapped_ram)) ''manu_id'' (dec i) = Some (U64 (?f i))"
      using d by cases (simp_all add: swapped_ram_def ram_view_def del: dec_small)
  qed
  note list = id_list_is_complete_or_null [OF nvs_store_ram this, of 0 0]
  have "fst (nvs_read_all_manufactoring_ids ram_ops True 0 0 2 swapped_ram) \<noteq> None"
    by (rule list [THEN conjunct2, THEN mp]) simp
  with list have "fst (nvs_read_all_manufactoring_ids ram_ops True 0 0 2 swapped_ram)
      = Some (butlast (concat (map (csv_entry ?f) [0..<unat (2 :: u8)])))"
    by presburger
  with csv show ?thesis
    by (simp add: butlast_append)
qed

lemma length_dec_ge: "10 ^ k \<le> n \<Longrightarrow> k < length (dec n)"
proof (induction n arbitrary: k rule: dec.induct)
  case (1 n)
  show ?case
  proof (cases k)
    case (Suc j)
    have "\<not> n < 10"
    proof -
      have "(10::nat) \<le> 10 ^ Suc j" by simp
      then show ?thesis using "1.prems" unfolding Suc by linarith
    qed
    moreover have "10 ^ j \<le> n div 10"
      using "1.prems" Suc by (simp add: less_eq_div_iff_mult_less_eq mult.commute)
    ultimately show ?thesis
      using "1.IH" Suc by (subst dec.simps) simp
  qed simp
qed

lemma write_at_Inr: "off + length cs \<le> length buf \<Longrightarrow> write_at off cs buf = Inr (take off buf @ cs @ drop (off + length cs) buf)"
  by (simp add: write_at_def)

text \<open>
  In the array of ids a row has ten characters but up to 21 are written: with two
  stored ids of ten or more digits, the first row reads as the first ten digits of the
  first id followed by the whole second id.
\<close>

theorem long_ids_run_into_each_other:
  assumes "nvs_store ops view"
    and "entries (view (drv s)) ''manu_id'' (dec 0) = Some (U64 x)"
    and "entries (view (drv s)) ''manu_id'' (dec 1) = Some (U64 y)"
    and "10 ^ 9 \<le> unat x" and "0 < y" and "31 \<le> length buf" and "2 \<le> max_ids"
  shows "\<exists>buf' s'. nvs_read_all_manufactoring_ids_array ops jh jv 2 buf max_ids s = Inr (buf', 2, s')
    \<and> cstr buf' = take 10 (dec (unat x)) @ dec (unat y) \<and> cstr (drop ROW buf') = dec (unat y)"
proof -
  obtain h n1 where o: "nvs_open ops 0 ''manu_id'' s = (0, h, s\<lparr>drv := n1\<rparr>)" "handles (view (drv s)) h = None"
    "view n1 = (view (drv s))\<lparr>handles := (handles (view (drv s)))(h \<mapsto> ''manu_id'')\<rparr>"
    by (rule nvs_openD [OF assms(1)]) auto
  let ?s = "s\<lparr>drv := n1\<rparr>"
  obtain s1 where r1: "nvs_read_manufactoring_id ops jh jv (dec 0) ?s = (x, s1)" "view (drv s1) = view n1"
    using read_u64_store [OF assms(1), of "''manu_id''" jh jv "dec 0" ?s] assms(2)
    by (cases "nvs_read_manufactoring_id ops jh jv (dec 0) ?s") (simp add: nvs_read_manufactoring_id_def o)
  obtain s2 where r2: "nvs_read_manufactoring_id ops jh jv (dec 1) s1 = (y, s2)"
    using read_u64_store [OF assms(1), of "''manu_id''" jh jv "dec 1" s1] assms(3)
    by (cases "nvs_read_manufactoring_id ops jh jv (dec 1) s1") (simp add: nvs_read_manufactoring_id_def o r1)
  let ?dx = "dec (unat x)" and ?dy = "dec (unat y)"
  have lx: "length ?dx \<le> 20" "10 \<le> length ?dx" and ly: "length ?dy \<le> 20"
    using length_dec_u64 [of x] length_dec_u64 [of y] length_dec_ge [of 9 "unat x"] assms(4) by simp_all
  have x0: "x \<noteq> 0" using assms(4) by (cases "x = 0") simp_all
  have y0: "y \<noteq> 0" using assms(5) by auto
  define b1 where "b1 = (?dx @ [NUL]) @ drop (length ?dx + 1) buf"
  have w1: "write_at (ROW * 0) (take 20 ?dx @ [NUL]) buf = Inr b1"
    using lx assms(6) by (simp add: write_at_Inr b1_def)
  have lb: "length b1 = length buf" using lx assms(6) by (simp add: b1_def)
  define b2 where "b2 = take 10 b1 @ (?dy @ [NUL]) @ drop (10 + (length ?dy + 1)) b1"
  have w2: "write_at (ROW * 1) (take 20 ?dy @ [NUL]) b1 = Inr b2"
    using ly assms(6) by (simp add: write_at_Inr b2_def lb ROW_def)
  have two: "[0..<unat (2 :: u8)] = [0, 1]" by (simp add: upt_rec)
  have "ids_array_loop ops jh jv [0, 1] max_ids buf 0 ?s = Inr (b2, 2, s2)"
    using w1 w2 x0 y0 assms(7) r1(1) r2
    by (simp del: dec_small add: numeral_2_eq_2)
  then have "nvs_read_all_manufactoring_ids_array ops jh jv 2 buf max_ids s = Inr (b2, 2, nvs_close ops h s2)"
    by (simp only: nvs_read_all_manufactoring_ids_array_def o(1) prod.case two sum.case if_False simp_thms)
  moreover have "take 10 b1 = take 10 ?dx"
    using lx by (simp add: b1_def)
  then have b2: "b2 = take 10 ?dx @ (?dy @ NUL # drop (10 + (length ?dy + 1)) b1)"
    by (simp add: b2_def)
  have "cstr b2 = take 10 ?dx @ ?dy"
  proof -
    have "NUL \<notin> set (take 10 ?dx)"
      using dec_no_NUL [of "unat x"] by (blast dest: in_set_takeD)
    then show ?thesis
      using cstr_string [of "take 10 ?dx @ ?dy"] by (simp add: b2)
  qed
  moreover have "cstr (drop ROW b2) = ?dy"
    using lx by (simp add: b2 ROW_def)
  ultimately show ?thesis by blast
qed

lemma long_ids_run_into_each_other_witness:
  "\<exists>buf' s'. nvs_read_all_manufactoring_ids_array ram_ops 0 0 2 (replicate 640 NUL) 64 swapped_ram = Inr (buf', 2, s')
    \<and> cstr buf' = take 10 (dec (unat (0x0505050505050505 :: u64))) @ dec (unat (0x0404040404040404 :: u64))"
proof -
  have d: "dec 0 = ''0''" "dec 1 = ''1''"
    by code_simp+
  have "entries (ram_view (drv swapped_ram)) ''manu_id'' (dec 0) = Some (U64 0x0505050505050505)"
    "entries (ram_view (drv swapped_ram)) ''manu_id'' (dec 1) = Some (U64 0x0404040404040404)"
    using d by (simp_all add: swapped_ram_def ram_view_def del: dec_small)
  from long_ids_run_into_each_other [OF nvs_store_ram this, where buf = "replicate 640 NUL" and max_ids = 64] show ?thesis
    by simp blast
qed

end
