(* ===== verification/Http_Json.thy ===== *)
theory Http_Json
  imports Http_Handler Nvs_Store
begin

text \<open>
  components/Http_handler, continued: what the JSON objects look like, that the fields
  posted can be read back by the search the event handler uses, that the body of a gear
  always fits its buffer, and what the parser makes of a list of ids.
\<close>

section \<open>Objects\<close>

definition json_pair :: "string \<times> string \<Rightarrow> string" where
  "json_pair = (\<lambda>(k, v). ''\"'' @ k @ ''\":\"'' @ v @ ''\"'')"

fun commas :: "string list \<Rightarrow> string" where
  "commas [] = []"
| "commas [x] = x"
| "commas (x # xs) = x @ '','' @ commas xs"

lemma commas_Cons: "xs \<noteq> [] \<Longrightarrow> commas (x # xs) = x @ '','' @ commas xs"
  by (cases xs) simp_all

definition json_object :: "(string \<times> string) list \<Rightarrow> string" where
  "json_object ps = ''{'' @ commas (map json_pair ps) @ ''}''"

lemma fold_append_json_pair:
  "fold (\<lambda>(k, v) json. append_json_pair json k v) ps json = json @ concat (map (\<lambda>p. json_pair p @ '','') ps)"
  by (induction ps arbitrary: json) (auto simp: append_json_pair_def json_pair_def split_beta')

lemma concat_comma:
  "xs \<noteq> [] \<Longrightarrow> concat (map (\<lambda>x. x @ '','') xs) = commas xs @ '',''"
  by (induction xs rule: commas.induct) auto

lemma create_json_object_eq:
  assumes "ps \<noteq> []"
  shows "create_json_object n (map fst ps) (map snd ps) =
    (if n \<le> length (json_object ps) then Inl Out_of_bounds else Inr (json_object ps))"
proof -
  have "fold (\<lambda>(k, v) json. append_json_pair json k v) (zip (map fst ps) (map snd ps)) ''{''
      = ''{'' @ commas (map json_pair ps) @ '',''"
    using concat_comma [of "map json_pair ps"] assms
    by (simp add: zip_map_fst_snd fold_append_json_pair comp_def)
  then show ?thesis
    by (simp add: create_json_object_def json_object_def)
qed

lemma length_commas: "xs \<noteq> [] \<Longrightarrow> length (commas xs) + 1 = sum_list (map length xs) + length xs"
  by (induction xs rule: commas.induct) auto

lemma length_json_object:
  assumes "ps \<noteq> []"
  shows "length (json_object ps) =
    1 + sum_list (map (length \<circ> fst) ps) + sum_list (map (length \<circ> snd) ps) + 6 * length ps"
proof -
  have "sum_list (map length (map json_pair ps)) + length ps
      = sum_list (map (length \<circ> fst) ps) + sum_list (map (length \<circ> snd) ps) + 6 * length ps"
    by (induction ps) (auto simp: json_pair_def)
  then show ?thesis
    using length_commas [of "map json_pair ps"] assms by (simp add: json_object_def comp_def)
qed

section \<open>Reading a field back\<close>

text \<open>The search of the event handler, as a function of the key.\<close>

definition field_pattern :: "string \<Rightarrow> string" where
  "field_pattern k = ''\"'' @ k @ ''\":\"''"

definition read_field :: "string \<Rightarrow> string \<Rightarrow> string option" where
  "read_field k data = (case strstr data (field_pattern k) of
     None \<Rightarrow> None | Some t \<Rightarrow> until CHR 0x22 (drop (length (field_pattern k)) t))"

definition plain :: "string \<Rightarrow> bool" where
  "plain s \<longleftrightarrow> CHR 0x22 \<notin> set s \<and> CHR '':'' \<notin> set s \<and> CHR '','' \<notin> set s"

lemma strstr_Cons_skip: "take (length n) (c # s) \<noteq> n \<Longrightarrow> strstr (c # s) n = strstr s n"
  by auto

lemma strstr_append_skip: "n \<noteq> [] \<Longrightarrow> hd n \<notin> set p \<Longrightarrow> strstr (p @ s) n = strstr s n"
proof (induction p)
  case (Cons c p)
  have "take (length n) (c # p @ s) \<noteq> n"
    using Cons.prems by (cases n) auto
  with Cons show ?case by simp
qed simp

lemma quote_split:
  assumes "q \<notin> set x" and "q \<notin> set k" and "take (length (k @ q # z)) (x @ q # y) = k @ q # z"
  shows "x = k \<and> take (length z) y = z"
proof -
  obtain r where "x @ q # y = k @ q # z @ r"
    using assms(3) by (metis append.assoc append_Cons append_take_drop_id)
  then have "x = k \<and> y = z @ r"
    using assms(1,2) by (auto simp: append_eq_append_conv2 append_eq_Cons_conv Cons_eq_append_conv)
  then show ?thesis by simp
qed

lemma skip_quoted:
  assumes "CHR 0x22 \<notin> set x" and "CHR 0x22 \<notin> set k" and "x \<noteq> k \<or> take 2 y \<noteq> '':\"''"
  shows "strstr (CHR 0x22 # x @ CHR 0x22 # y) (field_pattern k) = strstr (CHR 0x22 # y) (field_pattern k)"
proof -
  have "take (length (field_pattern k)) (CHR 0x22 # x @ CHR 0x22 # y) \<noteq> field_pattern k"
    using quote_split [of "CHR 0x22" x k "'':\"''" y] assms by (auto simp: field_pattern_def)
  then have "strstr (CHR 0x22 # x @ CHR 0x22 # y) (field_pattern k) = strstr (x @ CHR 0x22 # y) (field_pattern k)"
    by (rule strstr_Cons_skip)
  also have "\<dots> = strstr (CHR 0x22 # y) (field_pattern k)"
    using assms(1) by (intro strstr_append_skip) (auto simp: field_pattern_def)
  finally show ?thesis .
qed

text \<open>The text between the strings of an object: a colon, or a comma.\<close>

lemma skip_pair:
  assumes "CHR 0x22 \<notin> set k'" and "CHR 0x22 \<notin> set v" and "plain k" and "k \<noteq> k'"
  shows "strstr (json_pair (k', v) @ '',\"'' @ rest) (field_pattern k) = strstr (CHR 0x22 # rest) (field_pattern k)"
proof -
  have k: "CHR 0x22 \<notin> set k" "k \<noteq> '':''" "k \<noteq> '',''"
    using assms(3) by (auto simp: plain_def)
  have "strstr (json_pair (k', v) @ '',\"'' @ rest) (field_pattern k)
      = strstr (CHR 0x22 # k' @ CHR 0x22 # '':'' @ CHR 0x22 # v @ CHR 0x22 # '','' @ CHR 0x22 # rest) (field_pattern k)"
    by (simp add: json_pair_def)
  also have "\<dots> = strstr (CHR 0x22 # '':'' @ CHR 0x22 # v @ CHR 0x22 # '','' @ CHR 0x22 # rest) (field_pattern k)"
    using assms k by (intro skip_quoted) auto
  also have "\<dots> = strstr (CHR 0x22 # v @ CHR 0x22 # '','' @ CHR 0x22 # rest) (field_pattern k)"
    using assms k by (intro skip_quoted) auto
  also have "\<dots> = strstr (CHR 0x22 # '','' @ CHR 0x22 # rest) (field_pattern k)"
    using assms k by (intro skip_quoted) auto
  also have "\<dots> = strstr (CHR 0x22 # rest) (field_pattern k)"
    using assms k by (intro skip_quoted) auto
  finally show ?thesis .
qed

lemma read_field_here:
  assumes "CHR 0x22 \<notin> set v"
  shows "read_field k (json_pair (k, v) @ rest) = Some v"
proof -
  have "json_pair (k, v) @ rest = field_pattern k @ v @ CHR 0x22 # rest"
    by (simp add: json_pair_def field_pattern_def)
  then show ?thesis
    using assms unfolding read_field_def by simp
qed

lemma read_field_commas:
  assumes "\<forall>(k, v)\<in>set ps. CHR 0x22 \<notin> set k \<and> CHR 0x22 \<notin> set v" and "plain k"
    and "map_of ps k = Some v"
  shows "read_field k (commas (map json_pair ps) @ rest) = Some v"
  using assms(1,3)
proof (induction ps)
  case (Cons p ps)
  obtain k' v' where p: "p = (k', v')" by (cases p)
  show ?case
  proof (cases "k' = k")
    case True
    with Cons.prems have "v' = v" "CHR 0x22 \<notin> set v" by (auto simp: p)
    then show ?thesis
      using read_field_here [of v k] True by (cases ps) (simp_all add: p)
  next
    case False
    with Cons.prems(2) have rest: "map_of ps k = Some v" by (simp add: p)
    then obtain q qs where ps: "ps = q # qs" by (cases ps) auto
    obtain body where body: "commas (map json_pair ps) @ rest = CHR 0x22 # body"
      by (cases qs; cases q) (auto simp: ps json_pair_def)
    have "commas (map json_pair (p # ps)) @ rest = json_pair (k', v') @ '',\"'' @ body"
      using body by (simp add: p ps)
    then have "strstr (commas (map json_pair (p # ps)) @ rest) (field_pattern k)
        = strstr (commas (map json_pair ps) @ rest) (field_pattern k)"
      using skip_pair [of k' v' k body] Cons.prems(1) assms(2) False by (simp add: body p)
    moreover have "read_field k (commas (map json_pair ps) @ rest) = Some v"
      using Cons rest by auto
    ultimately show ?thesis
      by (simp add: read_field_def)
  qed
qed simp

lemma read_field_object:
  assumes "\<forall>(k, v)\<in>set ps. CHR 0x22 \<notin> set k \<and> CHR 0x22 \<notin> set v" and "plain k"
    and "map_of ps k = Some v"
  shows "read_field k (json_object ps @ rest) = Some v"
proof -
  have "strstr (json_object ps @ rest) (field_pattern k) = strstr (commas (map json_pair ps) @ ''}'' @ rest) (field_pattern k)"
    by (simp add: json_object_def field_pattern_def)
  then show ?thesis
    using read_field_commas [OF assms, of "''}'' @ rest"] by (simp add: read_field_def)
qed

section \<open>The object posted for a gear\<close>

lemma length_gear_values [simp]: "length (gear_values g) = 39" "length gear_keys = 39"
  by (simp_all add: gear_values_def gear_keys_def)

lemma length_dec_word:
  "length (dec (unat (w8 :: u8))) \<le> 10" "length (dec (unat (w16 :: u16))) \<le> 10" "length (dec (unat (w32 :: u32))) \<le> 10"
  using unsigned_less [of w8, where ?'a = nat] unsigned_less [of w16, where ?'a = nat]
    unsigned_less [of w32, where ?'a = nat]
  by (auto intro!: length_dec)

lemma gear_values_short: "\<forall>v\<in>set (tl (gear_values g)). length v \<le> 10"
  by (simp add: gear_values_def length_dec_word)

lemma gear_values_hd: "gear_values g = dec (unat (manufacturer_id g)) # tl (gear_values g)"
  by (simp add: gear_values_def)

lemma length_dec_19: "length (dec n) < 20 \<longleftrightarrow> n < 10 ^ 19"
  using length_dec [of n 19] length_dec_ge [of 19 n] by (cases "n < 10 ^ 19") auto

lemma values_loop_append:
  "\<forall>i\<in>set is. alloc i \<and> length (strings ! i) < 20 \<Longrightarrow>
    values_loop alloc strings is values = Inr (Some (values @ map ((!) strings) is))"
  by (induction "is" arbitrary: "values") auto

lemma values_loop_gear:
  "values_loop (\<lambda>_. True) (gear_values g) [0..<39] [] =
    (if unat (manufacturer_id g) < 10 ^ 19 then Inr (Some (gear_values g)) else Inl Out_of_bounds)"
proof (cases "unat (manufacturer_id g) < 10 ^ 19")
  case True
  have "length v < 20" if "v \<in> set (gear_values g)" for v
    using that gear_values_short [of g] True length_dec_19 [of "unat (manufacturer_id g)"]
    by (subst (asm) gear_values_hd) fastforce
  then have "\<forall>i\<in>set [0..<39]. length (gear_values g ! i) < 20"
    by (simp add: length_gear_values)
  then show ?thesis
    using True values_loop_append [of "[0..<39]" "\<lambda>_. True" "gear_values g" "[]"] map_nth [of "gear_values g"] by simp
next
  case False
  have "20 \<le> length (gear_values g ! 0)"
    using False length_dec_19 [of "unat (manufacturer_id g)"] by (subst gear_values_hd) simp
  then have "values_loop (\<lambda>_. True) (gear_values g) (0 # [1..<39]) [] = Inl Out_of_bounds"
    by simp
  moreover have "[0..<39] = 0 # [1..<39]"
    by (simp add: upt_conv_Cons)
  ultimately show ?thesis
    using False by simp
qed

lemma gear_keys_length: "sum_list (map length gear_keys) = 1061"
  by (simp add: gear_keys_def)

lemma posted_object:
  assumes "unat (manufacturer_id g) < 10 ^ 19"
  shows "create_json_object JSON_BUFFER_SIZE gear_keys (gear_values g) = Inr (json_object (zip gear_keys (gear_values g)))"
proof -
  let ?ps = "zip gear_keys (gear_values g)"
  have "sum_list (map length (tl (gear_values g))) \<le> 10 * length (tl (gear_values g))"
    using gear_values_short [of g] sum_list_mono [of "tl (gear_values g)" length "\<lambda>_. 10"]
    by (simp add: sum_list_triv)
  moreover have "length (dec (unat (manufacturer_id g))) < 20"
    using assms length_dec_19 by blast
  ultimately have "sum_list (map length (gear_values g)) < 400"
    by (subst gear_values_hd) simp
  moreover have maps: "map fst ?ps = gear_keys" "map snd ?ps = gear_values g"
    by simp_all
  moreover have "sum_list (map (length \<circ> fst) ?ps) = sum_list (map length (map fst ?ps))"
    "sum_list (map (length \<circ> snd) ?ps) = sum_list (map length (map snd ?ps))"
    by (simp_all del: map_fst_zip map_snd_zip)
  moreover have ne: "?ps \<noteq> []"
    using length_gear_values(1) [of g] length_gear_values(2) by (cases gear_keys; cases "gear_values g") auto
  ultimately have "length (json_object ?ps) < 2048"
    using gear_keys_length by (simp add: length_json_object)
  then show ?thesis
    using create_json_object_eq [OF ne, of JSON_BUFFER_SIZE] maps by (simp add: JSON_BUFFER_SIZE_def)
qed

section \<open>Lists of ids\<close>

text \<open>The answer of the backend: quoted decimal ids with commas between them, each after some spaces.\<close>

definition id_item :: "string \<times> u64 \<Rightarrow> string" where
  "id_item = (\<lambda>(sp, x). sp @ CHR 0x22 # dec (unat x) @ [CHR 0x22])"

definition id_list :: "(string \<times> u64) list \<Rightarrow> string" where
  "id_list xs = commas (map id_item xs)"

lemma dec_not_quote [simp]: "CHR 0x22 \<notin> set (dec n)"
  using dec_isdigit [of "CHR 0x22" n] by (auto simp: isdigit_def)

lemma takeWhile_quote [simp]: "takeWhile (\<lambda>c. c \<noteq> CHR 0x22) (dec n @ CHR 0x22 # t) = dec n"
  and dropWhile_quote [simp]: "dropWhile (\<lambda>c. c \<noteq> CHR 0x22) (dec n @ CHR 0x22 # t) = CHR 0x22 # t"
  using dec_not_quote [of n]
  by (auto simp: takeWhile_append dropWhile_append takeWhile_eq_all_conv dropWhile_eq_Nil_conv simp del: dec_not_quote)

lemma not_json_space [simp]: "\<not> json_space CHR 0x22" "\<not> json_space CHR '']''" "\<not> json_space CHR '',''"
  by (simp_all add: json_space_def)

lemma length_dec_u64_32 [simp]: "length (dec (unat (x :: u64))) < 32"
  using length_dec_u64 [of x] by simp

lemma parse_item:
  assumes "\<forall>c\<in>set sp. json_space c" and "length es < 64"
  shows "parse_elements (id_item (sp, x) @ t) es = parse_elements t (es @ [x])"
proof -
  have "dropWhile json_space (id_item (sp, x) @ t) = CHR 0x22 # dec (unat x) @ CHR 0x22 # t"
    using assms(1) by (simp add: id_item_def dropWhile_append)
  moreover have "hd (id_item (sp, x) @ t) \<noteq> CHR '']''"
    using assms(1) by (cases sp) (auto simp: id_item_def)
  ultimately show ?thesis
    using assms(2) by (subst parse_elements.simps) auto
qed

lemma parse_comma:
  assumes "length es < 64"
  shows "parse_elements (CHR '','' # t) es = parse_elements t es"
  using assms by (subst parse_elements.simps) simp

lemma parse_id_list:
  assumes "\<forall>(sp, x)\<in>set xs. \<forall>c\<in>set sp. json_space c" and "length es + length xs \<le> 64"
  shows "parse_elements (id_list xs @ t) es = parse_elements t (es @ map snd xs)"
  using assms
proof (induction xs arbitrary: es)
  case (Cons y ys)
  obtain sp x where y: "y = (sp, x)" by (cases y)
  have sp: "\<forall>c\<in>set sp. json_space c" using Cons.prems(1) by (auto simp: y)
  show ?case
  proof (cases "ys = []")
    case True
    then show ?thesis
      using parse_item [OF sp, of es x t] Cons.prems(2) by (simp add: id_list_def y)
  next
    case False
    then have "id_list (y # ys) @ t = id_item (sp, x) @ CHR '','' # id_list ys @ t"
      by (simp add: id_list_def commas_Cons y)
    also have "parse_elements \<dots> es = parse_elements (CHR '','' # id_list ys @ t) (es @ [x])"
      using parse_item [OF sp] Cons.prems(2) by simp
    also have "\<dots> = parse_elements (id_list ys @ t) (es @ [x])"
      using Cons.prems(2) False by (intro parse_comma) (cases ys; simp)
    also have "\<dots> = parse_elements t (es @ map snd (y # ys))"
      using Cons.IH [of "es @ [x]"] Cons.prems by (simp add: y)
    finally show ?thesis .
  qed
qed (simp add: id_list_def)

lemma parse_end: "parse_elements (CHR '']'' # t) es = Inr es"
  by (subst parse_elements.simps) simp

lemma parse_no_end:
  assumes "CHR 0x22 \<notin> set t" and "CHR '']'' \<notin> set t" and "length es < 64"
  shows "parse_elements t es = Inl Out_of_bounds"
  using assms(1,2)
proof (induction "length t" arbitrary: t rule: less_induct)
  case less
  let ?d = "dropWhile json_space t"
  have h: "\<not> (t \<noteq> [] \<and> hd t = CHR '']'')"
    using less.prems(2) by (cases t) auto
  show ?case
  proof (cases ?d)
    case Nil
    then show ?thesis
      using h assms(3) by (subst parse_elements.simps) (simp del: dropWhile_eq_Nil_conv)
  next
    case (Cons c u)
    have "set ?d \<subseteq> set t" "length ?d \<le> length t"
      by (auto dest: set_dropWhileD simp: length_dropWhile_le)
    with Cons less.prems have "c \<noteq> CHR 0x22" "CHR 0x22 \<notin> set u" "CHR '']'' \<notin> set u" "length u < length t"
      by auto
    then show ?thesis
      using less.hyps [of u] h Cons assms(3) by (subst parse_elements.simps) simp
  qed
qed

lemma parse_space_end:
  assumes "\<forall>c\<in>set sp. json_space c" and "sp \<noteq> []"
    and "CHR 0x22 \<notin> set t" and "CHR '']'' \<notin> set t" and "length es < 64"
  shows "parse_elements (sp @ CHR '']'' # t) es = Inl Out_of_bounds"
proof -
  have "dropWhile json_space (sp @ CHR '']'' # t) = CHR '']'' # t"
    using assms(1) by (simp add: dropWhile_append)
  moreover have "hd (sp @ CHR '']'' # t) \<noteq> CHR '']''"
    using assms(1,2) by (cases sp) auto
  ultimately have "parse_elements (sp @ CHR '']'' # t) es = parse_elements t es"
    using assms(5) by (subst parse_elements.simps) auto
  then show ?thesis
    using parse_no_end assms(3-5) by simp
qed

lemma parse_response:
  assumes "CHR 0x22 \<notin> set pre"
  shows "parseJSONResponse True (pre @ gears_key @ t) = map_sum (\<lambda>f. f) Some (parse_elements t [])"
proof -
  have "strstr (pre @ gears_key @ t) gears_key = Some (gears_key @ t)"
    using assms by (intro strstr_skip) (simp_all add: gears_key_def)
  then show ?thesis
    by (simp add: parseJSONResponse_def)
qed

end
