(* ===== verification/Wifi_Provisioning.thy ===== *)
theory Wifi_Provisioning
  imports State_Manager Device Http_Json
begin

text \<open>
  components/Wifi_provisioning: bringing up the network, through the provisioning manager
  when the device has no credentials, and the event handler that drives the state
  afterwards. The network stack is an argument: what each call returns, the MAC address,
  and the events it delivers. Every call made is recorded.
\<close>

section \<open>Events\<close>

datatype prov_event_id =
    WIFI_PROV_START | WIFI_PROV_CRED_RECV | WIFI_PROV_CRED_FAIL | WIFI_PROV_CRED_SUCCESS | WIFI_PROV_END
  | Other_prov_event

datatype wifi_event_id =
    WIFI_EVENT_STA_START | WIFI_EVENT_STA_DISCONNECTED | WIFI_EVENT_AP_STACONNECTED
  | WIFI_EVENT_AP_STADISCONNECTED | Other_wifi_event

datatype ip_event_id = IP_EVENT_STA_GOT_IP | Other_ip_event

datatype session_event_id =
    PROTOCOMM_SECURITY_SESSION_SETUP_OK
  | PROTOCOMM_SECURITY_SESSION_INVALID_SECURITY_PARAMS
  | PROTOCOMM_SECURITY_SESSION_CREDENTIALS_MISMATCH
  | Other_session_event

datatype esp_event =
    WIFI_PROV_EVENT prov_event_id
  | WIFI_EVENT wifi_event_id
  | IP_EVENT ip_event_id
  | PROTOCOMM_SECURITY_SESSION_EVENT session_event_id

text \<open>The calls into the network stack, those whose result is checked or used first.\<close>

datatype wifi_call =
    esp_netif_init | esp_event_loop_create_default | esp_event_handler_register nat
  | esp_wifi_init | wifi_prov_mgr_init | wifi_prov_mgr_is_provisioned
  | wifi_prov_mgr_start_provisioning string string "string option"
  | esp_wifi_set_mode_sta | esp_wifi_start
  | esp_netif_create_default_wifi_sta | esp_netif_create_default_wifi_ap
  | wifi_prov_mgr_endpoint_create string | wifi_prov_mgr_endpoint_register string
  | wifi_prov_mgr_disable_auto_stop
  | esp_qrcode_generate string
  | wifi_prov_mgr_deinit | wifi_prov_mgr_reset_sm_state_on_failure | esp_wifi_connect

record wifi =
  provisioned :: bool
  wifi_connected :: bool            \<comment> \<open>the bit of the event group\<close>
  retries :: nat
  calls :: "wifi_call list"

definition called :: "wifi_call \<Rightarrow> wifi \<Rightarrow> wifi" where
  "called c w = w\<lparr>calls := calls w @ [c]\<rparr>"

definition change_state :: "State_t \<Rightarrow> manager \<times> wifi \<Rightarrow> manager \<times> wifi" where
  "change_state st x = (snd (set_state st (fst x)), snd x)"

text \<open>
  \<open>max_retry\<close> is the retry count of the build option that resets the credentials on
  repeated failures, when that option is set.
\<close>

definition event_handler :: "nat option \<Rightarrow> esp_event \<Rightarrow> manager \<times> wifi \<Rightarrow> manager \<times> wifi" where
  "event_handler max_retry event x = (case x of (m, w) \<Rightarrow>
     (case event of
        WIFI_PROV_EVENT event_id \<Rightarrow>
          (case event_id of
             WIFI_PROV_CRED_FAIL \<Rightarrow>
               (case max_retry of
                  None \<Rightarrow> (m, w)
                | Some n \<Rightarrow>
                    let w = w\<lparr>retries := retries w + 1\<rparr>
                    in (m, if n \<le> retries w
                           then (called wifi_prov_mgr_reset_sm_state_on_failure w)\<lparr>retries := 0\<rparr> else w))
           | WIFI_PROV_CRED_SUCCESS \<Rightarrow> (m, if max_retry = None then w else w\<lparr>retries := 0\<rparr>)
           | WIFI_PROV_END \<Rightarrow> (m, called wifi_prov_mgr_deinit w)
           | _ \<Rightarrow> (m, w))
      | WIFI_EVENT event_id \<Rightarrow>
          (case event_id of
             WIFI_EVENT_STA_START \<Rightarrow> (m, called esp_wifi_connect w)
           | WIFI_EVENT_STA_DISCONNECTED \<Rightarrow>
               (case change_state NO_WIFI_STATE (m, w) of (m, w) \<Rightarrow> (m, called esp_wifi_connect w))
           | WIFI_EVENT_AP_STACONNECTED \<Rightarrow> change_state WIFI_PROVISIONING_STATE (m, w)
           | WIFI_EVENT_AP_STADISCONNECTED \<Rightarrow>
               if \<not> provisioned w then change_state AWAIT_WIFI_PROVISIONING_STATE (m, w) else (m, w)
           | Other_wifi_event \<Rightarrow> (m, w))
      | IP_EVENT IP_EVENT_STA_GOT_IP \<Rightarrow> (m, w\<lparr>provisioned := True, wifi_connected := True\<rparr>)
      | IP_EVENT Other_ip_event \<Rightarrow> (m, w)
      | PROTOCOMM_SECURITY_SESSION_EVENT _ \<Rightarrow> (m, w)))"

section \<open>Operations\<close>

text \<open>\<open>ESP_ERROR_CHECK(c)\<close>: a failed call aborts the program.\<close>

type_synonym stack = "wifi_call \<Rightarrow> esp_err"

definition ESP_ERROR_CHECK :: "stack \<Rightarrow> wifi_call \<Rightarrow> manager \<times> wifi \<Rightarrow> fault + manager \<times> wifi" where
  "ESP_ERROR_CHECK net c x =
     (if net c = ESP_OK then Inr (fst x, called c (snd x)) else Inl Abort)"

primrec checked_calls :: "stack \<Rightarrow> wifi_call list \<Rightarrow> manager \<times> wifi \<Rightarrow> fault + manager \<times> wifi" where
  "checked_calls net [] x = Inr x"
| "checked_calls net (c # cs) x =
     (case ESP_ERROR_CHECK net c x of Inl f \<Rightarrow> Inl f | Inr x \<Rightarrow> checked_calls net cs x)"

interpretation checked: runner "ESP_ERROR_CHECK net" "checked_calls net"
  by unfold_locales simp_all

definition wifi_init_sta :: "stack \<Rightarrow> manager \<times> wifi \<Rightarrow> fault + manager \<times> wifi" where
  "wifi_init_sta net x =
     (case ESP_ERROR_CHECK net esp_wifi_set_mode_sta x of
        Inl f \<Rightarrow> Inl f
      | Inr x \<Rightarrow>
          let x = (fst x, called esp_wifi_start (snd x))
          in if net esp_wifi_start \<noteq> ESP_OK then Inr (change_state NO_WIFI_STATE x)
             else Inr (change_state DALI_COMMUNICATION_INIT_STATE x))"

definition hex_digit :: "nat \<Rightarrow> char" where
  "hex_digit d = (if d < 10 then char_of (48 + d) else char_of (55 + d))"

definition hex2 :: "u8 \<Rightarrow> string" where
  "hex2 b = [hex_digit (unat b div 16), hex_digit (unat b mod 16)]"

text \<open>The name is printed into an array of \<open>size_max\<close> characters.\<close>

definition get_device_service_name :: "u8 list \<Rightarrow> nat \<Rightarrow> string" where
  "get_device_service_name eth_mac size_max =
     take (size_max - 1) (''PROV_'' @ hex2 (eth_mac ! 3) @ hex2 (eth_mac ! 4) @ hex2 (eth_mac ! 5))"

definition ESP_ERR_NO_MEM :: esp_err where "ESP_ERR_NO_MEM = 0x101"

definition custom_prov_data_handler :: "bool \<Rightarrow> esp_err \<times> (char list \<times> nat) option" where
  "custom_prov_data_handler strdup_ok =
     (if \<not> strdup_ok then (ESP_ERR_NO_MEM, None)
      else (ESP_OK, Some (''SUCCESS'' @ [NUL], length ''SUCCESS'' + 1)))"

text \<open>The text of the QR code, printed into an array of 150 characters.\<close>

definition wifi_prov_print_qr ::
    "string option \<Rightarrow> string option \<Rightarrow> string option \<Rightarrow> manager \<times> wifi \<Rightarrow> manager \<times> wifi" where
  "wifi_prov_print_qr name pop transport x =
     (case (name, transport) of
        (Some name, Some transport) \<Rightarrow>
          let payload = take 149
                (case pop of
                   Some pop \<Rightarrow> ''{\"ver\":\"'' @ ''v1'' @ ''\",\"name\":\"'' @ name @ ''\"'' @
                     '',\"pop\":\"'' @ pop @ ''\",\"transport\":\"'' @ transport @ ''\"}''
                 | None \<Rightarrow> ''{\"ver\":\"'' @ ''v1'' @ ''\",\"name\":\"'' @ name @ ''\"'' @
                     '',\"transport\":\"'' @ transport @ ''\"}'')
          in (fst x, called (esp_qrcode_generate payload) (snd x))
      | _ \<Rightarrow> x)"

text \<open>
  Waiting for the connection: the events arrive meanwhile; the bit is cleared on return.
  When the events end before the bit is set, the task is still waiting.
\<close>

primrec await_connection ::
    "nat option \<Rightarrow> esp_event list \<Rightarrow> manager \<times> wifi \<Rightarrow> fault + (manager \<times> wifi) \<times> esp_event list" where
  "await_connection max_retry [] x =
     (if wifi_connected (snd x) then Inr ((fst x, (snd x)\<lparr>wifi_connected := False\<rparr>), []) else Inl Still_running)"
| "await_connection max_retry (ev # evs) x =
     (if wifi_connected (snd x) then Inr ((fst x, (snd x)\<lparr>wifi_connected := False\<rparr>), ev # evs)
      else await_connection max_retry evs (event_handler max_retry ev x))"

definition start_calls :: "wifi_call list" where
  "start_calls = [esp_netif_init, esp_event_loop_create_default,
     esp_event_handler_register 0, esp_event_handler_register 1,
     esp_event_handler_register 2, esp_event_handler_register 3]"

definition start_provisioning :: "stack \<Rightarrow> bool \<Rightarrow> u8 list \<Rightarrow> string \<Rightarrow> manager \<times> wifi \<Rightarrow> fault + manager \<times> wifi" where
  "start_provisioning net reprovisioning mac popID x =
     (let x = change_state AWAIT_WIFI_PROVISIONING_STATE x;
          service_name = get_device_service_name mac 12;
          x = (fst x, called (wifi_prov_mgr_endpoint_create ''custom-data'') (snd x));
          x = (if reprovisioning then (fst x, called wifi_prov_mgr_disable_auto_stop (snd x)) else x)
      in case ESP_ERROR_CHECK net (wifi_prov_mgr_start_provisioning popID service_name None) x of
           Inl f \<Rightarrow> Inl f
         | Inr x \<Rightarrow>
             let x = (fst x, called (wifi_prov_mgr_endpoint_register ''custom-data'') (snd x))
             in Inr (wifi_prov_print_qr (Some service_name) (Some popID) (Some ''softap'') x))"

text \<open>
  Up to finding out whether there are credentials: \<open>is_provisioned\<close> is what the manager
  finds in flash.
\<close>

definition wifi_setup :: "stack \<Rightarrow> bool \<Rightarrow> manager \<times> wifi \<Rightarrow> fault + manager \<times> wifi" where
  "wifi_setup net is_provisioned x =
     (case checked_calls net start_calls (fst x, (snd x)\<lparr>wifi_connected := False\<rparr>) of
        Inl f \<Rightarrow> Inl f
      | Inr x \<Rightarrow>
          let x = (fst x, called esp_netif_create_default_wifi_ap
                     (called esp_netif_create_default_wifi_sta (snd x)))
          in (case checked_calls net [esp_wifi_init, wifi_prov_mgr_init, wifi_prov_mgr_is_provisioned] x of
                Inl f \<Rightarrow> Inl f
              | Inr x \<Rightarrow> Inr (fst x, (snd x)\<lparr>provisioned := is_provisioned\<rparr>)))"

text \<open>\<open>reprovisioning\<close> is a build option.\<close>

definition init_wifi_provisioning ::
    "stack \<Rightarrow> nat option \<Rightarrow> bool \<Rightarrow> u8 list \<Rightarrow> bool \<Rightarrow> esp_event list \<Rightarrow> string \<Rightarrow> manager \<times> wifi
     \<Rightarrow> fault + (manager \<times> wifi) \<times> esp_event list" where
  "init_wifi_provisioning net max_retry reprovisioning mac is_provisioned evs popID x =
     (case wifi_setup net is_provisioned x of
        Inl f \<Rightarrow> Inl f
      | Inr x \<Rightarrow>
          (case (if \<not> is_provisioned then start_provisioning net reprovisioning mac popID x
                 else wifi_init_sta net (fst x, called wifi_prov_mgr_deinit (snd x))) of
             Inl f \<Rightarrow> Inl f
           | Inr x \<Rightarrow> await_connection max_retry evs x))"

section \<open>Waiting for an address\<close>

lemma checked_calls_result:
  "checked_calls net cs x =
    (if \<forall>c\<in>set cs. net c = ESP_OK then Inr (fst x, (snd x)\<lparr>calls := calls (snd x) @ cs\<rparr>) else Inl Abort)"
  by (induction cs arbitrary: x) (auto simp: ESP_ERROR_CHECK_def called_def)

lemma event_handler_connects:
  "wifi_connected (snd (event_handler r ev x)) \<longleftrightarrow> wifi_connected (snd x) \<or> ev = IP_EVENT IP_EVENT_STA_GOT_IP"
  by (auto simp: event_handler_def called_def change_state_def Let_def
      split: prod.split esp_event.split prov_event_id.split wifi_event_id.split ip_event_id.split option.split)

lemma await_connection_ends_iff:
  "(\<exists>y. await_connection r evs x = Inr y) \<longleftrightarrow> wifi_connected (snd x) \<or> IP_EVENT IP_EVENT_STA_GOT_IP \<in> set evs"
  by (induction evs arbitrary: x) (auto simp: event_handler_connects)

lemma await_connection_Inl: "await_connection r evs x = Inl f \<Longrightarrow> f = Still_running"
  by (induction evs arbitrary: x) (auto split: if_splits)

text \<open>The calls of \<open>init_wifi_provisioning\<close> whose failure aborts the program.\<close>

definition checked_always :: "wifi_call list" where
  "checked_always = start_calls @ [esp_wifi_init, wifi_prov_mgr_init, wifi_prov_mgr_is_provisioned]"

definition checked_last :: "bool \<Rightarrow> u8 list \<Rightarrow> string \<Rightarrow> wifi_call" where
  "checked_last is_provisioned mac popID =
     (if is_provisioned then esp_wifi_set_mode_sta
      else wifi_prov_mgr_start_provisioning popID (get_device_service_name mac 12) None)"

lemma connected_unchanged [simp]:
  "wifi_connected (called c w) = wifi_connected w" "wifi_connected (snd (change_state st x)) = wifi_connected (snd x)"
  "wifi_connected (snd (wifi_prov_print_qr name pop tr x)) = wifi_connected (snd x)"
  by (simp_all add: called_def change_state_def wifi_prov_print_qr_def Let_def split: option.split)

lemma started:
  "net esp_wifi_set_mode_sta = ESP_OK \<Longrightarrow>
    \<exists>y. wifi_init_sta net x = Inr y \<and> wifi_connected (snd y) = wifi_connected (snd x)"
  "net (wifi_prov_mgr_start_provisioning popID (get_device_service_name mac 12) None) = ESP_OK \<Longrightarrow>
    \<exists>y. start_provisioning net re mac popID x = Inr y \<and> wifi_connected (snd y) = wifi_connected (snd x)"
  by (auto simp: wifi_init_sta_def start_provisioning_def ESP_ERROR_CHECK_def Let_def simp del: split_paired_Ex)

lemma start_aborts:
  "net esp_wifi_set_mode_sta \<noteq> ESP_OK \<Longrightarrow> wifi_init_sta net x = Inl Abort"
  "net (wifi_prov_mgr_start_provisioning popID (get_device_service_name mac 12) None) \<noteq> ESP_OK \<Longrightarrow>
    start_provisioning net re mac popID x = Inl Abort"
  by (simp_all add: wifi_init_sta_def start_provisioning_def ESP_ERROR_CHECK_def Let_def)

lemma wifi_setup_result:
  "wifi_setup net ip x =
    (if \<forall>c\<in>set checked_always. net c = ESP_OK
     then Inr (fst x, (snd x)\<lparr>wifi_connected := False,
       calls := calls (snd x) @ start_calls @ [esp_netif_create_default_wifi_sta, esp_netif_create_default_wifi_ap,
         esp_wifi_init, wifi_prov_mgr_init, wifi_prov_mgr_is_provisioned], provisioned := ip\<rparr>)
     else Inl Abort)"
  by (auto simp: wifi_setup_def checked_calls_result checked_always_def called_def)

lemma init_wifi_calls:
  obtains y where "init_wifi_provisioning net r re mac ip evs popID x =
     (if \<forall>c\<in>set (checked_always @ [checked_last ip mac popID]). net c = ESP_OK
      then await_connection r evs y else Inl Abort)" and "\<not> wifi_connected (snd y)"
proof (cases "\<forall>c\<in>set checked_always. net c = ESP_OK")
  case True
  then obtain z where z: "wifi_setup net ip x = Inr z" "\<not> wifi_connected (snd z)"
    by (simp add: wifi_setup_result)
  show thesis
  proof (cases "net (checked_last ip mac popID) = ESP_OK")
    case ok: True
    obtain y where "(if \<not> ip then start_provisioning net re mac popID z
        else wifi_init_sta net (fst z, called wifi_prov_mgr_deinit (snd z))) = Inr y" "\<not> wifi_connected (snd y)"
      using ok z(2) started(1) [of net "(fst z, called wifi_prov_mgr_deinit (snd z))"] started(2) [of net popID mac re z]
      by (cases ip) (auto simp: checked_last_def)
    then show thesis
      using True ok that [of y] by (simp add: init_wifi_provisioning_def z(1))
  next
    case False
    then have "init_wifi_provisioning net r re mac ip evs popID x = Inl Abort"
      by (auto simp: init_wifi_provisioning_def z(1) checked_last_def start_aborts split: if_splits)
    then show thesis using False z(2) by (intro that [of z]) simp_all
  qed
next
  case False
  then have "init_wifi_provisioning net r re mac ip evs popID x = Inl Abort"
    by (simp only: init_wifi_provisioning_def wifi_setup_result if_False sum.case)
  then show thesis
    using False by (intro that [of "(fst x, (snd x)\<lparr>wifi_connected := False\<rparr>)"]) auto
qed

section \<open>Properties\<close>

text \<open>
  C30: Bringing up the network aborts exactly when one of its checked calls fails; otherwise
  it returns exactly when the station gets an address, however many connections fail
  before that.
\<close>

theorem network_start_returns_iff_connected:
  fixes mac popID is_provisioned
  defines "checked \<equiv> set (checked_always @ [checked_last is_provisioned mac popID])"
  shows "((\<exists>y. init_wifi_provisioning net max_retry reprov mac is_provisioned evs popID x = Inr y) \<longleftrightarrow>
      (\<forall>c\<in>checked. net c = ESP_OK) \<and> IP_EVENT IP_EVENT_STA_GOT_IP \<in> set evs)
    \<and> (init_wifi_provisioning net max_retry reprov mac is_provisioned evs popID x = Inl Abort \<longleftrightarrow>
      \<not> (\<forall>c\<in>checked. net c = ESP_OK))"
proof -
  obtain y where y: "init_wifi_provisioning net max_retry reprov mac is_provisioned evs popID x =
     (if \<forall>c\<in>checked. net c = ESP_OK then await_connection max_retry evs y else Inl Abort)" "\<not> wifi_connected (snd y)"
    unfolding checked_def by (rule init_wifi_calls)
  show ?thesis
    using y(2) await_connection_ends_iff [of max_retry evs y] await_connection_Inl [of max_retry evs y Abort]
    unfolding y(1) by auto
qed

lemma network_start_returns_iff_connected_witness:
  "\<forall>x. (\<exists>y. init_wifi_provisioning (\<lambda>_. 0) None False (replicate 6 0) True
      [WIFI_EVENT WIFI_EVENT_STA_START, WIFI_EVENT WIFI_EVENT_STA_DISCONNECTED, IP_EVENT IP_EVENT_STA_GOT_IP]
      ''abcd1234'' x = Inr y)
   \<and> init_wifi_provisioning (\<lambda>c. if c = esp_netif_init then 1 else 0) None False (replicate 6 0) True
      [] ''abcd1234'' x = Inl Abort"
proof
  fix x
  show "(\<exists>y. init_wifi_provisioning (\<lambda>_. 0) None False (replicate 6 0) True
      [WIFI_EVENT WIFI_EVENT_STA_START, WIFI_EVENT WIFI_EVENT_STA_DISCONNECTED, IP_EVENT IP_EVENT_STA_GOT_IP]
      ''abcd1234'' x = Inr y)
   \<and> init_wifi_provisioning (\<lambda>c. if c = esp_netif_init then 1 else 0) None False (replicate 6 0) True
      [] ''abcd1234'' x = Inl Abort"
    using network_start_returns_iff_connected
      [of "\<lambda>_. 0" None False "replicate 6 0" True "[WIFI_EVENT WIFI_EVENT_STA_START, WIFI_EVENT WIFI_EVENT_STA_DISCONNECTED,
        IP_EVENT IP_EVENT_STA_GOT_IP]" "''abcd1234''" x]
      network_start_returns_iff_connected
      [of "\<lambda>c. if c = esp_netif_init then 1 else 0" None False "replicate 6 0" True "[]" "''abcd1234''" x]
    by (auto simp: checked_always_def start_calls_def)
qed

lemma hex_digit_inject: "a < 16 \<Longrightarrow> b < 16 \<Longrightarrow> hex_digit a = hex_digit b \<Longrightarrow> a = b"
proof -
  assume ab: "a < 16" "b < 16" "hex_digit a = hex_digit b"
  have "of_char (hex_digit n) = (if n < 10 then 48 + n else 55 + n)" if "n < 16" for n :: nat
    using that by (simp add: hex_digit_def of_char_of take_bit_nat_eq_self_iff)
  with ab have "(if a < 10 then 48 + a else 55 + a) = (if b < 10 then 48 + b else 55 + b)"
    by metis
  with ab show "a = b" by (auto split: if_splits)
qed

lemma hex2_inject: "hex2 a = hex2 b \<Longrightarrow> a = b"
proof -
  assume h: "hex2 a = hex2 b"
  have l: "unat a < 256" "unat b < 256"
    using unsigned_less [of a, where ?'a = nat] unsigned_less [of b, where ?'a = nat] by simp_all
  then have "unat a div 16 < 16" "unat b div 16 < 16" "unat a mod 16 < 16" "unat b mod 16 < 16"
    by auto
  with h have "unat a div 16 = unat b div 16" "unat a mod 16 = unat b mod 16"
    unfolding hex2_def using hex_digit_inject by blast+
  then have "unat a = unat b" by (metis div_mult_mod_eq)
  then show "a = b" by (simp only: unsigned_word_eqI)
qed

lemma hex2_plain: "CHR 0x22 \<notin> set (hex2 b)" "length (hex2 b) = 2"
proof -
  have "of_char (hex_digit n) \<noteq> (34 :: nat)" if "n < 16" for n
    using that by (simp add: hex_digit_def of_char_of take_bit_nat_eq_self_iff)
  then have "hex_digit n \<noteq> CHR 0x22" if "n < 16" for n
    using that by fastforce
  from this [symmetric] have "CHR 0x22 \<noteq> hex_digit n" if "n < 16" for n
    using that by blast
  then show "CHR 0x22 \<notin> set (hex2 b)"
    using unsigned_less [of b, where ?'a = nat] by (auto simp: hex2_def)
qed (simp add: hex2_def)

lemma service_name:
  "get_device_service_name mac 12 = ''PROV_'' @ hex2 (mac ! 3) @ hex2 (mac ! 4) @ hex2 (mac ! 5)"
  by (simp add: get_device_service_name_def hex2_def)

lemma service_name_inject:
  assumes "length mac = 6" and "length mac' = 6"
  shows "get_device_service_name mac 12 = get_device_service_name mac' 12 \<longleftrightarrow> drop 3 mac = drop 3 mac'"
proof -
  have d: "drop 3 m = [m ! 3, m ! 4, m ! 5]" if "length m = 6" for m :: "u8 list"
    using that by (auto simp: numeral_eq_Suc length_Suc_conv)
  show ?thesis
    unfolding service_name d [OF assms(1)] d [OF assms(2)]
    using hex2_inject by (auto simp: hex2_plain append_eq_append_conv)
qed

lemma qr_payload:
  fixes mac :: "u8 list" and pop :: string
  assumes "length pop \<le> 9" and "CHR 0x22 \<notin> set pop"
  defines "name \<equiv> get_device_service_name mac 12"
  defines "payload \<equiv> json_object [(''ver'', ''v1''), (''name'', name), (''pop'', pop), (''transport'', ''softap'')]"
  shows "snd (wifi_prov_print_qr (Some name) (Some pop) (Some ''softap'') x) = called (esp_qrcode_generate payload) (snd x)"
    and "read_field ''name'' payload = Some name" and "read_field ''pop'' payload = Some pop"
    and "read_field ''transport'' payload = Some ''softap''"
proof -
  let ?ps = "[(''ver'', ''v1''), (''name'', name), (''pop'', pop), (''transport'', ''softap'')]"
  have name: "length name = 11" "CHR 0x22 \<notin> set name"
    by (simp_all add: name_def service_name hex2_plain)
  have "length payload \<le> 149"
    using name(1) assms(1) by (simp add: payload_def length_json_object)
  moreover have "payload = ''{\"ver\":\"'' @ ''v1'' @ ''\",\"name\":\"'' @ name @ ''\"'' @
      '',\"pop\":\"'' @ pop @ ''\",\"transport\":\"'' @ ''softap'' @ ''\"}''"
    by (simp add: payload_def json_object_def json_pair_def)
  ultimately show "snd (wifi_prov_print_qr (Some name) (Some pop) (Some ''softap'') x) = called (esp_qrcode_generate payload) (snd x)"
    unfolding wifi_prov_print_qr_def option.case prod.case Let_def snd_conv by (metis take_all)
  have "\<forall>(k, v)\<in>set ?ps. CHR 0x22 \<notin> set k \<and> CHR 0x22 \<notin> set v"
    using name(2) assms(2) by simp
  note r = read_field_object [OF this, where rest = "[]", simplified append_Nil2, folded payload_def]
  show "read_field ''name'' payload = Some name" "read_field ''pop'' payload = Some pop"
    "read_field ''transport'' payload = Some ''softap''"
    by (rule r; simp add: plain_def)+
qed

text \<open>
  C39: The provisioning code shown for a device without credentials carries its name, the
  proof of possession and the transport, untruncated and readable, and devices whose
  addresses differ in the last three bytes have different names.
\<close>

theorem provisioning_code_identifies_device:
  assumes "length popID \<le> 9" and "CHR 0x22 \<notin> set popID" and "length mac = 6"
    and "net (wifi_prov_mgr_start_provisioning popID (get_device_service_name mac 12) None) = ESP_OK"
  shows "\<exists>y payload. start_provisioning net reprov mac popID x = Inr y
    \<and> last (calls (snd y)) = esp_qrcode_generate payload
    \<and> read_field ''name'' payload = Some (get_device_service_name mac 12)
    \<and> read_field ''pop'' payload = Some popID \<and> read_field ''transport'' payload = Some ''softap''
    \<and> (\<forall>mac'. length mac' = 6 \<longrightarrow>
        (get_device_service_name mac' 12 = get_device_service_name mac 12 \<longleftrightarrow> drop 3 mac' = drop 3 mac))"
proof -
  note q = qr_payload [OF assms(1,2), where mac = mac]
  obtain x1 where "start_provisioning net reprov mac popID x
      = Inr (wifi_prov_print_qr (Some (get_device_service_name mac 12)) (Some popID) (Some ''softap'') x1)"
    using assms(4) by (auto simp: start_provisioning_def ESP_ERROR_CHECK_def Let_def)
  moreover have "last (calls (snd (wifi_prov_print_qr (Some (get_device_service_name mac 12)) (Some popID) (Some ''softap'') x1)))
      = esp_qrcode_generate (json_object [(''ver'', ''v1''), (''name'', get_device_service_name mac 12),
          (''pop'', popID), (''transport'', ''softap'')])"
    unfolding q(1) by (simp add: called_def)
  ultimately show ?thesis
    using q(2-4) service_name_inject [OF _ assms(3)] by blast
qed

lemma provisioning_code_identifies_device_witness:
  "\<exists>y payload. start_provisioning (\<lambda>_. 0) False [1, 2, 3, 0xAB, 0, 9] ''abcd1234'' (initial_manager,
      \<lparr>provisioned = False, wifi_connected = False, retries = 0, calls = []\<rparr>) = Inr y
    \<and> last (calls (snd y)) = esp_qrcode_generate payload \<and> read_field ''name'' payload = Some ''PROV_AB0009''"
proof -
  have name: "get_device_service_name [1, 2, 3, 0xAB, 0, 9] 12 = ''PROV_AB0009''"
    by code_simp
  show ?thesis
    using provisioning_code_identifies_device [of "''abcd1234''" "[1, 2, 3, 0xAB, 0, 9]" "\<lambda>_. 0" False
        "(initial_manager, \<lparr>provisioned = False, wifi_connected = False, retries = 0, calls = []\<rparr>)", unfolded name]
    by auto
qed

end
