(* ===== verification/Input_Button.thy ===== *)
theory Input_Button
  imports Nvs_Store
begin

text \<open>
  components/Input_button: holding the button for ten seconds resets the device. The
  software timers are modelled with the ticks each has left; a timer that runs out calls
  \<open>reset_task\<close>. The restart is recorded, and nothing runs after it. The tokens are in the
  flash library of Nvs_Handler.
\<close>

section \<open>State\<close>

record 'n button =
  flash :: "'n flash"
  hold_timer :: "nat option"
  timers :: "(nat \<times> nat) list"       \<comment> \<open>running timers and their ticks left\<close>
  next_timer :: nat
  provisioning_reset :: bool
  restarted :: bool

text \<open>Edge interrupts, with the pin level read and whether a timer could be created; and ticks.\<close>

datatype button_event = Edge bool bool | Tick

text \<open>Ten seconds in ticks of a timer that ticks \<open>hz\<close> times a second.\<close>

definition BUTTON_HOLD_DURATION :: "nat \<Rightarrow> nat" where
  "BUTTON_HOLD_DURATION hz = 10000 * hz div 1000"

section \<open>Operations\<close>

definition reset_task :: "'n nvs_ops \<Rightarrow> 'n button \<Rightarrow> 'n button" where
  "reset_task ops s =
     (let s = s\<lparr>provisioning_reset := True\<rparr>;
          s = s\<lparr>flash := nvs_delete_key_value_pair ops ''authentication'' ''refresh_token'' (flash s)\<rparr>;
          s = s\<lparr>flash := nvs_delete_key_value_pair ops ''authentication'' ''access_token'' (flash s)\<rparr>
      in s\<lparr>restarted := True\<rparr>)"

text \<open>\<open>hold\<close> is the duration in ticks; starting a timer that was not created is an assertion failure.\<close>

definition button_press_callback :: "nat \<Rightarrow> bool \<Rightarrow> 'n button \<Rightarrow> fault + 'n button" where
  "button_press_callback hold create_ok s =
     (if \<not> create_ok then Inl Abort
      else Inr (s\<lparr>hold_timer := Some (next_timer s), timers := timers s @ [(next_timer s, hold)],
                  next_timer := next_timer s + 1\<rparr>))"

definition button_release_callback :: "'n button \<Rightarrow> 'n button" where
  "button_release_callback s =
     (case hold_timer s of
        None \<Rightarrow> s
      | Some h \<Rightarrow> s\<lparr>timers := filter (\<lambda>(t, n). t \<noteq> h) (timers s), hold_timer := None\<rparr>)"

definition gpio_input_button_isr_handler :: "nat \<Rightarrow> bool \<Rightarrow> bool \<Rightarrow> 'n button \<Rightarrow> fault + 'n button" where
  "gpio_input_button_isr_handler hold level create_ok s =
     (if level then button_press_callback hold create_ok s else Inr (button_release_callback s))"

text \<open>A tick of the timer service: a timer with no tick left after it expires.\<close>

definition timer_tick :: "'n nvs_ops \<Rightarrow> 'n button \<Rightarrow> 'n button" where
  "timer_tick ops s =
     (let s = s\<lparr>timers := map (\<lambda>(t, n). (t, n - 1)) (timers s)\<rparr>
      in if \<exists>(t, n)\<in>set (timers s). n = 0 then reset_task ops s else s)"

definition button_step :: "'n nvs_ops \<Rightarrow> nat \<Rightarrow> button_event \<Rightarrow> 'n button \<Rightarrow> fault + 'n button" where
  "button_step ops hold ev s =
     (if restarted s then Inr s
      else case ev of
        Edge level create_ok \<Rightarrow> gpio_input_button_isr_handler hold level create_ok s
      | Tick \<Rightarrow> Inr (timer_tick ops s))"

primrec button_run :: "'n nvs_ops \<Rightarrow> nat \<Rightarrow> button_event list \<Rightarrow> 'n button \<Rightarrow> fault + 'n button" where
  "button_run ops hold [] s = Inr s"
| "button_run ops hold (ev # evs) s =
     (case button_step ops hold ev s of Inl f \<Rightarrow> Inl f | Inr s \<Rightarrow> button_run ops hold evs s)"

section \<open>Initialisation\<close>

text \<open>
  The pull-down is set from the pull-up constant, as in the source; the third message
  tests the result of the second call. The arguments are what the three calls return.
\<close>

definition input_button_config :: gpio_config where
  "input_button_config = \<lparr>
     cfg_mode = GPIO_MODE_INPUT, cfg_intr_type = GPIO_INTR_ANYEDGE, cfg_pin_bit_mask = push_bit 1 1,
     cfg_pull_down_en = True, cfg_pull_up_en = True\<rparr>"

definition init_input_button :: "esp_err \<Rightarrow> esp_err \<Rightarrow> esp_err \<Rightarrow> log_entry list" where
  "init_input_button config_err install_err add_err =
     (let log = (if config_err \<noteq> ESP_OK then [LOGE ''Failed to configure GPIO for input button''] else []);
          log = (if install_err \<noteq> ESP_OK then log @ [LOGE ''Failed to install input button interrupt service''] else log)
      in if install_err \<noteq> ESP_OK
         then log @ [LOGE ''Failed to add GPIO ISR handler for input button'']
         else log @ [LOGI ''GPIO ISR handler for input button added successfully''])"

section \<open>Running timers\<close>

interpretation presses: runner "button_step ops hold" "button_run ops hold"
  by unfold_locales simp_all

lemma restarted_run: "restarted s \<Longrightarrow> button_run ops hold es s = Inr s"
  by (induction es) (simp_all add: button_step_def)

lemma ticks_before_expiry:
  assumes "\<not> restarted s" and "\<forall>(t, n)\<in>set (timers s). k < n"
  shows "button_run ops hold (replicate k Tick) s = Inr (s\<lparr>timers := map (\<lambda>(t, n). (t, n - k)) (timers s)\<rparr>)"
  using assms
proof (induction k arbitrary: s)
  case 0
  then show ?case by (simp add: case_prod_beta')
next
  case (Suc k)
  let ?s = "s\<lparr>timers := map (\<lambda>(t, n). (t, n - 1)) (timers s)\<rparr>"
  have "\<not> (\<exists>(t, n)\<in>set (timers ?s). n = 0)" "\<forall>(t, n)\<in>set (timers ?s). k < n"
    using Suc.prems(2) by fastforce+
  then have "timer_tick ops s = ?s" and "\<forall>(t, n)\<in>set (timers ?s). k < n"
    unfolding timer_tick_def Let_def by simp_all
  then show ?case
    using Suc.IH [of ?s] Suc.prems(1) by (simp add: button_step_def comp_def case_prod_beta')
qed

lemma expiry:
  assumes "\<not> restarted s" and "\<exists>(t, n)\<in>set (timers s). n = 1"
  shows "button_step ops hold Tick s = Inr (reset_task ops (s\<lparr>timers := map (\<lambda>(t, n). (t, n - 1)) (timers s)\<rparr>))"
proof -
  obtain t where "(t, 1) \<in> set (timers s)"
    using assms(2) by auto
  then have "(t, 0) \<in> set (map (\<lambda>(t, n). (t, n - 1)) (timers s))"
    by (force simp: image_iff)
  then have "\<exists>(t, n)\<in>set (timers (s\<lparr>timers := map (\<lambda>(t, n). (t, n - 1)) (timers s)\<rparr>)). n = 0"
    by (intro bexI [of _ "(t, 0)"]) simp_all
  then show ?thesis
    using assms(1) by (simp only: button_step_def timer_tick_def Let_def if_True if_False button_event.case)
qed

text \<open>A press held for \<open>held\<close> ticks, then released for \<open>pause\<close> ticks.\<close>

definition press :: "nat \<Rightarrow> nat \<Rightarrow> button_event list" where
  "press held pause = Edge True True # replicate held Tick @ Edge False True # replicate pause Tick"

definition idle :: "'n button \<Rightarrow> bool" where
  "idle s \<longleftrightarrow> \<not> restarted s \<and> timers s = []"

lemma short_press:
  assumes "idle s" and "held < hold"
  shows "\<exists>s'. button_run ops hold (press held pause) s = Inr s' \<and> idle s' \<and> flash s' = flash s
    \<and> provisioning_reset s' = provisioning_reset s"
proof -
  let ?s1 = "s\<lparr>hold_timer := Some (next_timer s), timers := [(next_timer s, hold)], next_timer := next_timer s + 1\<rparr>"
  let ?s2 = "?s1\<lparr>timers := [(next_timer s, hold - held)]\<rparr>"
  let ?s3 = "?s2\<lparr>timers := [], hold_timer := None\<rparr>"
  have 1: "button_step ops hold (Edge True True) s = Inr ?s1"
    using assms(1) by (simp add: button_step_def gpio_input_button_isr_handler_def button_press_callback_def idle_def)
  have 2: "button_run ops hold (replicate held Tick) ?s1 = Inr ?s2"
    using ticks_before_expiry [of ?s1 held ops hold] assms by (simp add: idle_def)
  have 3: "button_step ops hold (Edge False True) ?s2 = Inr ?s3"
    using assms(1) by (simp add: button_step_def gpio_input_button_isr_handler_def button_release_callback_def idle_def)
  have 4: "button_run ops hold (replicate pause Tick) ?s3 = Inr ?s3"
    using ticks_before_expiry [of ?s3 pause ops hold] assms(1) by (simp add: idle_def)
  have "button_run ops hold (press held pause) s = Inr ?s3"
    by (simp only: press_def presses.run_append button_run.simps 1 2 3 4 sum.case)
  then show ?thesis
    using assms(1) by (simp add: idle_def)
qed

section \<open>Properties\<close>

text \<open>
  C32: Presses shorter than ten seconds, any number of them, do nothing: no restart, and
  the flash is untouched. A press held for ten seconds resets: credentials forgotten, both
  tokens erased, restart.
\<close>

theorem only_a_long_press_resets:
  assumes "idle s" and "\<forall>(held, pause)\<in>set presses. held < hold" and "0 < hold"
    and "nvs_store ops view" and "\<forall>k\<in>{''refresh_token'', ''access_token''}. entries (view (drv (flash s))) ''authentication'' k \<noteq> None"
  shows "\<exists>s' s''. button_run ops hold (concat (map (\<lambda>(h, p). press h p) presses)) s = Inr s'
    \<and> \<not> restarted s' \<and> flash s' = flash s
    \<and> button_run ops hold (Edge True True # replicate hold Tick) s' = Inr s''
    \<and> restarted s'' \<and> provisioning_reset s''
    \<and> (\<forall>k\<in>{''refresh_token'', ''access_token''}. entries (view (drv (flash s''))) ''authentication'' k = None)"
proof -
  obtain s' where s': "button_run ops hold (concat (map (\<lambda>(h, p). press h p) presses)) s = Inr s'"
    "idle s'" "flash s' = flash s"
    using assms(1,2)
  proof (induction presses arbitrary: s thesis)
    case Nil
    then show ?case by auto
  next
    case (Cons q presses)
    obtain h p where q: "q = (h, p)" by (cases q)
    have "h < hold" using Cons.prems(3) by (simp add: q)
    from short_press [OF Cons.prems(2) this, of ops p] obtain t where
      t: "button_run ops hold (press h p) s = Inr t" "idle t" "flash t = flash s" by blast
    show ?case
      by (rule Cons.IH [OF _ t(2)]) (use Cons.prems(1,3) t in \<open>auto simp: q presses.run_append\<close>)
  qed
  let ?s1 = "s'\<lparr>hold_timer := Some (next_timer s'), timers := [(next_timer s', hold)], next_timer := next_timer s' + 1\<rparr>"
  let ?s2 = "?s1\<lparr>timers := [(next_timer s', 1)]\<rparr>"
  have 1: "button_step ops hold (Edge True True) s' = Inr ?s1"
    using s'(2) by (simp add: button_step_def gpio_input_button_isr_handler_def button_press_callback_def idle_def)
  have 2: "button_run ops hold (replicate (hold - 1) Tick) ?s1 = Inr ?s2"
    using ticks_before_expiry [of ?s1 "hold - 1" ops hold] assms(3) s'(2) by (simp add: idle_def)
  have 3: "button_step ops hold Tick ?s2 = Inr (reset_task ops (?s2\<lparr>timers := [(next_timer s', 0)]\<rparr>))"
    using expiry [of ?s2 ops hold] s'(2) by (simp add: idle_def)
  have hold: "replicate hold Tick = replicate (hold - 1) Tick @ [Tick]"
    using assms(3) by (metis Suc_pred' replicate_Suc replicate_append_same)
  have "button_run ops hold (Edge True True # replicate hold Tick) s' = Inr (reset_task ops (?s2\<lparr>timers := [(next_timer s', 0)]\<rparr>))"
    unfolding hold by (simp only: button_run.simps presses.run_append 1 2 3 sum.case)
  moreover have "entries (view (drv (flash (reset_task ops (?s2\<lparr>timers := [(next_timer s', 0)]\<rparr>))))) ''authentication'' k = None"
    if "k \<in> {''refresh_token'', ''access_token''}" for k
    using that assms(5) by (auto simp: reset_task_def nvs_delete_store [OF assms(4)] s'(3))
  ultimately show ?thesis
    using s' by (auto simp: reset_task_def idle_def)
qed

text \<open>
  C33: When the contact bounces and the handler sees a second rising edge, the first timer is
  lost: releasing the button stops only the second, and the device still resets ten
  seconds after the first press.
\<close>

theorem bounced_press_resets_after_release:
  assumes "idle s" and "a + b + c = hold" and "0 < c"
  shows "\<exists>s'. button_run ops hold
      ([Edge True True] @ replicate a Tick @ [Edge True True] @ replicate b Tick @ [Edge False True]) s = Inr s'
    \<and> \<not> restarted s' \<and> hold_timer s' = None
    \<and> (\<exists>s''. button_run ops hold (replicate c Tick) s' = Inr s'' \<and> restarted s'' \<and> provisioning_reset s'')"
proof -
  let ?n = "next_timer s"
  let ?s1 = "s\<lparr>hold_timer := Some ?n, timers := [(?n, hold)], next_timer := ?n + 1\<rparr>"
  let ?s2 = "?s1\<lparr>timers := [(?n, hold - a)]\<rparr>"
  let ?s3 = "s\<lparr>hold_timer := Some (?n + 1), timers := [(?n, hold - a), (?n + 1, hold)], next_timer := ?n + 2\<rparr>"
  let ?s4 = "?s3\<lparr>timers := [(?n, hold - a - b), (?n + 1, hold - b)]\<rparr>"
  let ?s5 = "?s4\<lparr>timers := [(?n, c)], hold_timer := None\<rparr>"
  have live: "\<not> restarted s" using assms(1) by (simp add: idle_def)
  have 1: "button_step ops hold (Edge True True) s = Inr ?s1"
    using assms(1) by (simp add: button_step_def gpio_input_button_isr_handler_def button_press_callback_def idle_def)
  have 2: "button_run ops hold (replicate a Tick) ?s1 = Inr ?s2"
    using ticks_before_expiry [of ?s1 a ops hold] assms by (simp add: idle_def)
  have 3: "button_step ops hold (Edge True True) ?s2 = Inr ?s3"
    using live by (simp add: button_step_def gpio_input_button_isr_handler_def button_press_callback_def)
  have 4: "button_run ops hold (replicate b Tick) ?s3 = Inr ?s4"
    using ticks_before_expiry [of ?s3 b ops hold] live assms by simp
  have 5: "button_step ops hold (Edge False True) ?s4 = Inr ?s5"
    using live assms(2) by (simp add: button_step_def gpio_input_button_isr_handler_def button_release_callback_def)
  have 6: "button_run ops hold (replicate (c - 1) Tick) ?s5 = Inr (?s5\<lparr>timers := [(?n, 1)]\<rparr>)"
    using ticks_before_expiry [of ?s5 "c - 1" ops hold] live assms(3) by simp
  have 7: "button_step ops hold Tick (?s5\<lparr>timers := [(?n, 1)]\<rparr>) = Inr (reset_task ops (?s5\<lparr>timers := [(?n, 0)]\<rparr>))"
    using expiry [of "?s5\<lparr>timers := [(?n, 1)]\<rparr>" ops hold] live by simp
  have "replicate c Tick = replicate (c - 1) Tick @ [Tick]"
    using assms(3) by (metis Suc_pred' replicate_Suc replicate_append_same)
  then have "button_run ops hold (replicate c Tick) ?s5 = Inr (reset_task ops (?s5\<lparr>timers := [(?n, 0)]\<rparr>))"
    by (simp only: button_run.simps presses.run_append 6 7 sum.case)
  moreover have "button_run ops hold
      ([Edge True True] @ replicate a Tick @ [Edge True True] @ replicate b Tick @ [Edge False True]) s = Inr ?s5"
    by (simp only: button_run.simps presses.run_append 1 2 3 4 5 sum.case append.simps)
  ultimately show ?thesis
    using live by (auto simp: reset_task_def)
qed

text \<open>A device that is logged in.\<close>

definition pressed_device :: "ram button" where
  "pressed_device = \<lparr>flash = \<lparr>drv = \<lparr>ram_entries =
     [((''authentication'', ''refresh_token''), Str ''r1''), ((''authentication'', ''access_token''), Str ''a1'')],
     ram_handles = []\<rparr>, blocks = 0\<rparr>, hold_timer = None, timers = [], next_timer = 0,
     provisioning_reset = False, restarted = False\<rparr>"

lemma only_a_long_press_resets_witness:
  "\<exists>s' s''. button_run ram_ops (BUTTON_HOLD_DURATION 1000) (press 9999 3 @ press 20 1) pressed_device = Inr s' \<and> \<not> restarted s'
     \<and> button_run ram_ops (BUTTON_HOLD_DURATION 1000) (Edge True True # replicate (BUTTON_HOLD_DURATION 1000) Tick) s' = Inr s'' \<and> restarted s''"
proof -
  have e: "entries (ram_view (drv (flash pressed_device))) ''authentication'' k \<noteq> None" if "k \<in> {''refresh_token'', ''access_token''}" for k
    using that by (auto simp: pressed_device_def ram_view_def)
  show ?thesis
    using only_a_long_press_resets [OF _ _ _ nvs_store_ram, of pressed_device "[(9999, 3), (20, 1)]" "BUTTON_HOLD_DURATION 1000"] e
    by (auto simp: idle_def pressed_device_def BUTTON_HOLD_DURATION_def)
qed

lemma bounced_press_resets_after_release_witness:
  "\<exists>s'. button_run ram_ops 10 ([Edge True True] @ replicate 1 Tick @ [Edge True True] @ replicate 2 Tick @ [Edge False True]) pressed_device = Inr s'
     \<and> \<not> restarted s' \<and> (\<exists>s''. button_run ram_ops 10 (replicate 7 Tick) s' = Inr s'' \<and> restarted s'')"
  using bounced_press_resets_after_release [of pressed_device 1 2 7 10 ram_ops]
  by (auto simp: idle_def pressed_device_def)

end
