(* ===== verification/App_Main.thy ===== *)
theory App_Main
  imports Tcp_Server Wifi_Provisioning Input_Button Dali_Init
begin

text \<open>
  main/main.c and components/mDNS_handler: the main loop, which brings the gateway up and
  then moves it through its states, and the composition of all parts. The state extends
  the one of the TCP server; one iteration of the loop is a function of the state and of
  what the platform returns during it. The callbacks of the other tasks run between
  iterations (\<open>gateway_step\<close>).
\<close>

section \<open>mDNS\<close>

datatype mdns_call = mdns_hostname_set string | mdns_instance_name_set string | mdns_service_add string string nat

text \<open>The host name is printed into 30 characters.\<close>

definition mDNS_init :: "esp_err \<Rightarrow> string \<Rightarrow> mdns_call list" where
  "mDNS_init e pop =
     (if e \<noteq> ESP_OK then []
      else let hostname = take 29 (''NPC_Connect_'' @ pop)
           in [mdns_hostname_set hostname, mdns_instance_name_set hostname, mdns_service_add ''_tcp'' ''_tcp'' 3333])"

section \<open>State\<close>

record ('n, 'w) gateway = "'n tcp" +
  dali :: "'w comm"
  configured :: line_setup
  net :: wifi
  leds :: board
  button :: "'n button"
  button_ready :: bool              \<comment> \<open>its interrupt handler is registered\<close>
  button_log :: "log_entry list"
  published :: "mdns_call list"
  tcp_task_started :: bool
  hour_timer_running :: bool        \<comment> \<open>oneHourTimer is started\<close>
  hour_timer_reload :: bool         \<comment> \<open>it starts again by itself when it runs out\<close>
  oneHourPassed :: bool
  error_counter :: u8
  await_user_action :: bool

text \<open>The platform: the libraries, the devices on the line, and the build options.\<close>

record ('n, 'w) platform =
  pf_ops :: "'n nvs_ops"
  pf_server :: server
  pf_bus :: "'w bus"
  pf_stack :: stack
  pf_mac :: "u8 list"
  pf_max_retry :: "nat option"
  pf_reprovisioning :: bool
  pf_tick_rate :: nat
  pf_led_tick :: nat
  pf_fuel :: nat

text \<open>What varies from one iteration to the next: results of calls, and uninitialised variables.\<close>

record inputs =
  in_timer_created :: bool
  in_provisioned :: bool
  in_wifi_events :: "esp_event list"
  in_button_config :: esp_err
  in_button_install :: esp_err
  in_button_add :: esp_err
  in_gpio :: gpio_results
  in_timers :: timer_results
  in_mdns :: esp_err
  in_bytes :: "u8 list"
  in_value :: u64
  in_gear :: Controle_gear_values_t
  in_address :: u8
  in_str_ok :: bool
  in_malloc_ok :: bool
  in_alloc :: "nat \<Rightarrow> bool"

section \<open>Calling the parts\<close>

definition put_http :: "'n http \<Rightarrow> ('n, 'z) http_scheme \<Rightarrow> ('n, 'z) http_scheme" where
  "put_http h g = g\<lparr>nvs := nvs h, mgr := mgr h, new_access_token := new_access_token h,
     HTTP_REQUEST := HTTP_REQUEST h, global_elements := global_elements h,
     global_num_elements := global_num_elements h,
     current_device_short_address := current_device_short_address h, clients := clients h\<rparr>"

definition on_http ::
    "('n http \<Rightarrow> fault + 'r \<times> 'n http) \<Rightarrow> ('n, 'z) http_scheme \<Rightarrow> fault + 'r \<times> ('n, 'z) http_scheme" where
  "on_http f g = (case f (http.truncate g) of
     Inl e \<Rightarrow> Inl e | Inr (r, h) \<Rightarrow> Inr (r, put_http h g))"

definition put_link :: "'w link \<Rightarrow> 'w comm \<Rightarrow> 'w comm" where
  "put_link l c = link.extend l (link.more c)"

section \<open>The states of the main loop\<close>

type_synonym ('n, 'w) handler =
  "('n, 'w) platform \<Rightarrow> inputs \<Rightarrow> ('n, 'w) gateway \<Rightarrow> fault + ('n, 'w) gateway"

definition nvs_init_state :: "('n, 'w) handler" where
  "nvs_init_state P I g =
     (if \<not> in_timer_created I then Inl Abort else
      let g = g\<lparr>hour_timer_reload := False, hour_timer_running := True\<rparr>
      in case init_nvs_handler (pf_ops P) (nvs g) of
           Inl f \<Rightarrow> Inl f
         | Inr n \<Rightarrow> Inr (goto INIT_POP_STATE (g\<lparr>nvs := n\<rparr>)))"

definition init_pop_state :: "('n, 'w) handler" where
  "init_pop_state P I g = Inr (goto AWAIT_WIFI_PROVISIONING_STATE (g\<lparr>popID := ''abcd1234''\<rparr>))"

definition await_wifi_state :: "('n, 'w) handler" where
  "await_wifi_state P I g =
     (case init_wifi_provisioning (pf_stack P) (pf_max_retry P) (pf_reprovisioning P) (pf_mac P)
             (in_provisioned I) (in_wifi_events I) (popID g) (mgr g, net g) of
        Inl f \<Rightarrow> Inl f
      | Inr ((m, w), later) \<Rightarrow> Inr (goto DALI_COMMUNICATION_INIT_STATE (g\<lparr>mgr := m, net := w\<rparr>)))"

definition dali_init_state :: "('n, 'w) handler" where
  "dali_init_state P I g =
     (let g = g\<lparr>button_log := button_log g @ init_input_button (in_button_config I) (in_button_install I) (in_button_add I),
                button_ready := (in_button_add I = ESP_OK)\<rparr>
      in case init_DALI_communication (in_gpio I) (in_timers I) (dali g, configured g) of (c, u) \<Rightarrow>
           Inr (goto TCP_SERVER_INIT_STATE (g\<lparr>dali := c, configured := u\<rparr>)))"

definition tcp_init_state :: "('n, 'w) handler" where
  "tcp_init_state P I g = Inr (goto MDNS_INIT_STATE (g\<lparr>tcp_task_started := True\<rparr>))"

definition mdns_init_state :: "('n, 'w) handler" where
  "mdns_init_state P I g =
     Inr (goto ANALYZE_DALI_BUS_STATE (g\<lparr>published := published g @ mDNS_init (in_mdns I) (popID g)\<rparr>))"

text \<open>An unexpected status leaves the state as it is.\<close>

definition process_DALI_response :: "DALI_Status \<Rightarrow> ('n, 'z) tcp_scheme \<Rightarrow> ('n, 'z) tcp_scheme" where
  "process_DALI_response status g =
     (if status = DALI_OK then goto DALI_COMMUNICATION_OK_STATE g
      else if status = DALI_ERR_BUS_NOT_COMMISIONED then goto DALI_BUS_NOT_COMMISIONED_STATE g
      else if status = DALI_ERR_NO_RESPONSE_ON_BUS then goto NO_RESPONSE_ON_DALI_BUS g
      else if status = DALI_ERR_BUS_CORRUPTED then goto DALI_BUS_CORRUPTED_STATE g
      else g)"

definition analyze_state :: "('n, 'w) handler" where
  "analyze_state P I g =
     (case check_drivers_commissioned (pf_bus P) (pf_fuel P) (found g) (link.truncate (dali g)) of
        Inl f \<Rightarrow> Inl f
      | Inr (check, iv, l) \<Rightarrow>
          Inr (process_DALI_response check (g\<lparr>found := iv, dali := put_link l (dali g)\<rparr>)))"

primrec number_devices :: "nat list \<Rightarrow> Device_t list \<Rightarrow> fault + Device_t list" where
  "number_devices [] ds = Inr ds"
| "number_devices (i # is) ds =
     (case array_update i (\<lambda>d. d\<lparr>short_address := of_nat i\<rparr>) ds of
        Inl f \<Rightarrow> Inl f | Inr ds \<Rightarrow> number_devices is ds)"

definition commission_state :: "('n, 'w) handler" where
  "commission_state P I g =
     (case commission_bus (pf_bus P) (pf_fuel P) (link.truncate (dali g)) of
        Inl f \<Rightarrow> Inl f
      | Inr (count, l) \<Rightarrow>
          let iv = (found g)\<lparr>devices_on_bus_count := count\<rparr>
          in (case number_devices [0..<unat count] (devices_on_bus iv) of
                Inl f \<Rightarrow> Inl f
              | Inr ds \<Rightarrow> Inr (goto ANALYZE_DALI_BUS_STATE
                  (g\<lparr>found := iv\<lparr>devices_on_bus := ds\<rparr>, dali := put_link l (dali g)\<rparr>))))"

definition synchronize_nvs_state :: "('n, 'w) handler" where
  "synchronize_nvs_state P I g =
     (case nvs_synchronize (pf_ops P) (pf_bus P) (in_bytes I) (in_value I)
             (devices_on_bus_count (found g)) (devices_on_bus (found g)) (nvs g) (link.truncate (dali g)) of
        Inl f \<Rightarrow> Inl f
      | Inr (ok, ds, n, l) \<Rightarrow> Inr (goto AUTHENTICATION_STATE
          (g\<lparr>found := (found g)\<lparr>devices_on_bus := ds\<rparr>, nvs := n, dali := put_link l (dali g)\<rparr>)))"

definition fetch_tokens :: "('n, 'w) handler" where
  "fetch_tokens P I g =
     (case on_http (\<lambda>h. map_sum (\<lambda>f. f) (Pair ()) (refresh_access (pf_ops P) (in_str_ok I) (pf_server P) h)) g of
        Inl f \<Rightarrow> Inl f
      | Inr (_, g) \<Rightarrow> Inr (goto SYNCRONIZE_BACKEND_STATE g))"

definition authentication_state :: "('n, 'w) handler" where
  "authentication_state P I g =
     (case authenticated (pf_ops P) (nvs g) of (ok, n) \<Rightarrow>
        let g = g\<lparr>nvs := n\<rparr>
        in if ok then fetch_tokens P I g else Inr (goto NOT_AUTHENTICATED_STATE g))"

definition not_authenticated_state :: "('n, 'w) handler" where
  "not_authenticated_state P I g =
     (case authenticated (pf_ops P) (nvs g) of (ok, n) \<Rightarrow>
        let g = g\<lparr>nvs := n\<rparr> in if ok then fetch_tokens P I g else Inr g)"

text \<open>The devices are compared with the first \<open>num\<close> entries of the fetched array.\<close>

primrec new_gears_loop ::
    "('n, 'w) platform \<Rightarrow> inputs \<Rightarrow> u64 list \<Rightarrow> nat list \<Rightarrow> ('n, 'w) gateway \<Rightarrow> fault + ('n, 'w) gateway" where
  "new_gears_loop P I ids [] g = Inr g"
| "new_gears_loop P I ids (i # is) g =
     (case nth_device i (devices_on_bus (found g)) of
        Inl f \<Rightarrow> Inl f
      | Inr d \<Rightarrow>
          if manufactoring_id d \<in> set ids then new_gears_loop P I ids is g
          else (case on_http (\<lambda>h. map_sum (\<lambda>f. f) (Pair ())
                       (add_controle_gear_to_db (pf_ops P) (in_str_ok I) (pf_server P) (popID g) (manufactoring_id d) h)) g of
                  Inl f \<Rightarrow> Inl f
                | Inr (_, g) \<Rightarrow> new_gears_loop P I ids is g))"

definition synchronize_backend_state :: "('n, 'w) handler" where
  "synchronize_backend_state P I g =
     (case on_http (getControleGearsRemote (pf_ops P) (in_str_ok I) (pf_server P) (popID g)) g of
        Inl f \<Rightarrow> Inl f
      | Inr ((res, num), g) \<Rightarrow>
          (case new_gears_loop P I (take num res) [0..<unat (devices_on_bus_count (found g))] g of
             Inl f \<Rightarrow> Inl f
           | Inr g \<Rightarrow> Inr (goto SYSTEM_RUNNING_STATE g)))"

primrec post_gears_loop ::
    "('n, 'w) platform \<Rightarrow> inputs \<Rightarrow> nat list \<Rightarrow> ('n, 'w) gateway \<Rightarrow> fault + ('n, 'w) gateway" where
  "post_gears_loop P I [] g = Inr g"
| "post_gears_loop P I (i # is) g =
     (case nth_device i (devices_on_bus (found g)) of
        Inl f \<Rightarrow> Inl f
      | Inr d \<Rightarrow>
          (case fetch_controle_gear_data (pf_bus P) (in_bytes I) (in_gear I) (short_address d) (link.truncate (dali g)) of
             (gear, log, l) \<Rightarrow>
               let g = g\<lparr>dali := put_link l (dali g)\<rparr>
               in (case on_http (post_controle_gear_data (pf_ops P) (in_str_ok I) (pf_server P)
                           (in_malloc_ok I) (in_alloc I) gear) g of
                     Inl f \<Rightarrow> Inl f
                   | Inr (status, g) \<Rightarrow> post_gears_loop P I is g)))"

text \<open>Waiting for the app at the end clears the event bit.\<close>

definition system_running_state :: "('n, 'w) handler" where
  "system_running_state P I g =
     (case (if oneHourPassed g
            then map_sum (\<lambda>f. f) (\<lambda>g. g\<lparr>oneHourPassed := False\<rparr>)
                   (post_gears_loop P I [0..<unat (devices_on_bus_count (found g))] g)
            else Inr g) of
        Inl f \<Rightarrow> Inl f
      | Inr g \<Rightarrow> Inr (g\<lparr>tcp_event_bit := False\<rparr>))"

definition bus_corrupted_state :: "('n, 'w) handler" where
  "bus_corrupted_state P I g =
     (let g = g\<lparr>found := (found g)\<lparr>devices_on_bus_count := 0, uncommissioned_count := 0\<rparr>\<rparr>
      in if error_counter g < 3
         then Inr (goto ANALYZE_DALI_BUS_STATE (g\<lparr>error_counter := error_counter g + 1\<rparr>))
         else Inr (g\<lparr>error_counter := 0\<rparr>))"

definition bus_not_commissioned_state :: "('n, 'w) handler" where
  "bus_not_commissioned_state P I g =
     Inr (if await_user_action g then g\<lparr>await_user_action := True\<rparr> else g)"

definition no_response_state :: "('n, 'w) handler" where
  "no_response_state P I g =
     (if error_counter g < 3
      then Inr ((goto ANALYZE_DALI_BUS_STATE g)\<lparr>error_counter := error_counter g + 1\<rparr>)
      else if \<not> error_message_send g then Inr (g\<lparr>error_counter := 0\<rparr>)
      else Inr (g\<lparr>error_counter := 0\<rparr>))"

text \<open>The last device with the selected id; without one the address is uninitialised.\<close>

definition driver_address :: "u64 \<Rightarrow> Device_t list \<Rightarrow> u8 \<Rightarrow> u8" where
  "driver_address selected ds junk =
     foldl (\<lambda>a d. if manufactoring_id d = selected then short_address d else a) junk ds"

definition blink_frames :: "'w bus \<Rightarrow> u8 \<Rightarrow> 'w link \<Rightarrow> 'w link" where
  "blink_frames bus a l =
     (let l = send_DALI_Tx ESP_OK (push_bit 9 (ucast a)) l;
          l = vTaskDelay bus l;
          l = send_DALI_Tx ESP_OK 0xFEFE l
      in vTaskDelay bus l)"

definition blink_state :: "('n, 'w) handler" where
  "blink_state P I g =
     (let a = driver_address (selected_driver g) (take 64 (devices_on_bus (found g))) (in_address I)
      in Inr (g\<lparr>dali := put_link (blink_frames (pf_bus P) a (link.truncate (dali g))) (dali g)\<rparr>))"

section \<open>The main loop\<close>

text \<open>The \<open>switch\<close>; the states without a case of their own only wait.\<close>

definition app_main_switch :: "('n, 'w) handler" where
  "app_main_switch P I g =
     (case state_of (get_state (mgr g)) of
        Some NVS_INIT_STATE \<Rightarrow> nvs_init_state P I g
      | Some INIT_POP_STATE \<Rightarrow> init_pop_state P I g
      | Some AWAIT_WIFI_PROVISIONING_STATE \<Rightarrow> await_wifi_state P I g
      | Some DALI_COMMUNICATION_INIT_STATE \<Rightarrow> dali_init_state P I g
      | Some TCP_SERVER_INIT_STATE \<Rightarrow> tcp_init_state P I g
      | Some MDNS_INIT_STATE \<Rightarrow> mdns_init_state P I g
      | Some ANALYZE_DALI_BUS_STATE \<Rightarrow> analyze_state P I g
      | Some DALI_COMMISION_BUS_STATE \<Rightarrow> commission_state P I g
      | Some DALI_COMMUNICATION_OK_STATE \<Rightarrow> Inr (goto SYNCRONIZE_NVS_STATE g)
      | Some SYNCRONIZE_NVS_STATE \<Rightarrow> synchronize_nvs_state P I g
      | Some AUTHENTICATION_STATE \<Rightarrow> authentication_state P I g
      | Some SYNCRONIZE_BACKEND_STATE \<Rightarrow> synchronize_backend_state P I g
      | Some SYSTEM_RUNNING_STATE \<Rightarrow> system_running_state P I g
      | Some NO_WIFI_STATE \<Rightarrow> Inr g
      | Some DALI_BUS_CORRUPTED_STATE \<Rightarrow> bus_corrupted_state P I g
      | Some DALI_BUS_NOT_COMMISIONED_STATE \<Rightarrow> bus_not_commissioned_state P I g
      | Some NO_RESPONSE_ON_DALI_BUS \<Rightarrow> no_response_state P I g
      | Some NOT_AUTHENTICATED_STATE \<Rightarrow> not_authenticated_state P I g
      | Some BLINK_LAMP_STATE \<Rightarrow> blink_state P I g
      | _ \<Rightarrow> Inr g)"

text \<open>
  An iteration ends with a wait, which completes what is being sent on the line; the waits
  at the end of some of the states add nothing to it.
\<close>

definition main_wait :: "'w bus \<Rightarrow> ('n, 'w) gateway \<Rightarrow> ('n, 'w) gateway" where
  "main_wait bus g = g\<lparr>dali := put_link (vTaskDelay bus (link.truncate (dali g))) (dali g)\<rparr>"

definition app_main_iteration :: "('n, 'w) handler" where
  "app_main_iteration P I g = map_sum (\<lambda>f. f) (main_wait (pf_bus P)) (app_main_switch P I g)"

text \<open>Before the loop.\<close>

definition app_main_start :: "('n, 'w) gateway \<Rightarrow> ('n, 'w) gateway" where
  "app_main_start g =
     (case init_state_manager (mgr g, leds g) of (m, b) \<Rightarrow> g\<lparr>mgr := m, leds := b\<rparr>)"

definition oneHourTimerCallback :: "('n, 'w) gateway \<Rightarrow> ('n, 'w) gateway" where
  "oneHourTimerCallback g = g\<lparr>oneHourPassed := True\<rparr>"

section \<open>All tasks\<close>

text \<open>
  What can happen to the gateway: an iteration of the main loop or of the LED task, a
  network event (once the handlers are registered), a message from the app (on a socket, with its uninitialised variables;
  \<open>recv\<close> delivers up to 511 characters, once the server's task runs), an edge or a tick for
  the button, and the timer, which runs on only if it was created to reload.
  Nothing happens after the button has restarted the device. The button deletes the tokens
  from the flash the rest of the gateway uses.
\<close>

datatype gateway_event =
    Main inputs
  | Leds
  | Network esp_event
  | App junk int "char list"
  | Button button_event
  | Hour

definition show_leds :: "led_action list \<Rightarrow> board \<Rightarrow> board" where
  "show_leds as b = foldl (\<lambda>b a. case a of Level l v \<Rightarrow> gpio_set_level l v b | _ \<Rightarrow> b) b as"

definition button_event_step ::
    "('n, 'w) platform \<Rightarrow> button_event \<Rightarrow> ('n, 'w) gateway \<Rightarrow> fault + ('n, 'w) gateway" where
  "button_event_step P ev g =
     (if ev \<noteq> Tick \<and> \<not> button_ready g then Inr g
      else case button_step (pf_ops P) (BUTTON_HOLD_DURATION (pf_tick_rate P)) ev ((button g)\<lparr>flash := nvs g\<rparr>) of
             Inl f \<Rightarrow> Inl f
           | Inr b \<Rightarrow> Inr (g\<lparr>button := b, nvs := flash b\<rparr>))"

definition handlers_registered :: "wifi \<Rightarrow> bool" where
  "handlers_registered w \<longleftrightarrow> list_all (\<lambda>k. esp_event_handler_register k \<in> set (calls w)) [0..<4]"

definition gateway_step :: "('n, 'w) platform \<Rightarrow> gateway_event \<Rightarrow> ('n, 'w) gateway \<Rightarrow> fault + ('n, 'w) gateway" where
  "gateway_step P ev g =
     (if restarted (button g) then Inr g else
      case ev of
        Main I \<Rightarrow> app_main_iteration P I g
      | Leds \<Rightarrow> Inr (g\<lparr>leds := show_leds (state_task_iteration (pf_led_tick P) (mgr g)) (leds g)\<rparr>)
      | Button e \<Rightarrow> button_event_step P e g
      | Network e \<Rightarrow>
          if handlers_registered (net g)
          then (case event_handler (pf_max_retry P) e (mgr g, net g) of (m, w) \<Rightarrow> Inr (g\<lparr>mgr := m, net := w\<rparr>))
          else Inr g
      | App j sock cs \<Rightarrow>
          if tcp_task_started g \<and> cs \<noteq> [] \<and> length cs < RX_SIZE
          then message_handler (pf_ops P) j (length cs) sock (g\<lparr>rx_buffer := receive_into cs (rx_buffer g)\<rparr>)
          else Inr g
      | Hour \<Rightarrow>
          Inr (if hour_timer_running g then (oneHourTimerCallback g)\<lparr>hour_timer_running := hour_timer_reload g\<rparr> else g))"

primrec gateway_run :: "('n, 'w) platform \<Rightarrow> gateway_event list \<Rightarrow> ('n, 'w) gateway \<Rightarrow> fault + ('n, 'w) gateway" where
  "gateway_run P [] g = Inr g"
| "gateway_run P (ev # evs) g =
     (case gateway_step P ev g of Inl f \<Rightarrow> Inl f | Inr g \<Rightarrow> gateway_run P evs g)"

interpretation tasks: runner "gateway_step P" "gateway_run P"
  by unfold_locales simp_all

text \<open>The values the globals start with, and the states the gateway can get into.\<close>

definition powered_on :: "('n, 'w) gateway \<Rightarrow> bool" where
  "powered_on g \<longleftrightarrow> mgr g = initial_manager \<and> oneHourPassed g \<and> \<not> hour_timer_running g \<and> error_counter g = 0 \<and>
     \<not> await_user_action g \<and> selected_driver g = 0 \<and> \<not> error_message_send g \<and> popID g = [] \<and>
     global_socket g = - 1 \<and> \<not> transmit_error_flag g \<and> response g = [] \<and> transmit g = [] \<and>
     length (rx_buffer g) = RX_SIZE \<and> \<not> button_ready g \<and> \<not> tcp_task_started g \<and> \<not> restarted (gateway.button g) \<and>
     found g = \<lparr>devices_on_bus = replicate 64 \<lparr>short_address = 0, manufactoring_id = 0, refresh_token = []\<rparr>,
       devices_on_bus_count = 0, uncommissioned_addresses = replicate 64 0, uncommissioned_count = 0\<rparr> \<and>
     HTTP_REQUEST g = HTTP_NON_REQUEST \<and> global_elements g = replicate 64 0 \<and> global_num_elements g = 0"

inductive reachable :: "('n, 'w) platform \<Rightarrow> ('n, 'w) gateway \<Rightarrow> bool" for P where
  reachable_start: "powered_on g \<Longrightarrow> reachable P (app_main_start g)"
| reachable_step: "reachable P g \<Longrightarrow> gateway_step P ev g = Inr g' \<Longrightarrow> reachable P g'"

inductive_cases reachableE: "reachable P g"

lemma reachable_run: "gateway_run P evs g = Inr g' \<Longrightarrow> reachable P g \<Longrightarrow> reachable P g'"
  by (rule tasks.run_kept [where P = "reachable P"]) (rule reachable_step)

lemma reachable_iff_run:
  "reachable P g' \<longleftrightarrow> (\<exists>g evs. powered_on g \<and> gateway_run P evs (app_main_start g) = Inr g')"
proof
  show "reachable P g' \<Longrightarrow> \<exists>g evs. powered_on g \<and> gateway_run P evs (app_main_start g) = Inr g'"
  proof (induction rule: reachable.induct)
    case (reachable_start g)
    then show ?case by (intro exI [of _ g] exI [of _ "[]"]) simp
  next
    case (reachable_step g ev g')
    then obtain g0 evs where "powered_on g0" "gateway_run P evs (app_main_start g0) = Inr g"
      by blast
    with reachable_step.hyps(2) show ?case
      by (intro exI [of _ g0] exI [of _ "evs @ [ev]"]) (simp add: tasks.run_append)
  qed
qed (auto intro: reachable_run reachable_start)

end
