(* ===== verification/Http_Properties.thy ===== *)
theory Http_Properties
  imports Http_Json
begin

text \<open>
  components/Http_handler, continued: the exchanges with the backend, on a working flash
  library. Posting a gear, renewing the tokens, and fetching the list of ids.
\<close>

section \<open>One answer\<close>

text \<open>An answer of one data event; what lies behind its text in memory is arbitrary.\<close>

definition answer :: "string \<Rightarrow> string \<Rightarrow> http_event" where
  "answer text junk = On_data (length text) (text @ NUL # junk) True"

lemma access_field: "access_token_key = field_pattern ''accessToken''"
  and refresh_field: "refresh_token_key = field_pattern ''refreshToken''"
  by (simp_all add: access_token_key_def refresh_token_key_def field_pattern_def)

lemma take_access_token_field:
  "take_access_token ops data s = (case read_field ''accessToken'' data of
     None \<Rightarrow> Inr s
   | Some a \<Rightarrow> if 256 \<le> length a then Inl Out_of_bounds
       else Inr (s\<lparr>new_access_token := a,
                   nvs := snd (nvs_set_string ops ''authentication'' ''access_token'' a (nvs s))\<rparr>))"
  by (simp add: take_access_token_def read_field_def access_field del: until_None_iff split: option.split)

lemma take_refresh_token_field:
  "take_refresh_token ops data s = (case read_field ''refreshToken'' data of
     None \<Rightarrow> forget_tokens ops s
   | Some r \<Rightarrow> (case nvs_set_string ops ''authentication'' ''refresh_token'' r (nvs s) of
       (ok, n) \<Rightarrow> if ok then s\<lparr>nvs := n\<rparr> else forget_tokens ops (s\<lparr>nvs := n\<rparr>)))"
  by (simp add: take_refresh_token_def read_field_def refresh_field Let_def del: until_None_iff split: option.split prod.split)

lemma refresh_answer:
  assumes "NUL \<notin> set text" and "length text < 512" and "HTTP_REQUEST s = HTTP_REFRESH_TOKEN_REQUEST"
  shows "http_event_handler ops (answer text junk) s =
    (case take_access_token ops text s of Inl f \<Rightarrow> Inl f
     | Inr s \<Rightarrow> Inr (take_refresh_token ops text s\<lparr>HTTP_REQUEST := HTTP_NON_REQUEST\<rparr>))"
  using assms by (simp add: http_event_handler_def answer_def split: sum.split)

lemma ids_answer:
  assumes "NUL \<notin> set text" and "length text < 512" and "HTTP_REQUEST s = HTTP_GET_CONTROL_GEARS_REQUEST"
  shows "http_event_handler ops (answer text junk) s =
    (case parseJSONResponse True text of
       Inl f \<Rightarrow> Inl f
     | Inr None \<Rightarrow> Inr (s\<lparr>global_num_elements := 0\<rparr>)
     | Inr (Some es) \<Rightarrow> (case store_elements es (global_elements s) of
          Inl f \<Rightarrow> Inl f
        | Inr globals \<Rightarrow> Inr (s\<lparr>global_num_elements := length es, global_elements := globals\<rparr>)))"
  using assms by (simp add: http_event_handler_def answer_def)

lemma handler_ignores:
  assumes "HTTP_REQUEST s = HTTP_NON_REQUEST" and "length text < 512"
  shows "http_event_handler ops (answer text junk) s = Inr s"
  using assms by (simp add: http_event_handler_def answer_def)

lemma deliver_ignores:
  assumes "HTTP_REQUEST s = HTTP_NON_REQUEST" and "\<forall>(text, junk)\<in>set es. length text < 512"
  shows "deliver ops (map (\<lambda>(text, junk). answer text junk) es) s = Inr s"
  using assms(2) by (induction es) (auto simp: handler_ignores [OF assms(1)])

section \<open>Posting a gear\<close>

lemma keys_plain: "\<forall>k\<in>set gear_keys. plain k" "distinct gear_keys"
  by code_simp+

lemma posted_fields:
  assumes "(k, v) \<in> set (zip gear_keys (gear_values g))"
  shows "read_field k (json_object (zip gear_keys (gear_values g))) = Some v"
proof -
  let ?ps = "zip gear_keys (gear_values g)"
  have "map_of ?ps k = Some v"
    using assms keys_plain(2) by simp
  moreover have "CHR 0x22 \<notin> set v'" if "v' \<in> set (gear_values g)" for v'
    using that by (auto simp: gear_values_def)
  ultimately show ?thesis
    using read_field_object [of ?ps k v "[]"] keys_plain(1) assms
    by (auto dest: set_zip_leftD set_zip_rightD simp: plain_def)
qed

text \<open>
  C25: A gear is posted as one JSON object, from which each of its 39 fields can be read
  back and which always fits the 2048 bytes of the buffer, provided its manufacturer id
  has at most 19 digits; an id of 20 digits overruns the value buffer. The result is 200
  when the request succeeds and 2 when it fails; the client is never cleaned up.
\<close>

theorem gear_is_posted_or_overruns:
  fixes g :: Controle_gear_values_t
  defines "body \<equiv> json_object (zip gear_keys (gear_values g))"
  assumes "refresh_access ops str_ok server (s\<lparr>current_device_short_address := gear_short_address g\<rparr>) = Inr s1"
  shows "post_controle_gear_data ops str_ok server True (\<lambda>_. True) g s =
      (if unat (manufacturer_id g) < 10 ^ 19
       then map_sum (\<lambda>f. f) (\<lambda>(e, s). (if e = ESP_OK then 200 else 2, s))
         (esp_http_client_perform ops server
           \<lparr>req_url = ''http://95.217.159.233/controller/new_data_instance'', req_method = HTTP_METHOD_POST,
            req_headers = [json_header, (''token'', new_access_token s1)], req_body = body\<rparr>
           (s1\<lparr>clients := clients s1 + 1\<rparr>))
       else Inl Out_of_bounds)
    \<and> (\<forall>i<39. read_field (gear_keys ! i) body = Some (gear_values g ! i))"
proof -
  have "(gear_keys ! i, gear_values g ! i) \<in> set (zip gear_keys (gear_values g))" if "i < 39" for i
    using that by (auto simp: set_zip)
  then have "\<forall>i<39. read_field (gear_keys ! i) body = Some (gear_values g ! i)"
    unfolding body_def using posted_fields by blast
  moreover have "post_controle_gear_data ops str_ok server True (\<lambda>_. True) g s =
      (case values_loop (\<lambda>_. True) (gear_values g) [0..<39] [] of
         Inl f \<Rightarrow> Inl f
       | Inr None \<Rightarrow> Inr (0, s1)
       | Inr (Some values) \<Rightarrow> post_json_data ops server gear_keys values s1)"
    using assms(2) by (simp add: post_controle_gear_data_def)
  ultimately show ?thesis
    using values_loop_gear [of g] posted_object [of g]
    by (auto simp: post_json_data_def client_init_def body_def HTTP_OK_def split: sum.split)
qed

text \<open>A backend that accepts everything and says nothing.\<close>

definition accepting :: server where
  "accepting = (\<lambda>_. (0, []))"

definition fresh_http :: "ram http" where
  "fresh_http = \<lparr>nvs = empty_ram, mgr = initial_manager, new_access_token = [], HTTP_REQUEST = HTTP_NON_REQUEST,
     global_elements = replicate 64 0, global_num_elements = 0, current_device_short_address = 0, clients = 0\<rparr>"

definition gear_with_id :: "u64 \<Rightarrow> Controle_gear_values_t" where
  "gear_with_id x = blank_gear\<lparr>manufacturer_id := x, gear_short_address := 3\<rparr>"

lemma gear_is_posted_or_overruns_witness:
  "post_controle_gear_data ram_ops True accepting True (\<lambda>_. True) (gear_with_id (10 ^ 19)) fresh_http = Inl Out_of_bounds
   \<and> read_field ''temperature'' (json_object (zip gear_keys (gear_values (gear_with_id 7)))) = Some ''0''"
proof -
  have "\<exists>s1. refresh_access ram_ops True accepting (fresh_http\<lparr>current_device_short_address := x\<rparr>) = Inr s1" for x
    by (simp add: refresh_access_def accepting_def fresh_http_def nvs_get_string_def nvs_open_def nvs_get_str_def
        ram_ops_def empty_ram_def ram_get_def ESP_ERR_NVS_NOT_FOUND_def create_json_object_def append_json_pair_def
        esp_http_client_perform_def client_init_def)
  then obtain s1 s2 where "refresh_access ram_ops True accepting (fresh_http\<lparr>current_device_short_address :=
      gear_short_address (gear_with_id (10 ^ 19))\<rparr>) = Inr s1"
    "refresh_access ram_ops True accepting (fresh_http\<lparr>current_device_short_address :=
      gear_short_address (gear_with_id 7)\<rparr>) = Inr s2"
    by blast
  note p = gear_is_posted_or_overruns [OF this(1)] gear_is_posted_or_overruns [OF this(2)]
  have id: "unat (manufacturer_id (gear_with_id (10 ^ 19))) = 10 ^ 19"
    by (simp add: gear_with_id_def)
  have "gear_keys ! 17 = ''temperature''" "gear_values (gear_with_id 7) ! 17 = ''0''"
    by (simp_all add: gear_keys_def gear_values_def gear_with_id_def blank_gear_def digit_numerals)
  with p(2) [THEN conjunct2, THEN spec, of 17]
  have "read_field ''temperature'' (json_object (zip gear_keys (gear_values (gear_with_id 7)))) = Some ''0''"
    by simp
  with p(1) id show ?thesis by simp
qed

section \<open>Renewing the tokens\<close>

lemma refresh_access_answers:
  assumes "nvs_store ops view"
    and "entries (view (drv (nvs s))) ''authentication'' ''refresh_token'' = Some (Str r)" and "length r < 512"
    and "\<And>req. req_url req = ''http://95.217.159.233/auth/controller/refresh_token'' \<Longrightarrow>
      req_body req = json_object [(''refreshToken'', r)] \<Longrightarrow> server req = (e, evs)"
  obtains s1 where "refresh_access ops True server s = map_sum (\<lambda>f. f) client_cleanup (deliver ops evs s1)"
    and "HTTP_REQUEST s1 = HTTP_REFRESH_TOKEN_REQUEST" and "clients s1 = clients s + 1"
    and "entries (view (drv (nvs s1))) = entries (view (drv (nvs s)))" and "mgr s1 = mgr s"
proof -
  obtain n h where n: "nvs_get_string ops True ''authentication'' ''refresh_token'' [] (nvs s) = (True, r, n)"
    "view (drv n) = (view (drv (nvs s)))\<lparr>handles := (handles (view (drv (nvs s))))(h \<mapsto> ''authentication'')\<rparr>"
    using nvs_get_string_store [OF assms(1), where ns = "''authentication''" and s = "nvs s" and k = "''refresh_token''" and v = "[]"] assms(2,3) by auto
  let ?s1 = "client_init (s\<lparr>nvs := n\<rparr>)\<lparr>HTTP_REQUEST := HTTP_REFRESH_TOKEN_REQUEST\<rparr>"
  have "length (json_object [(''refreshToken'', r)]) < 1024"
    using assms(3) by (simp add: length_json_object)
  then have "create_json_object 1024 [''refreshToken''] [r] = Inr (json_object [(''refreshToken'', r)])"
    using create_json_object_eq [of "[(''refreshToken'', r)]" 1024] by simp
  then have "refresh_access ops True server s = map_sum (\<lambda>f. f) client_cleanup (deliver ops evs ?s1)"
    by (cases "deliver ops evs ?s1") (simp_all add: refresh_access_def n esp_http_client_perform_def assms(4))
  then show thesis
    by (rule that) (simp_all add: client_init_def n)
qed

text \<open>What the handler makes of an answer carrying both tokens, and of one without a refresh token.\<close>

lemma both_tokens_answer:
  assumes "nvs_store ops view" and "HTTP_REQUEST s = HTTP_REFRESH_TOKEN_REQUEST"
    and "NUL \<notin> set text" and "length text < 512"
    and "read_field ''accessToken'' text = Some a" and "length a < 256"
    and "read_field ''refreshToken'' text = Some r"
  shows "\<exists>s'. http_event_handler ops (answer text junk) s = Inr s' \<and> HTTP_REQUEST s' = HTTP_NON_REQUEST
    \<and> new_access_token s' = a \<and> mgr s' = mgr s \<and> clients s' = clients s
    \<and> entries (view (drv (nvs s'))) ''authentication'' ''access_token'' = Some (Str a)
    \<and> entries (view (drv (nvs s'))) ''authentication'' ''refresh_token'' = Some (Str r)"
proof -
  obtain n1 where n1: "nvs_set_string ops ''authentication'' ''access_token'' a (nvs s) = (True, n1)"
    "view (drv n1) = put_entry ''authentication'' ''access_token'' (Some (Str a)) (view (drv (nvs s)))"
    using nvs_set_string_store [OF assms(1), of "''authentication''" "''access_token''" a "nvs s"] by auto
  obtain n2 where n2: "nvs_set_string ops ''authentication'' ''refresh_token'' r n1 = (True, n2)"
    "view (drv n2) = put_entry ''authentication'' ''refresh_token'' (Some (Str r)) (view (drv n1))"
    using nvs_set_string_store [OF assms(1), of "''authentication''" "''refresh_token''" r n1] by auto
  show ?thesis
    using assms(5-7) n1 n2
    by (simp add: refresh_answer [OF assms(3,4,2)] take_access_token_field take_refresh_token_field)
qed

lemma forget_tokens_store:
  assumes "nvs_store ops view"
    and "entries (view (drv (nvs s))) ''authentication'' ''access_token'' \<noteq> None"
    and "entries (view (drv (nvs s))) ''authentication'' ''refresh_token'' \<noteq> None"
  shows "entries (view (drv (nvs (forget_tokens ops s)))) ''authentication'' ''access_token'' = None"
    and "entries (view (drv (nvs (forget_tokens ops s)))) ''authentication'' ''refresh_token'' = None"
    and "get_state (mgr (forget_tokens ops s)) = code_of NOT_AUTHENTICATED_STATE"
  using assms
  by (simp_all add: forget_tokens_def nvs_delete_store [OF assms(1)] get_state_def)

lemma no_refresh_token_answer:
  assumes "nvs_store ops view" and "HTTP_REQUEST s = HTTP_REFRESH_TOKEN_REQUEST"
    and "NUL \<notin> set text" and "length text < 512"
    and "\<forall>a. read_field ''accessToken'' text = Some a \<longrightarrow> length a < 256"
    and "read_field ''refreshToken'' text = None"
    and "entries (view (drv (nvs s))) ''authentication'' ''access_token'' \<noteq> None"
    and "entries (view (drv (nvs s))) ''authentication'' ''refresh_token'' \<noteq> None"
  shows "\<exists>s'. http_event_handler ops (answer text junk) s = Inr s' \<and> HTTP_REQUEST s' = HTTP_NON_REQUEST
    \<and> get_state (mgr s') = code_of NOT_AUTHENTICATED_STATE
    \<and> entries (view (drv (nvs s'))) ''authentication'' ''access_token'' = None
    \<and> entries (view (drv (nvs s'))) ''authentication'' ''refresh_token'' = None"
proof -
  obtain s1 where s1: "take_access_token ops text s = Inr s1"
    "entries (view (drv (nvs s1))) ''authentication'' ''access_token'' \<noteq> None"
    "entries (view (drv (nvs s1))) ''authentication'' ''refresh_token'' \<noteq> None"
  proof (cases "read_field ''accessToken'' text")
    case (Some a)
    obtain n where "nvs_set_string ops ''authentication'' ''access_token'' a (nvs s) = (True, n)"
      "view (drv n) = put_entry ''authentication'' ''access_token'' (Some (Str a)) (view (drv (nvs s)))"
      using nvs_set_string_store [OF assms(1), of "''authentication''" "''access_token''" a "nvs s"] by auto
    with Some assms(5,7,8) show ?thesis
      by (intro that [of "s\<lparr>new_access_token := a, nvs := n\<rparr>"]) (auto simp: take_access_token_field)
  qed (use assms(7,8) that in \<open>simp add: take_access_token_field\<close>)
  then show ?thesis
    using assms(6) forget_tokens_store [OF assms(1) s1(2,3)]
    by (simp add: refresh_answer [OF assms(3,4,2)] take_refresh_token_field)
qed

lemma refresh_without_token:
  assumes "nvs_store ops view"
    and "entries (view (drv (nvs s))) ''authentication'' ''refresh_token'' = Some (Str r)" and "length r < 512"
    and "entries (view (drv (nvs s))) ''authentication'' ''access_token'' \<noteq> None"
    and "\<And>req. req_url req = ''http://95.217.159.233/auth/controller/refresh_token'' \<Longrightarrow>
      req_body req = json_object [(''refreshToken'', r)] \<Longrightarrow>
      server req = (e, map (\<lambda>(text, junk). answer text junk) ((text, junk) # later))"
    and "NUL \<notin> set text" and "length text < 512"
    and "\<forall>a. read_field ''accessToken'' text = Some a \<longrightarrow> length a < 256"
    and "read_field ''refreshToken'' text = None"
    and "\<forall>(text, junk)\<in>set later. length text < 512"
  shows "\<exists>s'. refresh_access ops True server s = Inr s'
    \<and> get_state (mgr s') = code_of NOT_AUTHENTICATED_STATE
    \<and> entries (view (drv (nvs s'))) ''authentication'' ''access_token'' = None
    \<and> entries (view (drv (nvs s'))) ''authentication'' ''refresh_token'' = None"
proof -
  obtain s1 where s1: "refresh_access ops True server s = map_sum (\<lambda>f. f) client_cleanup (deliver ops
      (map (\<lambda>(text, junk). answer text junk) ((text, junk) # later)) s1)"
    "HTTP_REQUEST s1 = HTTP_REFRESH_TOKEN_REQUEST"
    "entries (view (drv (nvs s1))) = entries (view (drv (nvs s)))"
    by (rule refresh_access_answers [OF assms(1-3,5)])
  have stored: "entries (view (drv (nvs s1))) ''authentication'' ''access_token'' \<noteq> None"
    "entries (view (drv (nvs s1))) ''authentication'' ''refresh_token'' \<noteq> None"
    using assms(2,4) by (simp_all add: s1)
  from no_refresh_token_answer [OF assms(1) s1(2) assms(6-9) stored, of junk] s1(1)
  show ?thesis
    by (auto simp: deliver_ignores [OF _ assms(10)] client_cleanup_def)
qed

lemma refresh_with_tokens:
  assumes "nvs_store ops view"
    and "entries (view (drv (nvs s))) ''authentication'' ''refresh_token'' = Some (Str r)" and "length r < 512"
    and "\<And>req. req_url req = ''http://95.217.159.233/auth/controller/refresh_token'' \<Longrightarrow>
      req_body req = json_object [(''refreshToken'', r)] \<Longrightarrow>
      server req = (e, map (\<lambda>(text, junk). answer text junk)
        ((json_object [(''accessToken'', a), (''refreshToken'', r')], junk) # later))"
    and "length (json_object [(''accessToken'', a), (''refreshToken'', r')]) < 512" and "length a < 256"
    and "set a \<inter> {NUL, CHR 0x22} = {}" and "set r' \<inter> {NUL, CHR 0x22} = {}"
    and "\<forall>(text, junk)\<in>set later. length text < 512"
  shows "\<exists>s'. refresh_access ops True server s = Inr s' \<and> new_access_token s' = a \<and> mgr s' = mgr s
    \<and> clients s' = clients s
    \<and> entries (view (drv (nvs s'))) ''authentication'' ''access_token'' = Some (Str a)
    \<and> entries (view (drv (nvs s'))) ''authentication'' ''refresh_token'' = Some (Str r')"
proof -
  let ?ps = "[(''accessToken'', a), (''refreshToken'', r')]"
  obtain s1 where s1: "refresh_access ops True server s = map_sum (\<lambda>f. f) client_cleanup (deliver ops
      (map (\<lambda>(text, junk). answer text junk) ((json_object ?ps, junk) # later)) s1)"
    "HTTP_REQUEST s1 = HTTP_REFRESH_TOKEN_REQUEST" "clients s1 = clients s + 1" "mgr s1 = mgr s"
    by (rule refresh_access_answers [OF assms(1-4)])
  have fields: "read_field ''accessToken'' (json_object ?ps) = Some a" "read_field ''refreshToken'' (json_object ?ps) = Some r'"
    using read_field_object [of ?ps "''accessToken''" a "[]"] read_field_object [of ?ps "''refreshToken''" r' "[]"] assms(7,8)
    by (auto simp: plain_def)
  have nul: "NUL \<notin> set (json_object ?ps)"
    using assms(7,8) by (auto simp: json_object_def json_pair_def)
  from both_tokens_answer [OF assms(1) s1(2) nul assms(5) fields(1) assms(6) fields(2), of junk] s1
  show ?thesis
    by (auto simp: deliver_ignores [OF _ assms(9)] client_cleanup_def)
qed

text \<open>
  C19: Renewing the session. With a refresh token stored, \<open>refresh_token\<close> posts it, and
  when the backend answers with both tokens in one data event (shorter than 512, the
  access token shorter than 256) both are stored, whatever follows; the state of the
  gateway and the number of open clients do not change.
\<close>

theorem refresh_renews_both_tokens:
  assumes "nvs_store ops view"
    and "entries (view (drv (nvs s))) ''authentication'' ''refresh_token'' = Some (Str r)" and "length r < 512"
    and "\<And>req. req_url req = ''http://95.217.159.233/auth/controller/refresh_token'' \<Longrightarrow>
      req_body req = json_object [(''refreshToken'', r)] \<Longrightarrow>
      server req = (e, map (\<lambda>(text, junk). answer text junk)
        ((json_object [(''accessToken'', a), (''refreshToken'', r')], junk) # later))"
    and "length (json_object [(''accessToken'', a), (''refreshToken'', r')]) < 512" and "length a < 256"
    and "set a \<inter> {NUL, CHR 0x22} = {}" and "set r' \<inter> {NUL, CHR 0x22} = {}"
    and "\<forall>(text, junk)\<in>set later. length text < 512"
  shows "\<exists>s'. refresh_access ops True server s = Inr s' \<and> new_access_token s' = a \<and> mgr s' = mgr s
    \<and> clients s' = clients s
    \<and> entries (view (drv (nvs s'))) ''authentication'' ''access_token'' = Some (Str a)
    \<and> entries (view (drv (nvs s'))) ''authentication'' ''refresh_token'' = Some (Str r')"
  by (rule refresh_with_tokens [OF assms])

text \<open>
  An answer without a refresh token, be it an error message or the first part of an
  answer that arrives in pieces, logs the gateway out: both stored tokens are erased and
  the state becomes \<open>NOT_AUTHENTICATED_STATE\<close>, whatever the later pieces contain.
\<close>

theorem partial_answer_logs_out:
  assumes "nvs_store ops view"
    and "entries (view (drv (nvs s))) ''authentication'' ''refresh_token'' = Some (Str r)" and "length r < 512"
    and "entries (view (drv (nvs s))) ''authentication'' ''access_token'' \<noteq> None"
    and "\<And>req. req_url req = ''http://95.217.159.233/auth/controller/refresh_token'' \<Longrightarrow>
      req_body req = json_object [(''refreshToken'', r)] \<Longrightarrow>
      server req = (e, map (\<lambda>(text, junk). answer text junk) ((text, junk) # later))"
    and "NUL \<notin> set text" and "length text < 512"
    and "\<forall>a. read_field ''accessToken'' text = Some a \<longrightarrow> length a < 256"
    and "read_field ''refreshToken'' text = None"
    and "\<forall>(text, junk)\<in>set later. length text < 512"
  shows "\<exists>s'. refresh_access ops True server s = Inr s'
    \<and> get_state (mgr s') = code_of NOT_AUTHENTICATED_STATE
    \<and> entries (view (drv (nvs s'))) ''authentication'' ''access_token'' = None
    \<and> entries (view (drv (nvs s'))) ''authentication'' ''refresh_token'' = None"
  by (rule refresh_without_token [OF assms])

text \<open>A flash that holds both tokens.\<close>

definition session_http :: "ram http" where
  "session_http = fresh_http\<lparr>nvs := \<lparr>drv = \<lparr>ram_entries =
     [((''authentication'', ''refresh_token''), Str ''r1''), ((''authentication'', ''access_token''), Str ''a1'')],
     ram_handles = []\<rparr>, blocks = 0\<rparr>\<rparr>"

lemma session_entries:
  "entries (ram_view (drv (nvs session_http))) ''authentication'' ''refresh_token'' = Some (Str ''r1'')"
  "entries (ram_view (drv (nvs session_http))) ''authentication'' ''access_token'' \<noteq> None"
  "mgr session_http = initial_manager"
  by (simp_all add: session_http_def ram_view_def fresh_http_def)

lemma refresh_renews_both_tokens_witness:
  "\<exists>s'. refresh_access ram_ops True (\<lambda>_. (0, [answer (json_object [(''accessToken'', ''a2''), (''refreshToken'', ''r2'')]) ''xy'']))
      session_http = Inr s' \<and> new_access_token s' = ''a2'' \<and>
    entries (ram_view (drv (nvs s'))) ''authentication'' ''refresh_token'' = Some (Str ''r2'')"
proof -
  have "length (json_object [(''accessToken'', ''a2''), (''refreshToken'', ''r2'')]) < 512"
    by (simp add: length_json_object)
  from refresh_renews_both_tokens [OF nvs_store_ram session_entries(1) _ _ this, of
      "\<lambda>_. (0, [answer (json_object [(''accessToken'', ''a2''), (''refreshToken'', ''r2'')]) ''xy''])" 0 "''xy''" "[]"]
  show ?thesis
    by auto
qed

lemma partial_answer_logs_out_witness:
  "\<exists>s'. refresh_access ram_ops True (\<lambda>_. (0, [answer ''{\"accessToken\":\"a2\",'' [], answer ''\"refreshToken\":\"r2\"}'' []]))
      session_http = Inr s' \<and> get_state (mgr s') = code_of NOT_AUTHENTICATED_STATE \<and>
    entries (ram_view (drv (nvs s'))) ''authentication'' ''refresh_token'' = None"
proof -
  have f: "read_field ''accessToken'' ''{\"accessToken\":\"a2\",'' = Some ''a2''"
    "read_field ''refreshToken'' ''{\"accessToken\":\"a2\",'' = None"
    by code_simp+
  from partial_answer_logs_out [OF nvs_store_ram session_entries(1) _ session_entries(2), of
      "\<lambda>_. (0, [answer ''{\"accessToken\":\"a2\",'' [], answer ''\"refreshToken\":\"r2\"}'' []])" 0
      "''{\"accessToken\":\"a2\",''" "[]" "[(''\"refreshToken\":\"r2\"}'', [])]"] f
  show ?thesis
    by auto
qed

section \<open>Fetching the list of ids\<close>

lemma fetch_answer:
  assumes "\<And>req. req_method req = HTTP_METHOD_GET \<Longrightarrow> server req = (e, [ev])"
  obtains s1 where "getControleGearsRemote ops str_ok server popID s =
      (case http_event_handler ops ev s1 of Inl f \<Rightarrow> Inl f
       | Inr s2 \<Rightarrow> Inr ((global_elements s2, global_num_elements s2), client_cleanup s2))"
    and "HTTP_REQUEST s1 = HTTP_GET_CONTROL_GEARS_REQUEST" and "global_elements s1 = global_elements s"
proof -
  obtain found tok n where n: "nvs_get_string ops str_ok ''authentication'' ''access_token'' [] (nvs s) = (found, tok, n)"
    by (cases "nvs_get_string ops str_ok ''authentication'' ''access_token'' [] (nvs s)") auto
  let ?s1 = "client_init (s\<lparr>nvs := n\<rparr>)\<lparr>HTTP_REQUEST := HTTP_GET_CONTROL_GEARS_REQUEST\<rparr>"
  show thesis
    by (rule that [of ?s1], cases "http_event_handler ops ev ?s1")
      (simp_all add: getControleGearsRemote_def n esp_http_client_perform_def assms client_init_def)
qed

text \<open>
  C26: Up to 64 ids the backend lists, in one data event shorter than 512 whose list is
  closed by a bracket right after the last id, arrive unchanged and in order: they fill
  the first entries of the array, and their number is returned.
\<close>

theorem backend_ids_are_fetched:
  assumes "\<And>req. req_method req = HTTP_METHOD_GET \<Longrightarrow>
      server req = (e, [answer (pre @ gears_key @ id_list xs @ CHR '']'' # rest) junk])"
    and "\<forall>(sp, x)\<in>set xs. \<forall>c\<in>set sp. json_space c" and "length xs \<le> 64" and "CHR 0x22 \<notin> set pre"
    and "NUL \<notin> set (pre @ gears_key @ id_list xs @ CHR '']'' # rest)"
    and "length (pre @ gears_key @ id_list xs @ CHR '']'' # rest) < 512"
    and "length (global_elements s) = 64"
  shows "\<exists>s'. getControleGearsRemote ops str_ok server popID s =
    Inr ((map snd xs @ drop (length xs) (global_elements s), length xs), s')"
proof -
  let ?text = "pre @ gears_key @ id_list xs @ CHR '']'' # rest"
  obtain s1 where s1: "getControleGearsRemote ops str_ok server popID s =
      (case http_event_handler ops (answer ?text junk) s1 of Inl f \<Rightarrow> Inl f
       | Inr s2 \<Rightarrow> Inr ((global_elements s2, global_num_elements s2), client_cleanup s2))"
    "HTTP_REQUEST s1 = HTTP_GET_CONTROL_GEARS_REQUEST" "global_elements s1 = global_elements s"
    by (rule fetch_answer [where ops = ops and str_ok = str_ok and popID = popID and s = s, OF assms(1)])
  have "parseJSONResponse True ?text = Inr (Some (map snd xs))"
    using parse_id_list [OF assms(2), of "[]" "CHR '']'' # rest"] assms(3)
    by (simp add: parse_response [OF assms(4)] parse_end)
  then show ?thesis
    using s1(3) assms(3,7) unfolding s1(1) ids_answer [OF assms(5,6) s1(2)]
    by (simp add: store_elements_def)
qed

text \<open>
  An answer whose list is cut off (the rest of it comes in a later event), or has
  white space before its closing bracket, is read past its end, unless it already
  holds 64 ids.
\<close>

theorem unterminated_id_list_is_overread:
  assumes "\<And>req. req_method req = HTTP_METHOD_GET \<Longrightarrow>
      server req = (e, [answer (pre @ gears_key @ id_list xs @ sp @ tail) junk])"
    and "\<forall>(sp, x)\<in>set xs. \<forall>c\<in>set sp. json_space c" and "length xs < 64" and "CHR 0x22 \<notin> set pre"
    and "NUL \<notin> set (pre @ gears_key @ id_list xs @ sp @ tail)"
    and "length (pre @ gears_key @ id_list xs @ sp @ tail) < 512"
    and "\<forall>c\<in>set sp. json_space c"
    and "tail = [] \<or> sp \<noteq> [] \<and> (\<exists>rest. tail = CHR '']'' # rest \<and> set rest \<inter> {CHR 0x22, CHR '']''} = {})"
  shows "getControleGearsRemote ops str_ok server popID s = Inl Out_of_bounds"
proof -
  let ?text = "pre @ gears_key @ id_list xs @ sp @ tail"
  obtain s1 where s1: "getControleGearsRemote ops str_ok server popID s =
      (case http_event_handler ops (answer ?text junk) s1 of Inl f \<Rightarrow> Inl f
       | Inr s2 \<Rightarrow> Inr ((global_elements s2, global_num_elements s2), client_cleanup s2))"
    "HTTP_REQUEST s1 = HTTP_GET_CONTROL_GEARS_REQUEST" "global_elements s1 = global_elements s"
    by (rule fetch_answer [where ops = ops and str_ok = str_ok and popID = popID and s = s, OF assms(1)])
  have "parse_elements (sp @ tail) (map snd xs) = Inl Out_of_bounds"
  proof (cases "tail = []")
    case True
    have "CHR 0x22 \<notin> set sp" "CHR '']'' \<notin> set sp"
      using assms(7) not_json_space by blast+
    then show ?thesis
      using True assms(3) by (simp add: parse_no_end)
  next
    case False
    then obtain rest where "sp \<noteq> []" "tail = CHR '']'' # rest" "CHR 0x22 \<notin> set rest" "CHR '']'' \<notin> set rest"
      using assms(8) by auto
    then show ?thesis
      using parse_space_end [OF assms(7)] assms(3) by simp
  qed
  then have "parseJSONResponse True ?text = Inl Out_of_bounds"
    using parse_id_list [OF assms(2), of "[]" "sp @ tail"] assms(3) by (simp add: parse_response [OF assms(4)])
  then show ?thesis
    unfolding s1(1) ids_answer [OF assms(5,6) s1(2)] by simp
qed

text \<open>
  The handler copies each data event into 512 bytes: a list of 23 or more ids of the
  length real ids have (19 digits) overruns the copy, though there is room for 64 ids.
\<close>

theorem list_of_23_ids_overruns_the_copy:
  assumes "\<And>req. req_method req = HTTP_METHOD_GET \<Longrightarrow>
      server req = (e, [answer (pre @ gears_key @ id_list xs @ rest) junk])"
    and "23 \<le> length xs" and "\<forall>(sp, x)\<in>set xs. 10 ^ 18 \<le> unat x"
  shows "getControleGearsRemote ops str_ok server popID s = Inl Out_of_bounds"
proof -
  let ?text = "pre @ gears_key @ id_list xs @ rest"
  obtain s1 where s1: "getControleGearsRemote ops str_ok server popID s =
      (case http_event_handler ops (answer ?text junk) s1 of Inl f \<Rightarrow> Inl f
       | Inr s2 \<Rightarrow> Inr ((global_elements s2, global_num_elements s2), client_cleanup s2))"
    by (rule fetch_answer [where ops = ops and str_ok = str_ok and popID = popID and s = s, OF assms(1)])
  have "21 \<le> length (id_item p)" if "p \<in> set xs" for p
    using that assms(3) length_dec_ge [of 18 "unat (snd p)"] by (fastforce simp: id_item_def split_beta)
  then have "21 * length xs \<le> sum_list (map length (map id_item xs))"
    using sum_list_mono [of xs "\<lambda>_. 21" "length \<circ> id_item"] by (simp add: sum_list_triv comp_def)
  moreover have "length (id_list xs) + 1 = sum_list (map length (map id_item xs)) + length xs"
    using length_commas [of "map id_item xs"] assms(2) by (cases xs) (simp_all add: id_list_def)
  ultimately have "512 \<le> length ?text"
    using assms(2) by (simp add: gears_key_def)
  then have "http_event_handler ops (answer ?text junk) s1 = Inl Out_of_bounds"
    unfolding http_event_handler_def answer_def by simp
  then show ?thesis
    unfolding s1 by simp
qed

text \<open>Concrete answers.\<close>

definition sends :: "string \<Rightarrow> server" where
  "sends text = (\<lambda>_. (0, [answer text []]))"

lemma backend_ids_are_fetched_witness:
  "\<exists>s'. getControleGearsRemote ram_ops True
      (sends (''{'' @ gears_key @ id_list [([], 11), ('' '', 18446744073709551615)] @ '']}'')) ''pop'' fresh_http =
    Inr (([11, 18446744073709551615] @ replicate 62 0, 2), s')"
proof -
  let ?xs = "[([], 11), ('' '', 18446744073709551615)] :: (string \<times> u64) list"
  have "NUL \<notin> set (''{'' @ gears_key @ id_list ?xs @ CHR '']'' # ''}'')"
    "length (''{'' @ gears_key @ id_list ?xs @ CHR '']'' # ''}'') < 512"
    by (simp_all add: gears_key_def id_list_def id_item_def dec.simps digit_numerals digit_Suc_0)
  from backend_ids_are_fetched [where ops = ram_ops and server = "sends (''{'' @ gears_key @ id_list ?xs @ '']}'')" and e = 0
      and pre = "''{''" and xs = ?xs and rest = "''}''" and junk = "[]", OF _ _ _ _ this, of fresh_http True "''pop''"]
  show ?thesis
    by (simp add: sends_def json_space_def fresh_http_def flip: numeral_2_eq_2)
qed

lemma unterminated_id_list_is_overread_witness:
  "getControleGearsRemote ram_ops True (sends (''{'' @ gears_key @ id_list [([], 7)])) ''pop'' fresh_http = Inl Out_of_bounds
   \<and> getControleGearsRemote ram_ops True (sends (''{'' @ gears_key @ id_list [([], 7)] @ '' ]}'')) ''pop'' fresh_http = Inl Out_of_bounds"
  using unterminated_id_list_is_overread [of "sends (''{'' @ gears_key @ id_list [([], 7)])"
      0 "''{''" "[([], 7)]" "[]" "[]" "[]" ram_ops True "''pop''" fresh_http]
    unterminated_id_list_is_overread [of "sends (''{'' @ gears_key @ id_list [([], 7)] @ '' ]}'')"
      0 "''{''" "[([], 7)]" "'' ''" "'']}''" "[]" ram_ops True "''pop''" fresh_http]
  by (simp add: sends_def json_space_def gears_key_def id_list_def id_item_def digit_numerals)

lemma list_of_23_ids_overruns_the_copy_witness:
  "getControleGearsRemote ram_ops True (sends (''{'' @ gears_key @ id_list (replicate 23 ([], 10 ^ 18)) @ '']}'')) ''pop'' fresh_http
    = Inl Out_of_bounds"
  by (rule list_of_23_ids_overruns_the_copy [where pre = "''{''" and rest = "'']}''" and junk = "[]" and e = 0
      and xs = "replicate 23 ([], 10 ^ 18)"]) (simp_all add: sends_def)

end
