(* ===== verification/Tcp_Properties.thy ===== *)
theory Tcp_Properties
  imports Tcp_Server Http_Properties Dali_Commissioning
begin

text \<open>
  components/Tcp_server, continued: the sockets of the task, the commands that store and
  return strings, the status report, the list of ids, and blinking.
\<close>

section \<open>Messages\<close>

text \<open>A message and the white space behind it, received over what the buffer held before.\<close>

lemma trim_end_spaces:
  assumes "\<forall>i. e < i \<and> i \<le> e + n \<longrightarrow> isspace (buf ! i)" and "e = 0 \<or> \<not> isspace (buf ! e)"
  shows "trim_end buf (e + n) = e"
  using assms(1)
proof (induction n)
  case 0
  then show ?case using assms(2) by (cases e) auto
qed simp

lemma trimmed_receive:
  assumes "m \<noteq> []" and "\<not> isspace (last m)" and "\<forall>c\<in>set ws. isspace c"
    and "length (m @ ws) < RX_SIZE" and "length buf = RX_SIZE"
  shows "trimmed (receive_into (m @ ws) buf) (length (m @ ws))
    = m @ NUL # drop (length m + 1) (receive_into (m @ ws) buf)"
proof -
  let ?b = "receive_into (m @ ws) buf" and ?e = "length m - 1"
  have b: "?b = m @ ws @ NUL # drop (length (m @ ws) + 1) buf"
    by (simp add: receive_into_def)
  have "isspace (?b ! i)" if "?e < i \<and> i \<le> ?e + length ws" for i
  proof -
    have "?b ! i = ws ! (i - length m)"
      using that assms(1) unfolding b by (cases m) (auto simp: nth_append)
    moreover have "i - length m < length ws"
      using that assms(1) by (cases m) auto
    ultimately show ?thesis using assms(3) by simp
  qed
  moreover have "\<not> isspace (?b ! ?e)"
    using assms(1,2) unfolding b by (simp add: nth_append last_conv_nth)
  ultimately have "trim_end ?b (?e + length ws) = ?e"
    by (intro trim_end_spaces) auto
  moreover have "?e + length ws = length (m @ ws) - 1" "?e + 1 = length m"
    using assms(1) by (cases m; simp)+
  ultimately have "trimmed ?b (length (m @ ws)) = ?b[length m := NUL]"
    by (simp add: trimmed_def)
  also have "\<dots> = m @ NUL # drop (length m + 1) ?b"
    using upd_conv_take_nth_drop [of "length m" ?b NUL] unfolding b by simp
  finally show ?thesis .
qed

definition receive :: "char list \<Rightarrow> ('n, 'z) tcp_scheme \<Rightarrow> ('n, 'z) tcp_scheme" where
  "receive cs s = s\<lparr>rx_buffer := receive_into cs (rx_buffer s)\<rparr>"

text \<open>The tests of \<open>message_handler\<close>, in order, without the two that cannot succeed.\<close>

definition dispatch ::
    "'n nvs_ops \<Rightarrow> junk \<Rightarrow> string \<Rightarrow> char list \<Rightarrow> int \<Rightarrow> ('n, 'z) tcp_scheme \<Rightarrow> fault + ('n, 'z) tcp_scheme" where
  "dispatch ops j msg buf sock s =
     (if msg = ''GET_STATE'' then get_state_command sock s
      else if msg = ''COMMISION_DALI_BUS'' then Inr (commission_command s)
      else if starts_with msg ''BLINK_LAMP'' then Inr (blink_command msg s)
      else if msg = ''STOP_BLINK'' then Inr (stop_command s)
      else if msg = ''GET_MANUFACTORING_ID_ON_BUS''
           then ids_command ops (malloc_succeeds j) (junk_handle j) (junk_value j) sock s
      else if starts_with msg ''SET_REFRESH_TOKEN'' then set_refresh_token_command ops buf sock s
      else if msg = ''GET_REFRESH_TOKEN''
           then get_string_command ops (malloc_succeeds j) (junk_array j) ''token'' sock s
      else if starts_with msg ''SET_EMAIL'' then set_email_command ops buf sock s
      else if msg = ''GET_EMAIL''
           then get_string_command ops (malloc_succeeds j) (junk_array j) ''email'' sock s
      else if msg = ''ERROR_MESSAGES_READ'' then Inr (s\<lparr>error_message_send := True\<rparr>)
      else Inr s)"

lemma message_handler_dispatch:
  "message_handler ops j len sock s =
    dispatch ops j (cstr (trimmed (rx_buffer s) len)) (trimmed (rx_buffer s) len) sock
      (s\<lparr>rx_buffer := trimmed (rx_buffer s) len\<rparr>)"
  unfolding message_handler_def dispatch_def Let_def by (simp cong: if_cong)

lemma handle_message:
  assumes "m \<noteq> []" and "\<not> isspace (last m)" and "\<forall>c\<in>set ws. isspace c" and "NUL \<notin> set m"
    and "length (m @ ws) < RX_SIZE" and "length (rx_buffer s) = RX_SIZE"
  defines "buf \<equiv> m @ NUL # drop (length m + 1) (receive_into (m @ ws) (rx_buffer s))"
  shows "message_handler ops j (length (m @ ws)) sock (receive (m @ ws) s) =
    dispatch ops j m buf sock (s\<lparr>rx_buffer := buf\<rparr>)"
  using trimmed_receive [OF assms(1-3,5,6)] assms(4)
  by (simp add: message_handler_dispatch receive_def buf_def)

lemma length_buf:
  assumes "length (m @ ws) < RX_SIZE" and "length buf = RX_SIZE"
  shows "length (m @ NUL # drop (length m + 1) (receive_into (m @ ws) buf)) = RX_SIZE"
  using assms by (simp add: receive_into_def)

section \<open>What the commands leave alone\<close>

lemma reply_keeps:
  "reply sock msg s = Inr s' \<Longrightarrow> open_sockets s' = open_sockets s \<and> global_socket s' = global_socket s"
  by (auto simp: reply_def sprintf_response_def send_socket_def split: if_splits)

lemma dispatch_keeps:
  assumes "dispatch ops j msg buf sock s = Inr s'"
  shows "open_sockets s' = open_sockets s \<and> global_socket s' = global_socket s"
proof -
  have 1: "open_sockets s' = open_sockets s \<and> global_socket s' = global_socket s" if "get_state_command sock s = Inr s'"
    using that by (auto simp: get_state_command_def get_controler_state_def sprintf_response_def send_socket_def
        split: sum.splits if_splits)
  have 2: "open_sockets s' = open_sockets s \<and> global_socket s' = global_socket s" if "ids_command ops a b c sock s = Inr s'" for a b c
    using that by (auto simp: ids_command_def dest: reply_keeps split: prod.splits option.splits)
  have 3: "open_sockets s' = open_sockets s \<and> global_socket s' = global_socket s" if "set_refresh_token_command ops buf sock s = Inr s'"
    using that by (auto simp: set_refresh_token_command_def Let_def dest!: reply_keeps split: sum.splits prod.splits if_splits)
  have 4: "open_sockets s' = open_sockets s \<and> global_socket s' = global_socket s" if "set_email_command ops buf sock s = Inr s'"
    using that by (auto simp: set_email_command_def send_socket_def Let_def split: sum.splits prod.splits if_splits)
  have 5: "open_sockets s' = open_sockets s \<and> global_socket s' = global_socket s" if "get_string_command ops a b k sock s = Inr s'" for a b k
    using that by (auto simp: get_string_command_def send_socket_def split: sum.splits prod.splits if_splits)
  show ?thesis
    using assms 1 2 3 4 5 unfolding dispatch_def
    by (auto simp: commission_command_def blink_command_def blink_lamp_def stop_command_def goto_def split: if_splits)
qed

lemma connection_loop_keeps:
  "connection_loop ops sock rs s = Inr s' \<Longrightarrow>
    open_sockets s' = open_sockets s \<and> global_socket s' = global_socket s"
proof (induction rs arbitrary: s)
  case (Cons r rs)
  then show ?case
    by (cases r; cases "fst r") (auto simp: message_handler_dispatch split: sum.splits dest!: dispatch_keeps)
qed simp

lemma set_refresh_token_stores:
  assumes "string_in (drop (length ''SET_REFRESH_TOKEN'' + 1) buf) = Inr tok" and "tok \<noteq> []"
    and "nvs_set_string ops ''authentication'' ''refresh_token'' tok (nvs s) = (True, n)" and "length (popID s) \<le> 9"
  defines "msg \<equiv> with_pop ''Refresh token set successfully'' (popID s)"
  shows "set_refresh_token_command ops buf sock s = Inr (send_socket sock msg (s\<lparr>nvs := n, response := msg\<rparr>))"
  unfolding set_refresh_token_command_def assms(1)
  using assms(2-4) by (simp add: reply_def sprintf_response_def with_pop_def RESPONSE_SIZE_def msg_def)

section \<open>Properties\<close>

text \<open>
  C31: Whatever fails, and whatever the app sends, an iteration of the server task that ends
  leaves no socket open that was not open before it, and leaves the other tasks no stale
  socket to send to.
\<close>

theorem server_task_closes_its_sockets:
  assumes "tcp_server_task ops envs s = Inr s'" and "global_socket s = - 1"
    and "\<forall>env\<in>set envs. listen_sock env \<notin> set (open_sockets s) \<and> - 1 \<le> accepted env \<and>
      accepted env \<notin> insert (listen_sock env) (set (open_sockets s))"
  shows "open_sockets s' = open_sockets s \<and> global_socket s' = - 1"
proof -
  have iteration: "open_sockets t' = open_sockets t \<and> global_socket t' = - 1"
    if "tcp_server_iteration ops env t = Inr t'" "global_socket t = - 1"
      "listen_sock env \<notin> set (open_sockets t)" "- 1 \<le> accepted env"
      "accepted env \<notin> insert (listen_sock env) (set (open_sockets t))" for env t t'
    using that
    by (auto simp: tcp_server_iteration_def Let_def open_socket_def close_socket_def send_socket_def filter_id_conv
        dest!: connection_loop_keeps split: if_splits sum.splits)
  show ?thesis
    using assms
  proof (induction envs arbitrary: s)
    case (Cons env envs)
    then obtain t where "tcp_server_iteration ops env s = Inr t" "tcp_server_task ops envs t = Inr s'"
      by (auto split: sum.splits)
    with iteration [of env s t] Cons show ?case by auto
  qed simp
qed

text \<open>A server that has just started, with an empty flash.\<close>

definition fresh_tcp :: "ram tcp" where
  "fresh_tcp = http.extend fresh_http
     \<lparr>response = [], transmit = [], global_socket = - 1, transmit_error_flag = False,
      rx_buffer = replicate 512 CHR ''?'', sent = [], open_sockets = [], tcp_event_bit = False, selected_driver = 0,
      error_message_send = False, found = empty_inventory, popID = ''abcd1234''\<rparr>"

definition no_junk :: junk where
  "no_junk = \<lparr>junk_handle = 0, junk_value = 0, junk_array = replicate 512 CHR ''?'', malloc_succeeds = True\<rparr>"

lemma fresh_tcp_fields [simp]:
  "length (rx_buffer fresh_tcp) = RX_SIZE" "global_socket fresh_tcp = - 1" "open_sockets fresh_tcp = []"
  "sent fresh_tcp = []" "popID fresh_tcp = ''abcd1234''" "nvs fresh_tcp = empty_ram"
  by (simp_all add: fresh_tcp_def http.defs fresh_http_def RX_SIZE_def)

lemma server_task_closes_its_sockets_witness:
  "\<exists>s'. tcp_server_task ram_ops
      [\<lparr>listen_sock = 3, bind_err = 0, listen_err = 0, accepted = 4, recvs = [(Recv_data ''STOP_BLINK'', no_junk), (Recv_closed, no_junk)]\<rparr>,
       \<lparr>listen_sock = 3, bind_err = 0, listen_err = 0, accepted = - 1, recvs = []\<rparr>] fresh_tcp = Inr s'
     \<and> open_sockets s' = []"
proof -
  let ?env = "\<lparr>listen_sock = 3, bind_err = 0, listen_err = 0, accepted = 4, recvs = [(Recv_data ''STOP_BLINK'', no_junk), (Recv_closed, no_junk)]\<rparr>"
  let ?env' = "\<lparr>listen_sock = 3, bind_err = 0, listen_err = 0, accepted = - 1, recvs = []\<rparr> :: sockets"
  have "tcp_server_task ram_ops [?env, ?env'] fresh_tcp \<noteq> Inl f" for f
    by (simp add: tcp_server_iteration_def message_handler_dispatch dispatch_def stop_command_def starts_with_def
        trimmed_def receive_into_def isspace_def cstr_def open_socket_def close_socket_def Let_def fresh_tcp_def http.defs)
  then obtain s' where "tcp_server_task ram_ops [?env, ?env'] fresh_tcp = Inr s'"
    by (cases "tcp_server_task ram_ops [?env, ?env'] fresh_tcp") auto
  with server_task_closes_its_sockets [OF this] show ?thesis
    by auto
qed

lemma token_message:
  fixes s :: "('n, 'z) tcp_scheme"
  assumes "nvs_store ops view" and "tok \<noteq> []" and "\<not> isspace (last tok)" and "NUL \<notin> set tok"
    and "\<forall>c\<in>set ws. isspace c" and "length (''SET_REFRESH_TOKEN '' @ tok @ ws) < RX_SIZE"
    and "length (rx_buffer s) = RX_SIZE" and "length (popID s) \<le> 9"
  defines "msg \<equiv> with_pop ''Refresh token set successfully'' (popID s)"
  obtains n buf where "message_handler ops j (length (''SET_REFRESH_TOKEN '' @ tok @ ws)) sock
      (receive (''SET_REFRESH_TOKEN '' @ tok @ ws) s) = Inr (send_socket sock msg (s\<lparr>rx_buffer := buf, nvs := n, response := msg\<rparr>))"
    and "view (drv n) = put_entry ''authentication'' ''refresh_token'' (Some (Str tok)) (view (drv (nvs s)))"
proof -
  let ?m = "''SET_REFRESH_TOKEN '' @ tok"
  let ?buf = "?m @ NUL # drop (length ?m + 1) (receive_into (?m @ ws) (rx_buffer s))"
  obtain n where n: "nvs_set_string ops ''authentication'' ''refresh_token'' tok (nvs s) = (True, n)"
    "view (drv n) = put_entry ''authentication'' ''refresh_token'' (Some (Str tok)) (view (drv (nvs s)))"
    using nvs_set_string_store [OF assms(1), of "''authentication''" "''refresh_token''" tok "nvs s"] by auto
  have "message_handler ops j (length (?m @ ws)) sock (receive (?m @ ws) s)
      = dispatch ops j ?m ?buf sock (s\<lparr>rx_buffer := ?buf\<rparr>)"
    using assms(2-7) by (intro handle_message) auto
  also have "\<dots> = set_refresh_token_command ops ?buf sock (s\<lparr>rx_buffer := ?buf\<rparr>)"
    by (simp add: dispatch_def starts_with_def)
  also have "\<dots> = Inr (send_socket sock msg (s\<lparr>rx_buffer := ?buf, nvs := n, response := msg\<rparr>))"
    using assms(2,4,8) n(1) by (subst set_refresh_token_stores [where tok = tok and n = n]) (auto simp: string_in_def msg_def)
  finally show thesis
    using n(2) by (intro that) simp_all
qed

text \<open>
  C18: Logging in: after \<open>SET_REFRESH_TOKEN tok\<close>, with any white space behind it, the token is
  stored under \<open>authentication\<close>, the gateway counts as authenticated, the app is told so, and
  the state of the gateway is not touched.
\<close>

theorem set_refresh_token_logs_in:
  fixes s :: "('n, 'z) tcp_scheme"
  assumes "nvs_store ops view" and "tok \<noteq> []" and "\<not> isspace (last tok)" and "NUL \<notin> set tok"
    and "\<forall>c\<in>set ws. isspace c" and "length (''SET_REFRESH_TOKEN '' @ tok @ ws) < RX_SIZE"
    and "length (rx_buffer s) = RX_SIZE" and "length (popID s) \<le> 9"
  shows "\<exists>s'. message_handler ops j (length (''SET_REFRESH_TOKEN '' @ tok @ ws)) sock
      (receive (''SET_REFRESH_TOKEN '' @ tok @ ws) s) = Inr s'
    \<and> entries (view (drv (nvs s'))) ''authentication'' ''refresh_token'' = Some (Str tok)
    \<and> fst (authenticated ops (nvs s'))
    \<and> sent s' = sent s @ [(sock, with_pop ''Refresh token set successfully'' (popID s))] \<and> mgr s' = mgr s"
proof -
  obtain n buf where n: "message_handler ops j (length (''SET_REFRESH_TOKEN '' @ tok @ ws)) sock
      (receive (''SET_REFRESH_TOKEN '' @ tok @ ws) s) = Inr (send_socket sock (with_pop ''Refresh token set successfully'' (popID s))
        (s\<lparr>rx_buffer := buf, nvs := n, response := with_pop ''Refresh token set successfully'' (popID s)\<rparr>))"
    "view (drv n) = put_entry ''authentication'' ''refresh_token'' (Some (Str tok)) (view (drv (nvs s)))"
    by (rule token_message [OF assms])
  have "fst (authenticated ops n)"
    using authenticated_store [OF assms(1), of n] n(2) assms(6) by (simp add: RX_SIZE_def)
  then show ?thesis
    using n by (simp add: send_socket_def)
qed

text \<open>
  C36: A bare \<open>SET_REFRESH_TOKEN\<close> is not refused: its argument is looked for behind the
  terminator, so the tail of the message received before it (from the 19th character on)
  is stored as the refresh token.
\<close>

theorem bare_command_stores_stale_bytes:
  fixes s :: "('n, 'z) tcp_scheme"
  assumes "nvs_store ops view" and "length m > 18" and "NUL \<notin> set m"
    and "rx_buffer s = m @ NUL # rest" and "length (rx_buffer s) = RX_SIZE" and "length (popID s) \<le> 9"
  shows "\<exists>s'. message_handler ops j (length ''SET_REFRESH_TOKEN'') sock (receive ''SET_REFRESH_TOKEN'' s) = Inr s'
    \<and> entries (view (drv (nvs s'))) ''authentication'' ''refresh_token'' = Some (Str (drop 18 m))"
proof -
  let ?m = "''SET_REFRESH_TOKEN''" and ?tok = "drop 18 m"
  let ?buf = "?m @ NUL # drop (length ?m + 1) (receive_into (?m @ []) (rx_buffer s))"
  obtain n where n: "nvs_set_string ops ''authentication'' ''refresh_token'' ?tok (nvs s) = (True, n)"
    "view (drv n) = put_entry ''authentication'' ''refresh_token'' (Some (Str ?tok)) (view (drv (nvs s)))"
    using nvs_set_string_store [OF assms(1), of "''authentication''" "''refresh_token''" ?tok "nvs s"] by auto
  have tok: "?tok \<noteq> []" "NUL \<notin> set ?tok"
    using assms(2,3) by (auto dest: in_set_dropD)
  have "drop (length ?m + 1) ?buf = ?tok @ NUL # rest"
    using assms(2) by (simp add: receive_into_def assms(4) numeral_eq_Suc)
  then have arg: "string_in (drop (length ?m + 1) ?buf) = Inr ?tok"
    using tok(2) by (simp add: string_in_def)
  have "message_handler ops j (length (?m @ [])) sock (receive (?m @ []) s)
      = dispatch ops j ?m ?buf sock (s\<lparr>rx_buffer := ?buf\<rparr>)"
    using assms(5) by (intro handle_message) (simp_all add: isspace_def RX_SIZE_def)
  also have "\<dots> = set_refresh_token_command ops ?buf sock (s\<lparr>rx_buffer := ?buf\<rparr>)"
    by (simp add: dispatch_def starts_with_def)
  also have "\<dots> = Inr (send_socket sock (with_pop ''Refresh token set successfully'' (popID s))
      (s\<lparr>rx_buffer := ?buf, nvs := n, response := with_pop ''Refresh token set successfully'' (popID s)\<rparr>))"
    using n(1) assms(6) by (subst set_refresh_token_stores [OF arg tok(1), where n = n]) simp_all
  finally show ?thesis
    using n(2) by (simp add: send_socket_def)
qed

lemma set_refresh_token_logs_in_witness:
  "\<exists>s'. message_handler ram_ops no_junk 24 7 (receive (''SET_REFRESH_TOKEN tok1'' @ [CHR 0x0D, CHR 0x0A]) fresh_tcp) = Inr s'
     \<and> fst (authenticated ram_ops (nvs s')) \<and> fst (hd (sent s')) = 7"
  using set_refresh_token_logs_in [OF nvs_store_ram, of "''tok1''" "[CHR 0x0D, CHR 0x0A]" fresh_tcp no_junk 7]
  by (auto simp: isspace_def RX_SIZE_def numeral_eq_Suc)

lemma bare_command_stores_stale_bytes_witness:
  "\<exists>s'. message_handler ram_ops no_junk 17 7 (receive ''SET_REFRESH_TOKEN''
      (fresh_tcp\<lparr>rx_buffer := ''SET_EMAIL someone@example.org'' @ NUL # replicate 482 CHR ''?''\<rparr>)) = Inr s'
     \<and> entries (ram_view (drv (nvs s'))) ''authentication'' ''refresh_token'' = Some (Str ''example.org'')"
  using bare_command_stores_stale_bytes [OF nvs_store_ram, of "''SET_EMAIL someone@example.org''"
      "fresh_tcp\<lparr>rx_buffer := ''SET_EMAIL someone@example.org'' @ NUL # replicate 482 CHR ''?''\<rparr>" "replicate 482 CHR ''?''" no_junk 7]
  by (auto simp: RX_SIZE_def numeral_eq_Suc)

lemma state_text_head: "state_text st = Some a \<Longrightarrow> a \<noteq> [] \<and> hd a \<noteq> CHR ''U'' \<and> length a \<le> 41"
  by (cases st) (auto simp: state_text_def)

lemma state_text_inject: "state_text st = state_text st' \<Longrightarrow> state_text st \<noteq> None \<Longrightarrow> st = st'"
  by (cases st; cases st') (simp_all add: state_text_def)

lemma with_pop_unknown: "a \<noteq> [] \<Longrightarrow> hd a \<noteq> CHR ''U'' \<Longrightarrow> with_pop a p \<noteq> unknown_state"
  by (cases a) (auto simp: with_pop_def unknown_state_def)

lemma with_pop_inject: "with_pop a p = with_pop b p \<longleftrightarrow> a = b"
  by (simp add: with_pop_def)

definition report :: "State_t \<Rightarrow> string \<Rightarrow> string" where
  "report st p = (case state_text st of Some a \<Rightarrow> with_pop a p | None \<Rightarrow> unknown_state)"

lemma get_controler_state_report:
  assumes "state_of (get_state (mgr s)) = Some st" and "length (popID s) \<le> 9"
  shows "get_controler_state s = Inr (s\<lparr>response := report st (popID s)\<rparr>)"
proof -
  have "length (report st (popID s)) < RESPONSE_SIZE"
    using assms(2) state_text_head [of st]
    by (cases "state_text st") (auto simp: report_def with_pop_def unknown_state_def RESPONSE_SIZE_def)
  moreover have "(case Option.bind (state_of (get_state (mgr s))) state_text of
          Some status \<Rightarrow> with_pop status (popID s) | None \<Rightarrow> unknown_state) = report st (popID s)"
    by (simp add: assms(1) report_def)
  ultimately show ?thesis
    by (simp add: get_controler_state_def sprintf_response_def)
qed

text \<open>
  The report of \<open>GET_STATE\<close> fits its buffer and tells the state: sixteen states have a
  report of their own, which no other state shares; the five others all get the same one.
\<close>

theorem status_report_tells_the_state:
  assumes "state_of (get_state (mgr s)) = Some st" and "length (popID s) \<le> 9"
    and "state_of (get_state (mgr t)) = Some st'" and "popID t = popID s"
  shows "\<exists>s' t'. get_controler_state s = Inr s' \<and> get_controler_state t = Inr t' \<and>
    (response s' = response t' \<longleftrightarrow> st = st' \<or> {st, st'} \<subseteq>
      {INIT_POP_STATE, DALI_COMMISION_BUS_STATE, SYNCRONIZE_NVS_STATE, SYNCRONIZE_BACKEND_STATE, BLINK_LAMP_STATE})"
proof -
  have none: "state_text u = None \<longleftrightarrow> u \<in> {INIT_POP_STATE, DALI_COMMISION_BUS_STATE, SYNCRONIZE_NVS_STATE,
      SYNCRONIZE_BACKEND_STATE, BLINK_LAMP_STATE}" for u
    by (cases u) (simp_all add: state_text_def)
  have "report st (popID s) = report st' (popID s) \<longleftrightarrow> st = st' \<or> state_text st = None \<and> state_text st' = None"
    using state_text_inject [of st st'] state_text_head with_pop_unknown
    by (cases "state_text st"; cases "state_text st'") (auto simp: report_def with_pop_inject dest: sym)
  then show ?thesis
    using get_controler_state_report [OF assms(1,2)] get_controler_state_report [OF assms(3)] assms(2,4)
    by (simp add: none)
qed

lemma status_report_tells_the_state_witness:
  "\<exists>s' t'. get_controler_state (goto SYSTEM_RUNNING_STATE fresh_tcp) = Inr s' \<and>
    get_controler_state (goto BLINK_LAMP_STATE fresh_tcp) = Inr t' \<and> response s' \<noteq> response t'"
proof -
  have m: "state_of (get_state (mgr (goto st fresh_tcp))) = Some st" "popID (goto st fresh_tcp) = ''abcd1234''" for st
    by (simp_all add: goto_def get_state_def)
  from status_report_tells_the_state [OF m(1) _ m(1), of SYSTEM_RUNNING_STATE BLINK_LAMP_STATE] show ?thesis
    by (auto simp: m)
qed

lemma csv_length:
  assumes "\<forall>i<n. 10 ^ 18 \<le> unat (f i)"
  shows "22 * n \<le> length (concat (map (csv_entry f) [0..<n]))"
proof -
  have "22 \<le> length (csv_entry f i)" if "i < n" for i
  proof -
    have "10 ^ 18 \<le> unat (f i)" using assms that by simp
    then have "18 < length (dec (unat (f i)))" "f i \<noteq> 0"
      using length_dec_ge [of 18 "unat (f i)"] by auto
    moreover have "0 < length (dec i)" by simp
    ultimately have "length (csv_entry f i) = length (dec i) + length (dec (unat (f i))) + 2"
      by (simp add: csv_entry_def)
    with \<open>18 < length (dec (unat (f i)))\<close> \<open>0 < length (dec i)\<close> show ?thesis
      by linarith
  qed
  then have "(\<Sum>i\<leftarrow>[0..<n]. 22) \<le> (\<Sum>i\<leftarrow>[0..<n]. length (csv_entry f i))"
    by (intro sum_list_mono) simp
  then show ?thesis
    by (simp add: length_concat comp_def sum_list_triv)
qed

text \<open>
  C35: With five or more gears stored under ids of the usual 19 digits, the reply to
  \<open>GET_MANUFACTORING_ID_ON_BUS\<close> overruns its buffer (or, when there is no list, a null
  pointer is read).
\<close>

theorem five_ids_overrun_the_reply:
  assumes "nvs_store ops view" and "malloc_succeeds j" and "5 \<le> unat (devices_on_bus_count (found s))"
    and "\<forall>i<unat (devices_on_bus_count (found s)). \<exists>x. 10 ^ 18 \<le> unat x \<and>
      entries (view (drv (nvs s))) ''manu_id'' (dec i) = Some (U64 x)"
    and "length (rx_buffer s) = RX_SIZE"
  shows "message_handler ops j (length ''GET_MANUFACTORING_ID_ON_BUS'') sock
    (receive ''GET_MANUFACTORING_ID_ON_BUS'' s) = Inl Out_of_bounds"
proof -
  let ?n = "unat (devices_on_bus_count (found s))" and ?m = "''GET_MANUFACTORING_ID_ON_BUS''"
  obtain f where f: "\<forall>i<?n. 10 ^ 18 \<le> unat (f i) \<and>
      entries (view (drv (nvs s))) ''manu_id'' (dec i) = Some (U64 (f i))"
    using assms(4) by metis
  define full where "full = concat (map (csv_entry f) [0..<?n])"
  have "22 * ?n \<le> length full"
    unfolding full_def using f by (intro csv_length) auto
  then have full: "110 \<le> length full"
    using assms(3) by linarith
  obtain r n where r: "nvs_read_all_manufactoring_ids ops True (junk_handle j) (junk_value j) (devices_on_bus_count (found s)) (nvs s) = (r, n)"
    by (cases "nvs_read_all_manufactoring_ids ops True (junk_handle j) (junk_value j) (devices_on_bus_count (found s)) (nvs s)")
  have "r \<in> {None, Some (butlast full)}"
    using read_all_ids [OF assms(1), of "devices_on_bus_count (found s)" "nvs s" f "junk_handle j" "junk_value j"] f r
    unfolding full_def by (simp split: if_splits)
  then have "ids_command ops True (junk_handle j) (junk_value j) sock (s\<lparr>rx_buffer := b\<rparr>) = Inl Out_of_bounds" for b
    using full by (auto simp: ids_command_def r reply_def sprintf_response_def RESPONSE_SIZE_def)
  moreover have "message_handler ops j (length (?m @ [])) sock (receive (?m @ []) s)
      = dispatch ops j ?m (?m @ NUL # drop (length ?m + 1) (receive_into (?m @ []) (rx_buffer s))) sock
        (s\<lparr>rx_buffer := ?m @ NUL # drop (length ?m + 1) (receive_into (?m @ []) (rx_buffer s))\<rparr>)"
    using assms(5) by (intro handle_message) (simp_all add: isspace_def RX_SIZE_def)
  ultimately show ?thesis
    using assms(2) by (simp add: dispatch_def starts_with_def)
qed

definition five_ids :: "ram tcp" where
  "five_ids = fresh_tcp\<lparr>found := empty_inventory\<lparr>devices_on_bus_count := 5\<rparr>,
     nvs := \<lparr>drv = \<lparr>ram_entries = map (\<lambda>i. ((''manu_id'', dec i), U64 (10 ^ 18))) [0..<5], ram_handles = []\<rparr>, blocks = 0\<rparr>\<rparr>"

lemma five_ids_overrun_the_reply_witness:
  "message_handler ram_ops no_junk (length ''GET_MANUFACTORING_ID_ON_BUS'') 7
    (receive ''GET_MANUFACTORING_ID_ON_BUS'' five_ids) = Inl Out_of_bounds"
proof -
  have "map_of (map (\<lambda>i. ((''manu_id'', dec i), v)) xs) (''manu_id'', dec k) = (if k \<in> set xs then Some v else None)"
    for v :: nvs_value and xs k
    by (induction xs) auto
  then have "\<exists>x. 10 ^ 18 \<le> unat x \<and> entries (ram_view (drv (nvs five_ids))) ''manu_id'' (dec i) = Some (U64 x)" if "i < 5" for i
    using that by (intro exI [of _ "10 ^ 18"]) (simp add: five_ids_def ram_view_def del: dec_small)
  then have "\<forall>i<unat (devices_on_bus_count (found five_ids)). \<exists>x. 10 ^ 18 \<le> unat x \<and>
      entries (ram_view (drv (nvs five_ids))) ''manu_id'' (dec i) = Some (U64 x)"
    by (simp add: five_ids_def)
  then show ?thesis
    by (intro five_ids_overrun_the_reply [OF nvs_store_ram]) (simp_all add: no_junk_def five_ids_def)
qed

text \<open>
  \<open>STOP_BLINK\<close> goes back to the state before blinking only if exactly one \<open>BLINK_LAMP\<close>
  was received; after two or more, the gateway stays in the blinking state.
\<close>

theorem stop_works_after_one_blink_only:
  "get_state (mgr (stop_command (fold (\<lambda>m s. blink_command m s) ms s))) =
    (if ms = [] then get_last_state (mgr s)
     else if length ms = 1 then get_state (mgr s) else code_of BLINK_LAMP_STATE)"
proof -
  have blink: "state_machine (mgr (blink_command m s)) = code_of BLINK_LAMP_STATE"
    "last_state (mgr (blink_command m s)) = state_machine (mgr s)" for m and s :: "('a, 'b) tcp_scheme"
    by (simp_all add: blink_command_def blink_lamp_def goto_def)
  have stop: "state_machine (mgr (stop_command s)) = last_state (mgr s)" for s :: "('a, 'b) tcp_scheme"
    by (simp add: stop_command_def get_last_state_def)
  have many: "last_state (mgr (fold blink_command ms s)) = code_of BLINK_LAMP_STATE
      \<and> state_machine (mgr (fold blink_command ms s)) = code_of BLINK_LAMP_STATE"
    if "state_machine (mgr s) = code_of BLINK_LAMP_STATE" "ms \<noteq> []" for s :: "('a, 'b) tcp_scheme" and ms
    using that by (induction ms arbitrary: s rule: induct_list012) (auto simp: blink)
  show ?thesis
  proof (cases ms)
    case (Cons m ms')
    then show ?thesis
      using many [of "blink_command m s" ms'] by (cases ms') (auto simp: stop blink get_state_def)
  qed (simp add: stop get_state_def get_last_state_def)
qed

end
