(* ===== verification/App_Properties.thy ===== *)
theory App_Properties
  imports App_Main Tcp_Properties Dali_World
begin

text \<open>
  main/main.c, continued: what runs of the whole gateway do. The first sections give, for
  every part, what it leaves of the state variable and of the inventory; the properties
  are about runs of all tasks, in whatever order the events come.
\<close>

section \<open>The state variable\<close>

abbreviation in_state :: "State_t \<Rightarrow> ('n, 'z) http_scheme \<Rightarrow> bool" where
  "in_state st g \<equiv> state_machine (mgr g) = code_of st"

lemma in_stateD [state_simps]: "in_state st g \<Longrightarrow> state_of (get_state (mgr g)) = Some st"
  by (simp add: get_state_def)

lemma goto_state [simp]:
  "mgr (goto st g) = snd (set_state st (mgr g))" "nvs (goto st g) = nvs g" "found (goto st g) = found g"
  "popID (goto st g) = popID g" "gateway.button (goto st h) = gateway.button h" "gateway.dali (goto st h) = gateway.dali h"
  "oneHourPassed (goto st h) = oneHourPassed h" "hour_timer_reload (goto st h) = hour_timer_reload h" "hour_timer_running (goto st h) = hour_timer_running h"
  "error_counter (goto st h) = error_counter h" "net (goto st h) = net h" "tcp_task_started (goto st h) = tcp_task_started h"
  "published (goto st h) = published h" "configured (goto st h) = configured h"
  "await_user_action (goto st h) = await_user_action h"
  by (simp_all add: goto_def)

lemma main_wait_keeps [simp]:
  "mgr (main_wait bus g) = mgr g" "nvs (main_wait bus g) = nvs g" "found (main_wait bus g) = found g"
  "popID (main_wait bus g) = popID g" "gateway.button (main_wait bus g) = gateway.button g"
  "oneHourPassed (main_wait bus g) = oneHourPassed g" "hour_timer_reload (main_wait bus g) = hour_timer_reload g" "hour_timer_running (main_wait bus g) = hour_timer_running g"
  "error_counter (main_wait bus g) = error_counter g" "net (main_wait bus g) = net g"
  "tcp_task_started (main_wait bus g) = tcp_task_started g" "published (main_wait bus g) = published g"
  "configured (main_wait bus g) = configured g" "selected_driver (main_wait bus g) = selected_driver g"
  by (simp_all add: main_wait_def)

text \<open>An iteration of the main loop, by the state it starts in.\<close>

lemma iteration:
  assumes "\<not> restarted (gateway.button g)" and "app_main_switch P I g = Inr g'"
  shows "gateway_step P (Main I) g = Inr (main_wait (pf_bus P) g')"
  using assms by (simp add: gateway_step_def app_main_iteration_def)

lemma iteration_fails:
  assumes "\<not> restarted (gateway.button g)" and "app_main_switch P I g = Inl f"
  shows "gateway_step P (Main I) g = Inl f"
  using assms by (simp add: gateway_step_def app_main_iteration_def)

lemma switch [state_simps]:
  "in_state NVS_INIT_STATE g \<Longrightarrow> app_main_switch P I g = nvs_init_state P I g"
  "in_state INIT_POP_STATE g \<Longrightarrow> app_main_switch P I g = init_pop_state P I g"
  "in_state AWAIT_WIFI_PROVISIONING_STATE g \<Longrightarrow> app_main_switch P I g = await_wifi_state P I g"
  "in_state DALI_COMMUNICATION_INIT_STATE g \<Longrightarrow> app_main_switch P I g = dali_init_state P I g"
  "in_state TCP_SERVER_INIT_STATE g \<Longrightarrow> app_main_switch P I g = tcp_init_state P I g"
  "in_state MDNS_INIT_STATE g \<Longrightarrow> app_main_switch P I g = mdns_init_state P I g"
  "in_state ANALYZE_DALI_BUS_STATE g \<Longrightarrow> app_main_switch P I g = analyze_state P I g"
  "in_state DALI_COMMISION_BUS_STATE g \<Longrightarrow> app_main_switch P I g = commission_state P I g"
  "in_state AUTHENTICATION_STATE g \<Longrightarrow> app_main_switch P I g = authentication_state P I g"
  "in_state NOT_AUTHENTICATED_STATE g \<Longrightarrow> app_main_switch P I g = not_authenticated_state P I g"
  "in_state SYSTEM_RUNNING_STATE g \<Longrightarrow> app_main_switch P I g = system_running_state P I g"
  "in_state NO_WIFI_STATE g \<Longrightarrow> app_main_switch P I g = Inr g"
  "in_state DALI_BUS_CORRUPTED_STATE g \<Longrightarrow> app_main_switch P I g = bus_corrupted_state P I g"
  "in_state NO_RESPONSE_ON_DALI_BUS g \<Longrightarrow> app_main_switch P I g = no_response_state P I g"
  "in_state BLINK_LAMP_STATE g \<Longrightarrow> app_main_switch P I g = blink_state P I g"
  by (simp_all add: app_main_switch_def state_simps)

section \<open>A gateway\<close>

text \<open>A gateway in a given state, with an empty flash, on a given line of gears.\<close>

definition after_boot :: "State_t \<Rightarrow> bool" where
  "after_boot st \<longleftrightarrow> st \<notin> {NVS_INIT_STATE, INIT_POP_STATE, AWAIT_WIFI_PROVISIONING_STATE,
     DALI_COMMUNICATION_INIT_STATE, TCP_SERVER_INIT_STATE}"

definition boot_calls :: "State_t \<Rightarrow> wifi_call list" where
  "boot_calls st = (if st \<in> {NVS_INIT_STATE, INIT_POP_STATE, AWAIT_WIFI_PROVISIONING_STATE} then [] else start_calls)"

definition gateway_in :: "State_t \<Rightarrow> 'w link \<Rightarrow> (ram, 'w) gateway" where
  "gateway_in st l = tcp.extend
     (fresh_tcp\<lparr>mgr := \<lparr>state_machine = code_of st, last_state = 0, state_manager_inited = True\<rparr>\<rparr>)
     \<lparr>dali = link.extend l (link.more idle_comm), configured = blank_setup,
      net = \<lparr>provisioned = True, wifi_connected = False, retries = 0, calls = boot_calls st\<rparr>,
      leds = \<lparr>levels = (\<lambda>_. False), configs = [], resets = []\<rparr>,
      button = \<lparr>flash = empty_ram, hold_timer = None, timers = [], next_timer = 0,
        provisioning_reset = False, restarted = False\<rparr>,
      button_ready = False, button_log = [], published = [], tcp_task_started = after_boot st,
      hour_timer_running = False, hour_timer_reload = False, oneHourPassed = True, error_counter = 0, await_user_action = False\<rparr>"

lemma gateway_in_fields [simp]:
  "mgr (gateway_in st l) = \<lparr>state_machine = code_of st, last_state = 0, state_manager_inited = True\<rparr>"
  "net (gateway_in st l) = \<lparr>provisioned = True, wifi_connected = False, retries = 0, calls = boot_calls st\<rparr>"
  "restarted (gateway.button (gateway_in st l)) = False" "error_counter (gateway_in st l) = 0"
  "nvs (gateway_in st l) = empty_ram" "found (gateway_in st l) = empty_inventory"
  "oneHourPassed (gateway_in st l) = True" "hour_timer_running (gateway_in st l) = False" "hour_timer_reload (gateway_in st l) = False"
  "rx_buffer (gateway_in st l) = replicate 512 CHR ''?''" "link.truncate (dali (gateway_in st l)) = l"
  "popID (gateway_in st l) = ''abcd1234''" "selected_driver (gateway_in st l) = 0"
  "tcp_task_started (gateway_in st l) = after_boot st"
  by (simp_all add: gateway_in_def tcp.defs fresh_tcp_def http.defs fresh_http_def link.defs)

text \<open>A platform whose calls all succeed, and an iteration in which they do.\<close>

definition platform_on :: "'w bus \<Rightarrow> server \<Rightarrow> (ram, 'w) platform" where
  "platform_on bus srv = \<lparr>pf_ops = ram_ops, pf_server = srv, pf_bus = bus, pf_stack = (\<lambda>_. 0),
     pf_mac = [1, 2, 3, 4, 5, 6], pf_max_retry = None, pf_reprovisioning = False, pf_tick_rate = 100,
     pf_led_tick = 10, pf_fuel = 100\<rparr>"

definition smooth :: inputs where
  "smooth = \<lparr>in_timer_created = True, in_provisioned = True, in_wifi_events = [IP_EVENT IP_EVENT_STA_GOT_IP],
     in_button_config = 0, in_button_install = 0, in_button_add = 0,
     in_gpio = \<lparr>r_config_tx = 0, r_set_level = 0, r_config_rx = 0, r_isr_add = 0\<rparr>,
     in_timers = \<lparr>r_new_tx = 0, r_new_rx = 0, r_alarm = 0, r_callbacks = 0, r_enable_tx = 0, r_enable_rx = 0\<rparr>,
     in_mdns = 0, in_bytes = replicate 8 0, in_value = 0, in_gear = blank_gear, in_address = 0,
     in_str_ok = True, in_malloc_ok = True, in_alloc = (\<lambda>_. True)\<rparr>"

section \<open>Properties\<close>

text \<open>
  C12: Losing the network is final: once a provisioned gateway is in \<open>NO_WIFI_STATE\<close>, no
  iteration of the main loop, no network event but a station joining its access point
  (reconnecting and getting an address included), and no timer takes it out of that state.
  (On a gateway that is not provisioned, a station leaving the access point does.)
\<close>

theorem lost_wifi_is_never_left:
  assumes "in_state NO_WIFI_STATE g" and "provisioned (net g)" and "\<not> restarted (gateway.button g)"
    and "\<forall>ev\<in>set evs. (case ev of Main I \<Rightarrow> True | Leds \<Rightarrow> True | Hour \<Rightarrow> True
      | Network e \<Rightarrow> e \<noteq> WIFI_EVENT WIFI_EVENT_AP_STACONNECTED | _ \<Rightarrow> False)"
  shows "\<exists>g'. gateway_run P evs g = Inr g' \<and> get_state (mgr g') = code_of NO_WIFI_STATE"
proof -
  let ?P = "\<lambda>g. in_state NO_WIFI_STATE g \<and> provisioned (net g) \<and> \<not> restarted (gateway.button g)"
  have step: "\<exists>g'. gateway_step P ev g = Inr g' \<and> ?P g'" if "ev \<in> set evs" "?P g" for ev g
  proof (cases ev)
    case (Main I)
    then show ?thesis
      using iteration [of g P I g] that(2) by (simp add: state_simps)
  next
    case (Network e)
    then have "e \<noteq> WIFI_EVENT WIFI_EVENT_AP_STACONNECTED"
      using assms(4) that(1) by auto
    then show ?thesis
      using that(2) unfolding Network
      by (auto simp: gateway_step_def event_handler_def change_state_def called_def Let_def
          split: esp_event.split prov_event_id.split wifi_event_id.split ip_event_id.split option.split)
  qed (use assms(4) that in \<open>auto simp: gateway_step_def oneHourTimerCallback_def\<close>)
  show ?thesis
    using tasks.run_safe [of evs ?P P g] step assms(1-3) by (auto simp: get_state_def)
qed

lemma lost_wifi_is_never_left_witness:
  "\<exists>g'. gateway_run (platform_on (line_bus None) accepting)
      [Main smooth, Network (WIFI_EVENT WIFI_EVENT_STA_DISCONNECTED), Network (IP_EVENT IP_EVENT_STA_GOT_IP), Main smooth]
      (gateway_in NO_WIFI_STATE (line_of [])) = Inr g' \<and> get_state (mgr g') = code_of NO_WIFI_STATE"
  by (rule lost_wifi_is_never_left) simp_all

lemma replicate_2: "replicate 2 x = [x, x]"
  by (simp add: numeral_2_eq_2)

text \<open>
  C16: A corrupted or silent bus is analysed again, one iteration after it was found so, or
  two when three attempts have been made since the counter was last reset; a corrupted
  bus is analysed with its counts back at zero.
\<close>

theorem bus_errors_are_retried:
  assumes "in_state DALI_BUS_CORRUPTED_STATE g \<or> in_state NO_RESPONSE_ON_DALI_BUS g"
    and "\<not> restarted (gateway.button g)"
  shows "\<exists>g'. gateway_run P (replicate (if error_counter g < 3 then 1 else 2) (Main I)) g = Inr g'
    \<and> get_state (mgr g') = code_of ANALYZE_DALI_BUS_STATE
    \<and> error_counter g' = (if error_counter g < 3 then error_counter g + 1 else 1)
    \<and> found g' = (if in_state DALI_BUS_CORRUPTED_STATE g
        then (found g)\<lparr>devices_on_bus_count := 0, uncommissioned_count := 0\<rparr> else found g)"
proof (cases "in_state DALI_BUS_CORRUPTED_STATE g")
  case True
  then show ?thesis
    using assms(2) by (simp add: replicate_2 iteration state_simps bus_corrupted_state_def Let_def get_state_def)
next
  case False
  then have "in_state NO_RESPONSE_ON_DALI_BUS g"
    using assms(1) by simp
  with False show ?thesis
    using assms(2) by (simp add: replicate_2 iteration state_simps no_response_state_def get_state_def)
qed

lemma bus_errors_are_retried_witness:
  "\<exists>g'. gateway_run (platform_on (line_bus None) accepting) [Main smooth, Main smooth]
      ((gateway_in NO_RESPONSE_ON_DALI_BUS (line_of []))\<lparr>error_counter := 3\<rparr>) = Inr g'
    \<and> get_state (mgr g') = code_of ANALYZE_DALI_BUS_STATE"
  using bus_errors_are_retried [of "(gateway_in NO_RESPONSE_ON_DALI_BUS (line_of []))\<lparr>error_counter := 3\<rparr>"
      "platform_on (line_bus None) accepting" smooth]
  by (auto simp: replicate_2)

text \<open>Bringing up the network inside the main loop.\<close>

lemma network_comes_up:
  assumes "in_state AWAIT_WIFI_PROVISIONING_STATE g" and "\<not> restarted (gateway.button g)"
    and "\<forall>c\<in>set (checked_always @ [checked_last (in_provisioned I) (pf_mac P) (popID g)]). pf_stack P c = ESP_OK"
    and "IP_EVENT IP_EVENT_STA_GOT_IP \<in> set (in_wifi_events I)"
  obtains m w where "gateway_step P (Main I) g =
    Inr (main_wait (pf_bus P) (goto DALI_COMMUNICATION_INIT_STATE (g\<lparr>mgr := m, net := w\<rparr>)))"
proof -
  obtain y where y: "init_wifi_provisioning (pf_stack P) (pf_max_retry P) (pf_reprovisioning P) (pf_mac P)
      (in_provisioned I) (in_wifi_events I) (popID g) (mgr g, net g) = await_connection (pf_max_retry P) (in_wifi_events I) y"
    by (rule init_wifi_calls [of "pf_stack P" "pf_max_retry P" "pf_reprovisioning P" "pf_mac P" "in_provisioned I"
          "in_wifi_events I" "popID g" "(mgr g, net g)"]) (use assms(3) in auto)
  moreover obtain z where "await_connection (pf_max_retry P) (in_wifi_events I) y = Inr z"
    using await_connection_ends_iff [of "pf_max_retry P" "in_wifi_events I" y] assms(4) by blast
  ultimately show thesis
    by (cases z; cases "fst z") (auto intro!: that simp: iteration assms(2) state_simps assms(1) await_wifi_state_def)
qed

text \<open>
  C7: Booting succeeds: when the flash can be initialised, the network calls succeed and the
  station gets an address, six iterations of the main loop bring the gateway from power-up
  to the analysis of the bus, with the server task started, the timer running and its
  services published under its name, whatever the DALI line and the button do.
\<close>

theorem boot_reaches_bus_analysis:
  assumes "in_state NVS_INIT_STATE g" and "\<not> restarted (gateway.button g)"
    and "in_timer_created I0" and "init_nvs_handler (pf_ops P) (nvs g) = Inr n"
    and "\<forall>c\<in>set (checked_always @ [checked_last (in_provisioned I2) (pf_mac P) ''abcd1234'']). pf_stack P c = ESP_OK"
    and "IP_EVENT IP_EVENT_STA_GOT_IP \<in> set (in_wifi_events I2)" and "in_mdns I5 = ESP_OK"
  shows "\<exists>g'. gateway_run P (map Main [I0, I1, I2, I3, I4, I5]) g = Inr g'
    \<and> get_state (mgr g') = code_of ANALYZE_DALI_BUS_STATE \<and> nvs g' = n \<and> found g' = found g
    \<and> tcp_task_started g' \<and> hour_timer_running g'
    \<and> published g' = published g @ [mdns_hostname_set ''NPC_Connect_abcd1234'',
        mdns_instance_name_set ''NPC_Connect_abcd1234'', mdns_service_add ''_tcp'' ''_tcp'' 3333]"
proof -
  let ?w = "main_wait (pf_bus P)"
  define g1 where "g1 = ?w (goto INIT_POP_STATE (g\<lparr>hour_timer_reload := False, hour_timer_running := True, nvs := n\<rparr>))"
  have 1: "gateway_step P (Main I0) g = Inr g1"
    using assms(1-4) by (simp add: iteration state_simps nvs_init_state_def Let_def g1_def)
  define g2 where "g2 = ?w (goto AWAIT_WIFI_PROVISIONING_STATE (g1\<lparr>popID := ''abcd1234''\<rparr>))"
  have 2: "gateway_step P (Main I1) g1 = Inr g2"
    using assms(2) by (simp add: iteration state_simps init_pop_state_def g1_def g2_def)
  obtain m w where 3: "gateway_step P (Main I2) g2 = Inr (?w (goto DALI_COMMUNICATION_INIT_STATE (g2\<lparr>mgr := m, net := w\<rparr>)))"
    by (rule network_comes_up [of g2 I2 P]) (use assms(2,5,6) in \<open>simp_all add: g1_def g2_def\<close>)
  define g3 where "g3 = ?w (goto DALI_COMMUNICATION_INIT_STATE (g2\<lparr>mgr := m, net := w\<rparr>))"
  obtain c u where cu: "init_DALI_communication (in_gpio I3) (in_timers I3) (dali g3, configured g3) = (c, u)"
    by fastforce
  define g4 where "g4 = ?w (goto TCP_SERVER_INIT_STATE (g3\<lparr>button_log := button_log g3 @
      init_input_button (in_button_config I3) (in_button_install I3) (in_button_add I3),
      button_ready := (in_button_add I3 = ESP_OK), dali := c, configured := u\<rparr>))"
  have 4: "gateway_step P (Main I3) g3 = Inr g4"
    using assms(2) cu by (simp add: iteration state_simps dali_init_state_def Let_def g1_def g2_def g3_def g4_def)
  define g5 where "g5 = ?w (goto MDNS_INIT_STATE (g4\<lparr>tcp_task_started := True\<rparr>))"
  have 5: "gateway_step P (Main I4) g4 = Inr g5"
    using assms(2) by (simp add: iteration state_simps tcp_init_state_def g1_def g2_def g3_def g4_def g5_def)
  define g6 where "g6 = ?w (goto ANALYZE_DALI_BUS_STATE (g5\<lparr>published := published g5 @ mDNS_init (in_mdns I5) (popID g5)\<rparr>))"
  have 6: "gateway_step P (Main I5) g5 = Inr g6"
    using assms(2) by (simp add: iteration state_simps mdns_init_state_def g1_def g2_def g3_def g4_def g5_def g6_def)
  have "gateway_run P (map Main [I0, I1, I2, I3, I4, I5]) g = Inr g6"
    by (simp only: list.map gateway_run.simps 1 2 3 4 5 6 g3_def [symmetric] sum.case)
  then show ?thesis
    using assms(7) by (simp add: g6_def g5_def g4_def g3_def g2_def g1_def get_state_def mDNS_init_def Let_def)
qed

lemma boot_reaches_bus_analysis_witness:
  "\<exists>g'. gateway_run (platform_on (line_bus None) accepting) (replicate 6 (Main smooth))
      (gateway_in NVS_INIT_STATE (line_of [])) = Inr g' \<and> get_state (mgr g') = code_of ANALYZE_DALI_BUS_STATE"
proof -
  have "\<exists>n. init_nvs_handler ram_ops empty_ram = Inr n"
    by (simp add: init_nvs_handler_def ram_ops_def call_def ESP_ERR_NVS_NO_FREE_PAGES_def ESP_ERR_NVS_NEW_VERSION_FOUND_def)
  then obtain n where "init_nvs_handler (pf_ops (platform_on (line_bus None) accepting))
      (nvs (gateway_in NVS_INIT_STATE (line_of []))) = Inr n"
    by (auto simp: platform_on_def)
  from boot_reaches_bus_analysis [OF _ _ _ this, of smooth smooth smooth smooth smooth smooth]
  show ?thesis
    by (auto simp: platform_on_def smooth_def numeral_eq_Suc simp del: gateway_run.simps)
qed

lemma on_http_result:
  assumes "f (http.truncate g) = Inr (r, h)"
  obtains g' where "on_http f g = Inr (r, g')" and "nvs g' = nvs h" and "mgr g' = mgr h" and "found g' = found g"
    and "gateway.button g' = gateway.button g"
  by (rule that [of "put_http h g"]) (simp_all add: on_http_def assms put_http_def)

text \<open>
  C15: A rejected session is not noticed. When the backend refuses the stored refresh token,
  the answer erases both tokens and asks for a new login, but the same iteration of the
  main loop then goes on to the backend synchronisation, as after a success.
\<close>

theorem rejected_session_goes_on_running:
  assumes "nvs_store (pf_ops P) view" and "in_state AUTHENTICATION_STATE g \<or> in_state NOT_AUTHENTICATED_STATE g"
    and "\<not> restarted (gateway.button g)" and "in_str_ok I"
    and "entries (view (drv (nvs g))) ''authentication'' ''refresh_token'' = Some (Str r)" and "length r < 512"
    and "entries (view (drv (nvs g))) ''authentication'' ''access_token'' \<noteq> None"
    and "\<And>req. req_url req = ''http://95.217.159.233/auth/controller/refresh_token'' \<Longrightarrow>
      req_body req = json_object [(''refreshToken'', r)] \<Longrightarrow> pf_server P req = (e, [answer body rest])"
    and "NUL \<notin> set body" and "length body < 512"
    and "read_field ''accessToken'' body = None" and "read_field ''refreshToken'' body = None"
  shows "\<exists>g'. gateway_step P (Main I) g = Inr g' \<and> get_state (mgr g') = code_of SYNCRONIZE_BACKEND_STATE
    \<and> entries (view (drv (nvs g'))) ''authentication'' ''access_token'' = None
    \<and> entries (view (drv (nvs g'))) ''authentication'' ''refresh_token'' = None"
proof -
  obtain n where n: "authenticated (pf_ops P) (nvs g) = (True, n)" "entries (view (drv n)) = entries (view (drv (nvs g)))"
    using authenticated_store [OF assms(1), of "nvs g"] assms(5,6)
    by (cases "authenticated (pf_ops P) (nvs g)") auto
  define g1 where "g1 = g\<lparr>nvs := n\<rparr>"
  have nvs1: "nvs (http.truncate g1) = n"
    by (simp add: g1_def http.defs)
  obtain h where h: "refresh_access (pf_ops P) True (pf_server P) (http.truncate g1) = Inr h"
    "entries (view (drv (nvs h))) ''authentication'' ''access_token'' = None"
    "entries (view (drv (nvs h))) ''authentication'' ''refresh_token'' = None"
    using refresh_without_token [OF assms(1), of "http.truncate g1" r "pf_server P" e body rest "[]"] assms(5-12)
    by (auto simp: nvs1 n(2))
  obtain g2 where g2: "on_http (\<lambda>h. map_sum (\<lambda>f. f) (Pair ()) (refresh_access (pf_ops P) (in_str_ok I) (pf_server P) h)) g1 = Inr ((), g2)"
    "nvs g2 = nvs h"
    by (rule on_http_result [where g = g1 and h = h and r = "()" and
          f = "\<lambda>h. map_sum (\<lambda>f. f) (Pair ()) (refresh_access (pf_ops P) (in_str_ok I) (pf_server P) h)"])
      (use h(1) assms(4) in auto)
  have "app_main_switch P I g = fetch_tokens P I g1"
    using assms(2) by (auto simp: state_simps authentication_state_def not_authenticated_state_def n(1) Let_def g1_def)
  also have "\<dots> = Inr (goto SYNCRONIZE_BACKEND_STATE g2)"
    by (simp add: fetch_tokens_def g2(1))
  finally show ?thesis
    using h(2,3) g2(2) by (simp add: iteration assms(3) get_state_def)
qed

lemma rejected_session_goes_on_running_witness:
  "\<exists>g'. gateway_step (platform_on (line_bus None) (\<lambda>_. (0, [answer ''{\"message\":\"invalid token\"}'' []]))) (Main smooth)
      (gateway_in AUTHENTICATION_STATE (line_of [])\<lparr>nvs := nvs session_http\<rparr>) = Inr g'
    \<and> get_state (mgr g') = code_of SYNCRONIZE_BACKEND_STATE
    \<and> entries (ram_view (drv (nvs g'))) ''authentication'' ''refresh_token'' = None"
proof -
  let ?P = "platform_on (line_bus None) (\<lambda>_. (0, [answer ''{\"message\":\"invalid token\"}'' []]))"
  have "nvs_store (pf_ops ?P) ram_view"
    by (simp add: platform_on_def nvs_store_ram)
  moreover have "read_field ''accessToken'' ''{\"message\":\"invalid token\"}'' = None"
    "read_field ''refreshToken'' ''{\"message\":\"invalid token\"}'' = None"
    by code_simp+
  ultimately show ?thesis
    using rejected_session_goes_on_running [of ?P ram_view "gateway_in AUTHENTICATION_STATE (line_of [])\<lparr>nvs := nvs session_http\<rparr>"
        smooth "''r1''" 0 "''{\"message\":\"invalid token\"}''" "[]"] session_entries(1,2)
    by (auto simp: platform_on_def smooth_def)
qed

text \<open>The two frames of the blinking state.\<close>

lemma blink_frames_gears:
  assumes "\<not> timerOn l" and "\<not> tx_timer_running l"
  shows "gears (blink_frames bus a l) = fst (bus (fst (bus (gears l) (push_bit 9 (ucast a)))) 0xFEFE)"
    and "\<not> tx_timer_running (blink_frames bus a l)"
proof -
  have send: "gears (vTaskDelay bus (send_DALI_Tx ESP_OK f l)) = fst (bus (gears l) f)"
    "\<not> timerOn (vTaskDelay bus (send_DALI_Tx ESP_OK f l))" "\<not> tx_timer_running (vTaskDelay bus (send_DALI_Tx ESP_OK f l))"
    if "\<not> timerOn l" "\<not> tx_timer_running l" for f and l :: "'a link"
    using that
    by (simp_all add: vTaskDelay_def send_DALI_Tx_def Let_def manchester.dec_enc split: prod.splits option.splits)
  show "gears (blink_frames bus a l) = fst (bus (fst (bus (gears l) (push_bit 9 (ucast a)))) 0xFEFE)"
    and "\<not> tx_timer_running (blink_frames bus a l)"
    using assms by (simp_all add: blink_frames_def Let_def send)
qed

lemma driver_address_eq:
  assumes "\<forall>d\<in>set ds. manufactoring_id d = sel \<longrightarrow> short_address d = a"
    and "(\<forall>d\<in>set ds. manufactoring_id d \<noteq> sel) \<longrightarrow> a = junk"
  shows "driver_address sel ds junk = a"
  using assms
proof (induction ds arbitrary: junk)
  case (Cons d ds)
  have "driver_address sel ds (if manufactoring_id d = sel then short_address d else junk) = a"
    by (rule Cons.IH) (use Cons.prems in \<open>auto split: if_splits\<close>)
  then show ?case
    by (simp add: driver_address_def)
qed (simp add: driver_address_def)

lemma put_link_fields [simp]:
  "gears (put_link l c) = gears l" "tx_timer_running (put_link l c) = tx_timer_running l" "timerOn (put_link l c) = timerOn l"
  "link.truncate (put_link l c) = l" "gears (link.truncate c) = gears c" "timerOn (link.truncate c) = timerOn c"
  "tx_timer_running (link.truncate c) = tx_timer_running c"
  by (simp_all add: put_link_def link.defs)

text \<open>The two commands around blinking, as the app sends them.\<close>

lemma blink_step:
  fixes ident :: u64
  assumes "\<not> restarted (gateway.button g)" and "length (rx_buffer g) = RX_SIZE" and "tcp_task_started g"
  obtains buf where "gateway_step P (App j sock (''BLINK_LAMP'' @ dec (unat ident))) g
      = Inr (blink_command (''BLINK_LAMP'' @ dec (unat ident)) (g\<lparr>rx_buffer := buf\<rparr>))"
    and "length buf = RX_SIZE"
proof -
  let ?m = "''BLINK_LAMP'' @ dec (unat ident)"
  have len: "length (dec (unat ident)) \<le> 20" by (rule length_dec_u64)
  have nospace: "\<not> isspace (last ?m)"
    using isdigit_not_space dec_isdigit [OF last_in_set [OF dec_nonempty]] by simp
  define buf where "buf = ?m @ NUL # drop (length ?m + 1) (receive_into ?m (rx_buffer g))"
  have "message_handler (pf_ops P) j (length ?m) sock (receive ?m g) = dispatch (pf_ops P) j ?m buf sock (g\<lparr>rx_buffer := buf\<rparr>)"
    using handle_message [of ?m "[]" g "pf_ops P" j sock] nospace len assms(2)
    by (simp add: buf_def RX_SIZE_def)
  also have "\<dots> = Inr (blink_command ?m (g\<lparr>rx_buffer := buf\<rparr>))"
    by (simp add: dispatch_def starts_with_def)
  finally have "gateway_step P (App j sock ?m) g = Inr (blink_command ?m (g\<lparr>rx_buffer := buf\<rparr>))"
    using assms(1,3) len by (simp add: gateway_step_def receive_def RX_SIZE_def)
  moreover have "length buf = RX_SIZE"
    using len assms(2) by (simp add: buf_def receive_into_def RX_SIZE_def)
  ultimately show thesis by (rule that)
qed

lemma stop_step:
  assumes "\<not> restarted (gateway.button g)" and "length (rx_buffer g) = RX_SIZE" and "tcp_task_started g"
  obtains buf where "gateway_step P (App j sock ''STOP_BLINK'') g = Inr (stop_command (g\<lparr>rx_buffer := buf\<rparr>))"
proof -
  define buf where "buf = ''STOP_BLINK'' @ NUL # drop (length ''STOP_BLINK'' + 1) (receive_into ''STOP_BLINK'' (rx_buffer g))"
  have "message_handler (pf_ops P) j (length ''STOP_BLINK'') sock (receive ''STOP_BLINK'' g)
      = dispatch (pf_ops P) j ''STOP_BLINK'' buf sock (g\<lparr>rx_buffer := buf\<rparr>)"
    using handle_message [of "''STOP_BLINK''" "[]" g "pf_ops P" j sock] assms(2)
    by (simp add: buf_def RX_SIZE_def isspace_def)
  also have "\<dots> = Inr (stop_command (g\<lparr>rx_buffer := buf\<rparr>))"
    by (simp add: dispatch_def starts_with_def)
  finally show thesis
    using assms(1,3) by (intro that [of buf]) (simp add: gateway_step_def receive_def RX_SIZE_def)
qed

text \<open>
  C17: \<open>BLINK_LAMP\<close> with the id of a gear on the bus makes the next iteration send that gear's
  short address the command to go dark, and then the command to light up to all gears.
  With an id the bus does not have, the first frame goes to whatever address the
  uninitialised variable holds.
\<close>

theorem blinking_addresses_the_selected_gear:
  fixes ident :: u64
  assumes "\<not> restarted (gateway.button g)" and "length (rx_buffer g) = RX_SIZE"
    and "\<not> timerOn (dali g)" and "\<not> tx_timer_running (dali g)"
    and started: "tcp_task_started g"
    and "\<forall>d\<in>set (take 64 (devices_on_bus (found g))). manufactoring_id d = ident \<longrightarrow> short_address d = a"
    and "(\<forall>d\<in>set (take 64 (devices_on_bus (found g))). manufactoring_id d \<noteq> ident) \<longrightarrow> a = in_address I"
  shows "\<exists>g'. gateway_run P [App j sock (''BLINK_LAMP'' @ dec (unat ident)), Main I] g = Inr g'
    \<and> get_state (mgr g') = code_of BLINK_LAMP_STATE
    \<and> gears (dali g') = fst (pf_bus P (fst (pf_bus P (gears (dali g)) (push_bit 9 (ucast a)))) 0xFEFE)"
proof -
  let ?m = "''BLINK_LAMP'' @ dec (unat ident)"
  obtain buf where 1: "gateway_step P (App j sock ?m) g = Inr (blink_command ?m (g\<lparr>rx_buffer := buf\<rparr>))"
    by (rule blink_step [OF assms(1,2) started])
  define g1 where "g1 = blink_command ?m (g\<lparr>rx_buffer := buf\<rparr>)"
  have g1: "in_state BLINK_LAMP_STATE g1" "gateway.button g1 = gateway.button g" "dali g1 = dali g" "found g1 = found g"
    "selected_driver g1 = ident"
    by (simp_all add: g1_def blink_command_def blink_lamp_def goto_def)
  note addr = driver_address_eq [OF assms(6,7)]
  obtain g2 where 2: "gateway_step P (Main I) g1 = Inr g2" "in_state BLINK_LAMP_STATE g2"
    "gears (dali g2) = gears (blink_frames (pf_bus P) a (link.truncate (dali g)))"
    using blink_frames_gears(2) [of "link.truncate (dali g)"] assms(1,3,4)
    by (simp add: iteration state_simps g1 blink_state_def addr Let_def main_wait_def vTaskDelay_def)
  have "gateway_run P [App j sock ?m, Main I] g = Inr g2"
    by (simp only: gateway_run.simps 1 g1_def [symmetric] 2(1) sum.case)
  then show ?thesis
    using 2(2,3) blink_frames_gears(1) [of "link.truncate (dali g)"] assms(3,4)
    by (simp add: get_state_def del: gateway_run.simps)
qed

text \<open>A line that records the frames it sees.\<close>

definition recorder :: "u16 list bus" where
  "recorder w f = (w @ [f], None)"

definition quiet :: "'w \<Rightarrow> 'w link" where
  "quiet w = \<lparr>dataToTransmit = 0, timerOn = False, newDataFlag = False, rx_data_buffer = replicate 8 0, err = 0,
     rx_intr = True, tx_timer_running = False, gears = w\<rparr>"

lemma blinking_addresses_the_selected_gear_witness:
  "\<exists>g'. gateway_run (platform_on recorder accepting) [App no_junk 5 ''BLINK_LAMP7'', Main smooth]
      (gateway_in SYSTEM_RUNNING_STATE (quiet [])\<lparr>found := empty_inventory\<lparr>
        devices_on_bus := replicate 64 \<lparr>short_address = 3, manufactoring_id = 7, refresh_token = []\<rparr>\<rparr>\<rparr>) = Inr g'
    \<and> gears (dali g') = [0x600, 0xFEFE]"
proof -
  let ?g = "gateway_in SYSTEM_RUNNING_STATE (quiet ([] :: u16 list))\<lparr>found := empty_inventory\<lparr>
        devices_on_bus := replicate 64 \<lparr>short_address = 3, manufactoring_id = 7, refresh_token = []\<rparr>\<rparr>\<rparr>"
  have link: "\<not> timerOn (dali ?g)" "\<not> tx_timer_running (dali ?g)" "gears (dali ?g) = []"
    by (simp_all add: gateway_in_def tcp.defs link.defs quiet_def)
  have id: "''BLINK_LAMP'' @ dec (unat (7 :: u64)) = ''BLINK_LAMP7''"
    by (simp add: digit_numerals)
  from blinking_addresses_the_selected_gear [of ?g 7 3 smooth "platform_on recorder accepting" no_junk 5, unfolded id]
  show ?thesis
    using link by (simp add: RX_SIZE_def platform_on_def recorder_def after_boot_def del: gateway_run.simps replicate.simps) auto
qed

text \<open>Numbering the devices writes inside the array, and keeps its length.\<close>

lemma number_devices_fits:
  assumes "\<forall>i\<in>set is. i < length ds"
  shows "\<exists>ds'. number_devices is ds = Inr ds' \<and> length ds' = length ds"
  using assms
proof (induction "is" arbitrary: ds)
  case (Cons i "is")
  then show ?case
    using Cons.IH [of "ds[i := (ds ! i)\<lparr>short_address := of_nat i\<rparr>]"] by (simp add: array_update_def)
qed simp

text \<open>
  The analysis of a bus whose \<open>n\<close> gears all have a short address, on an inventory that
  holds those \<open>n\<close> already: it stores them once more.
\<close>

lemma recount:
  assumes law: "dali_bus bus view ns" and idle: "idle_link l" and "n < fuel" and "0 < n" and "n \<le> 64"
    and parts: "card (parts (view (gears (started bus l)))) = n"
    and short: "\<forall>a\<in>parts (view (gears (started bus l))). short (view (gears (started bus l))) a \<noteq> None"
    and "devices_on_bus_count iv = of_nat n" and "uncommissioned_count iv = 0"
    and "length (devices_on_bus iv) = 64" and "length (uncommissioned_addresses iv) = 64"
  shows "if 32 < n then check_drivers_commissioned bus fuel iv l = Inl Out_of_bounds
    else \<exists>iv' l'. check_drivers_commissioned bus fuel iv l = Inr (DALI_OK, iv', l')
      \<and> devices_on_bus_count iv' = of_nat (2 * n)"
proof -
  let ?s = "started bus l"
  let ?xs = "sorted_list_of_set (parts (view (gears ?s)))" and ?ans = "answer_of (short (view (gears ?s))) ns"
  have un: "unat (of_nat n :: u8) = n"
    using assms(5) by (simp add: unat_of_nat)
  have some: "?ans a \<noteq> None" if "a \<in> set ?xs" for a
    using short that by (cases "a \<in> parts (view (gears ?s))") (auto simp: answer_of_def)
  then have "filter (\<lambda>a. ?ans a \<noteq> None) ?xs = ?xs"
    by (intro filter_True) blast
  then have all: "mute ?ans ?xs = []" "length (answered ?ans ?xs) = n"
    using some parts by (simp_all only: mute_def answered_def filter_empty_conv length_map length_sorted_list_of_set) blast+
  have check: "map_sum (\<lambda>f. f) (\<lambda>(st, iv, s). (st, iv)) (check_drivers_commissioned bus fuel iv l)
    = map_sum (\<lambda>f. f) (\<lambda>iv. (bus_status iv, iv)) (tally ?ans ?xs iv)"
    by (rule check_drivers [OF law idle]) (use parts assms(3) in simp)
  show ?thesis
  proof (cases "32 < n")
    case True
    then have "tally ?ans ?xs iv = Inl Out_of_bounds"
      using tally_overruns [of iv ?ans ?xs] assms(5,8-11) all by (auto simp: un word_le_nat_alt)
    then show ?thesis
      using True check by (cases "check_drivers_commissioned bus fuel iv l") auto
  next
    case False
    then obtain iv' where iv: "tally ?ans ?xs iv = Inr iv'" "uncommissioned_count iv' = 0"
      "devices_on_bus_count iv' = of_nat (2 * n)"
      using tally_fits [of iv ?ans ?xs] assms(5,8-11) all by (auto simp: un)
    have "unat (of_nat (2 * n) :: u8) = 2 * n"
      using False by (simp only: unat_of_nat) simp
    then have "bus_status iv' = DALI_OK"
      using iv(2,3) assms(4) by (metis bus_status_def nat_0_less_mult_iff less_irrefl unat_0 zero_less_numeral)
    then show ?thesis
      using False check iv(1,3) by (cases "check_drivers_commissioned bus fuel iv l") auto
  qed
qed

text \<open>
  C10: After commissioning, the gears are counted twice: the state stores the number of gears
  that commissioning returned, and the analysis that follows appends every gear to the
  inventory once more. So with more than 32 gears commissioning a bus ends in a write past
  the end of \<open>devices_on_bus\<close>, although the array holds 64.
\<close>

theorem commissioned_gears_are_counted_twice:
  fixes P :: "('n, 'w) platform" and g :: "('n, 'w) gateway" and view
  defines "n \<equiv> card (parts (view (gears (started (pf_bus P) (link.truncate (dali g))))))"
  assumes "dali_bus (pf_bus P) view ns" and "\<not> restarted (gateway.button g)" and "idle_link (link.truncate (dali g))"
    and "in_state DALI_COMMISION_BUS_STATE g" and "n \<le> 64" and "n < pf_fuel P"
    and "length (devices_on_bus (found g)) = 64" and "length (uncommissioned_addresses (found g)) = 64"
    and "uncommissioned_count (found g) = 0"
    and first: "gateway_step P (Main I) g = Inr g1"
    and again: "card (parts (view (gears (started (pf_bus P) (link.truncate (dali g1)))))) = n" and "0 < n"
    and short: "\<forall>a\<in>parts (view (gears (started (pf_bus P) (link.truncate (dali g1))))).
      short (view (gears (started (pf_bus P) (link.truncate (dali g1))))) a \<noteq> None"
  shows "devices_on_bus_count (found g1) = of_nat n
    \<and> (if 32 < n then gateway_step P (Main I') g1 = Inl Out_of_bounds
       else \<exists>g2. gateway_step P (Main I') g1 = Inr g2 \<and> devices_on_bus_count (found g2) = of_nat (2 * n)
         \<and> get_state (mgr g2) = code_of DALI_COMMUNICATION_OK_STATE)"
proof -
  let ?l = "link.truncate (dali g)"
  obtain l1 where l1: "commission_bus (pf_bus P) (pf_fuel P) ?l = Inr (of_nat n, l1)" "idle_link l1"
    using commission_bus_correct [OF assms(2,4)] assms(6,7) by (auto simp: n_def)
  have un: "unat (of_nat n :: u8) = n"
    using assms(6) by (simp add: unat_of_nat)
  obtain ds where ds: "number_devices [0..<n] (devices_on_bus (found g)) = Inr ds" "length ds = 64"
    using number_devices_fits [of "[0..<n]" "devices_on_bus (found g)"] assms(6,8) by auto
  have g1: "in_state ANALYZE_DALI_BUS_STATE g1" "gateway.button g1 = gateway.button g" "link.truncate (dali g1) = l1"
    "found g1 = (found g)\<lparr>devices_on_bus_count := of_nat n, devices_on_bus := ds\<rparr>"
    using first assms(3,5) l1 ds(1)
    by (auto simp: iteration state_simps commission_state_def Let_def un main_wait_def)
  have un_ok: "devices_on_bus_count (found g1) = of_nat n" "uncommissioned_count (found g1) = 0"
    "length (devices_on_bus (found g1)) = 64" "length (uncommissioned_addresses (found g1)) = 64"
    using assms(9,10) ds(2) by (simp_all add: g1(4))
  have check: "if 32 < n then check_drivers_commissioned (pf_bus P) (pf_fuel P) (found g1) l1 = Inl Out_of_bounds
    else \<exists>iv' l'. check_drivers_commissioned (pf_bus P) (pf_fuel P) (found g1) l1 = Inr (DALI_OK, iv', l')
      \<and> devices_on_bus_count iv' = of_nat (2 * n)"
    by (rule recount [OF assms(2) l1(2) assms(7,13,6) again [unfolded g1(3)] short [unfolded g1(3)] un_ok])
  show ?thesis
  proof (cases "32 < n")
    case True
    then show ?thesis
      using check g1(1-3) un_ok(1) assms(3) by (simp add: iteration_fails state_simps analyze_state_def)
  next
    case False
    then obtain iv l2 where "check_drivers_commissioned (pf_bus P) (pf_fuel P) (found g1) l1 = Inr (DALI_OK, iv, l2)"
      "devices_on_bus_count iv = of_nat (2 * n)"
      using check by auto
    then show ?thesis
      using False g1(1-3) un_ok(1) assms(3)
      by (simp add: iteration state_simps analyze_state_def process_DALI_response_def get_state_def)
  qed
qed

text \<open>A line of gears without short addresses.\<close>

definition new_gears :: "nat \<Rightarrow> gear list" where
  "new_gears k = map (\<lambda>i. \<lparr>rand = of_nat (i + 1), gshort = None, active = False\<rparr>) [0..<k]"

lemma new_gears_rands:
  assumes "k \<le> 64"
  shows "\<forall>g\<in>set (new_gears k). rand g < 0xFFFFFF" and "card (set (map rand (new_gears k))) = k"
proof -
  have u: "unat (of_nat (i + 1) :: u32) = i + 1" if "i < k" for i
    using that assms by (simp only: unat_of_nat) simp
  then show "\<forall>g\<in>set (new_gears k). rand g < 0xFFFFFF"
    using assms by (auto simp: new_gears_def word_less_nat_alt simp del: of_nat_add)
  have "inj_on (\<lambda>i. of_nat (i + 1) :: u32) {0..<k}"
    by (rule inj_onI) (metis u atLeastLessThan_iff add_right_cancel)
  then show "card (set (map rand (new_gears k))) = k"
    using card_image by (fastforce simp: new_gears_def o_def simp del: of_nat_add)
qed

lemma commissioned_gears_are_counted_twice_witness:
  "\<exists>g1. gateway_step (platform_on (line_bus None) accepting) (Main smooth)
      (gateway_in DALI_COMMISION_BUS_STATE (line_of (new_gears 33))) = Inr g1
    \<and> gateway_step (platform_on (line_bus None) accepting) (Main smooth) g1 = Inl Out_of_bounds"
proof -
  let ?P = "platform_on (line_bus None) accepting" and ?l = "line_of (new_gears 33)"
  let ?g = "gateway_in DALI_COMMISION_BUS_STATE ?l"
  have "(33::nat) \<le> 64" by simp
  note rs = new_gears_rands [OF this]
  have P: "pf_bus ?P = line_bus None" "pf_fuel ?P = 100"
    by (simp_all add: platform_on_def)
  have parts: "parts (line_view (gears (started (line_bus None) ?l))) = set (map rand (new_gears 33))"
    using parts_started(1) [of ?l None] rs(1) by simp
  obtain l1 where l1: "commission_bus (line_bus None) 100 ?l = Inr (of_nat 33, l1)" "idle_link l1"
    "short (line_view (gears l1)) = (short (line_view (gears (started (line_bus None) ?l))))
      (sorted_list_of_set (set (map rand (new_gears 33))) [\<mapsto>] numbers_from 0 33)"
    using commission_bus_correct [OF dali_bus_line idle_line_of, of None "new_gears 33" 100] rs(2)
    by (auto simp: parts simp del: set_map)
  have gears1: "map rand (line_gears (gears l1)) = map rand (new_gears 33)"
    by (rule rands.commission_keeps [OF l1(1)]) simp
  have "\<forall>x\<in>set (map rand (line_gears (gears l1))). x < 0xFFFFFF"
    unfolding gears1 using rs(1) by simp
  then have "\<forall>g\<in>set (line_gears (gears l1)). rand g < 0xFFFFFF"
    by simp
  from parts_started [OF l1(2) this, of None]
  have again: "parts (line_view (gears (started (line_bus None) l1))) = set (map rand (new_gears 33))"
    "short (line_view (gears (started (line_bus None) l1))) = short (line_view (gears l1))"
    by (simp_all add: gears1)
  obtain ds where "number_devices [0..<33] (devices_on_bus empty_inventory) = Inr ds"
    using number_devices_fits [of "[0..<33]" "devices_on_bus empty_inventory"] by (auto simp: empty_inventory_def)
  then obtain g1 where g1: "gateway_step ?P (Main smooth) ?g = Inr g1" "link.truncate (dali g1) = l1"
    using l1(1,2) by (simp add: iteration state_simps commission_state_def P Let_def main_wait_def)
  have "short (line_view (gears l1)) a \<noteq> None" if "a \<in> set (map rand (new_gears 33))" for a
    using that rs(2) by (simp add: l1(3) numbers_from_def dom_map_upds flip: domIff del: not_None_eq)
  then have "if (32::nat) < 33 then gateway_step ?P (Main smooth) g1 = Inl Out_of_bounds else True"
    using commissioned_gears_are_counted_twice [where P = ?P and g = ?g and view = line_view and ns = None and I = smooth
        and ?g1.0 = g1 and I' = smooth] g1 rs(2) parts again
    by (simp add: P dali_bus_line empty_inventory_def del: set_map)
  with g1(1) show ?thesis by auto
qed

end
