(* ===== verification/Http_Invariant.thy ===== *)
theory Http_Invariant
  imports Http_Handler
begin

text \<open>
  components/Http_handler, continued: what a request can change. A property of the
  handler's globals that survives the single updates the code makes (of the flash, of the
  fields it owns, of the state variable to \<open>NOT_AUTHENTICATED_STATE\<close>, and of the list of ids
  within its size) survives every request, whatever the backend answers.
\<close>

locale http_invariant =
  fixes Q :: "'n http \<Rightarrow> bool"
  assumes nvs_kept: "Q s \<Longrightarrow> Q (s\<lparr>nvs := n\<rparr>)"
    and request_kept: "Q s \<Longrightarrow> Q (s\<lparr>HTTP_REQUEST := r\<rparr>)"
    and token_kept: "Q s \<Longrightarrow> Q (s\<lparr>new_access_token := a\<rparr>)"
    and address_kept: "Q s \<Longrightarrow> Q (s\<lparr>current_device_short_address := d\<rparr>)"
    and clients_kept: "Q s \<Longrightarrow> Q (s\<lparr>clients := c\<rparr>)"
    and logout_kept: "Q s \<Longrightarrow> Q (s\<lparr>mgr := snd (set_state NOT_AUTHENTICATED_STATE (mgr s))\<rparr>)"
    and elements_kept: "Q s \<Longrightarrow> length zs = length (global_elements s) \<Longrightarrow> k \<le> length (global_elements s)
      \<Longrightarrow> Q (s\<lparr>global_num_elements := k, global_elements := zs\<rparr>)"
begin

lemma forget_tokens_kept: "Q s \<Longrightarrow> Q (forget_tokens ops s)"
  unfolding forget_tokens_def Let_def by (intro logout_kept nvs_kept)

lemma take_access_token_kept:
  assumes "take_access_token ops data s = Inr s'" and "Q s"
  shows "Q s'"
proof -
  obtain a n where "s' = s \<or> s' = s\<lparr>new_access_token := a\<rparr>\<lparr>nvs := n\<rparr>"
    using assms(1) by (auto simp: take_access_token_def split: option.splits if_splits)
  then show ?thesis
    using assms(2) by (auto intro: nvs_kept token_kept simp del: http.update_convs)
qed

lemma take_refresh_token_kept:
  assumes "Q s"
  shows "Q (take_refresh_token ops data s)"
proof -
  have "Q (forget_tokens ops (s\<lparr>nvs := n\<rparr>))" "Q (s\<lparr>nvs := n\<rparr>)" "Q (forget_tokens ops s)" for n
    by (intro forget_tokens_kept nvs_kept assms)+
  then show ?thesis
    by (simp add: take_refresh_token_def Let_def split: option.split prod.split)
qed

lemma store_elements_length: "store_elements xs ys = Inr zs \<Longrightarrow> length zs = length ys \<and> length xs \<le> length ys"
  by (auto simp: store_elements_def split: if_splits)

lemma http_event_handler_kept:
  assumes "http_event_handler ops e s = Inr s'" and "Q s"
  shows "Q s'"
proof (cases e)
  case (On_data n mem ok)
  note run = assms(1) [unfolded On_data http_event_handler_def http_event.case]
  show ?thesis
  proof (cases "HTTP_REQUEST s")
    case HTTP_REFRESH_TOKEN_REQUEST
    with run obtain t where "take_access_token ops (cstr mem) s = Inr t"
      "s' = take_refresh_token ops (cstr mem) t\<lparr>HTTP_REQUEST := HTTP_NON_REQUEST\<rparr>"
      by (auto simp: Let_def split: if_split_asm sum.split_asm)
    then show ?thesis
      using take_access_token_kept [OF _ assms(2)] by (simp only: request_kept take_refresh_token_kept)
  next
    case HTTP_GET_CONTROL_GEARS_REQUEST
    with run consider (null) "s' = s\<lparr>global_num_elements := 0\<rparr>"
      | (list) xs zs where "store_elements xs (global_elements s) = Inr zs"
        "s' = s\<lparr>global_num_elements := length xs, global_elements := zs\<rparr>"
      by (auto split: if_split_asm sum.split_asm option.split_asm)
    then show ?thesis
    proof cases
      case null
      then show ?thesis
        using elements_kept [OF assms(2), of "global_elements s" 0] by simp
    next
      case (list xs zs)
      then show ?thesis
        using store_elements_length [OF list(1)] elements_kept [OF assms(2), of zs "length xs"] by simp
    qed
  qed (use run assms(2) in \<open>auto split: if_split_asm\<close>)
qed (use assms in \<open>simp add: http_event_handler_def\<close>)

lemma deliver_kept: "deliver ops es s = Inr s' \<Longrightarrow> Q s \<Longrightarrow> Q s'"
  by (rule delivery.run_kept [where P = Q]) (auto intro: http_event_handler_kept)

lemma perform_kept: "esp_http_client_perform ops server req s = Inr (e, s') \<Longrightarrow> Q s \<Longrightarrow> Q s'"
  by (cases "deliver ops (snd (server req)) s") (auto simp: esp_http_client_perform_def split: prod.splits dest: deliver_kept)

lemma client_kept: "Q s \<Longrightarrow> Q (client_init s)" "Q s \<Longrightarrow> Q (client_cleanup s)"
  by (simp_all add: client_init_def client_cleanup_def clients_kept)

lemma prepared_kept:
  "Q s \<Longrightarrow> Q (client_init (s\<lparr>nvs := n\<rparr>))" "Q s \<Longrightarrow> Q (client_init (s\<lparr>nvs := n\<rparr>)\<lparr>HTTP_REQUEST := r\<rparr>)"
  by (intro client_kept request_kept nvs_kept; assumption)+

text \<open>The requests.\<close>

lemma refresh_access_kept: "refresh_access ops b server s = Inr s' \<Longrightarrow> Q s \<Longrightarrow> Q s'"
  by (auto simp: refresh_access_def Let_def split: prod.splits sum.splits
      dest!: perform_kept intro: prepared_kept client_kept)

lemma get_gears_kept: "getControleGearsRemote ops b server pop s = Inr (r, s') \<Longrightarrow> Q s \<Longrightarrow> Q s'"
  by (auto simp: getControleGearsRemote_def Let_def split: prod.splits sum.splits
      dest!: perform_kept intro: prepared_kept client_kept)

lemma add_gear_kept: "add_controle_gear_to_db ops b server pop i s = Inr s' \<Longrightarrow> Q s \<Longrightarrow> Q s'"
  by (auto simp: add_controle_gear_to_db_def Let_def split: prod.splits sum.splits
      dest!: perform_kept intro: prepared_kept)

lemma post_json_kept: "post_json_data ops server ks vs s = Inr (r, s') \<Longrightarrow> Q s \<Longrightarrow> Q s'"
  by (auto simp: post_json_data_def Let_def split: prod.splits sum.splits if_splits
      dest!: perform_kept intro: client_kept)

lemma post_gear_kept: "post_controle_gear_data ops b server m al gear s = Inr (r, s') \<Longrightarrow> Q s \<Longrightarrow> Q s'"
  by (auto simp: post_controle_gear_data_def Let_def split: sum.splits if_splits option.splits
      dest!: refresh_access_kept post_json_kept intro: address_kept)

end

end
