(* ===== verification/App_Invariant.thy ===== *)
theory App_Invariant
  imports App_Properties Http_Invariant
begin

text \<open>
  The types of the gateway's globals: the state variable and the state remembered hold
  numbers of states, and the arrays keep their sizes, whatever the tasks, the network, the
  app, the gears and the backend do. Every part is shown to keep its share; the last
  section puts them together.
\<close>

section \<open>The state variable and the arrays\<close>

definition good_manager :: "manager \<Rightarrow> bool" where
  "good_manager m \<longleftrightarrow> state_of (state_machine m) \<noteq> None \<and> state_of (last_state m) \<noteq> None"

definition http_ok :: "('n, 'z) http_scheme \<Rightarrow> bool" where
  "http_ok s \<longleftrightarrow> good_manager (mgr s) \<and> length (global_elements s) = 64 \<and> global_num_elements s \<le> 64"

definition inventory_ok :: "inventory \<Rightarrow> bool" where
  "inventory_ok iv \<longleftrightarrow> length (devices_on_bus iv) = 64 \<and> length (uncommissioned_addresses iv) = 64
     \<and> devices_on_bus_count iv \<le> 64 \<and> uncommissioned_count iv \<le> 64"

definition gateway_ok :: "('n, 'z) tcp_scheme \<Rightarrow> bool" where
  "gateway_ok g \<longleftrightarrow> http_ok g \<and> inventory_ok (found g) \<and> length (popID g) \<le> 9 \<and> length (response g) < RESPONSE_SIZE"

lemma good_set_state [simp]: "good_manager m \<Longrightarrow> good_manager (snd (set_state st m))"
  by (simp add: good_manager_def)

lemma good_stop [simp]: "good_manager m \<Longrightarrow> good_manager (snd (set_state_code (get_last_state m) m))"
  by (simp add: good_manager_def get_last_state_def)

section \<open>Requests\<close>

text \<open>What the requests leave unchanged of the gateway.\<close>

definition same_rest :: "('n, 'w) gateway \<Rightarrow> ('n, 'w) gateway \<Rightarrow> bool" where
  "same_rest g g' \<longleftrightarrow> found g' = found g \<and> popID g' = popID g \<and> response g' = response g \<and> gateway.button g' = gateway.button g
     \<and> rx_buffer g' = rx_buffer g \<and> tcp_task_started g' = tcp_task_started g
     \<and> oneHourPassed g' = oneHourPassed g \<and> hour_timer_running g' = hour_timer_running g
     \<and> hour_timer_reload g' = hour_timer_reload g"

lemma truncate_put_http: "http.truncate (put_http h g) = h"
  by (simp add: put_http_def http.truncate_def)

lemma same_rest_put_http: "same_rest g (put_http h g)"
  by (simp add: same_rest_def put_http_def)

context http_invariant
begin

lemma on_http_kept:
  assumes "on_http f g = Inr (r, g')" and "Q (http.truncate g)"
    and "\<And>h h'. f h = Inr (r, h') \<Longrightarrow> Q h \<Longrightarrow> Q h'"
  shows "Q (http.truncate g') \<and> same_rest g g'"
  using assms by (auto simp: on_http_def truncate_put_http same_rest_put_http split: sum.splits prod.splits)

lemma on_http_unit_kept:
  assumes "on_http (\<lambda>h. map_sum (\<lambda>f. f) (Pair ()) (f h)) g = Inr (u, g')" and "Q (http.truncate g)"
    and "\<And>h h'. f h = Inr h' \<Longrightarrow> Q h \<Longrightarrow> Q h'"
  shows "Q (http.truncate g') \<and> same_rest g g'"
proof (rule on_http_kept [OF assms(1,2)])
  show "Q h'" if "map_sum (\<lambda>f. f) (Pair ()) (f h) = Inr (u, h')" "Q h" for h h'
    using that assms(3) [of h h'] by (cases "f h") auto
qed

lemma new_gears_loop_kept:
  "new_gears_loop P I ids is g = Inr g' \<Longrightarrow> Q (http.truncate g) \<Longrightarrow> Q (http.truncate g') \<and> same_rest g g'"
proof (induction "is" arbitrary: g)
  case Nil
  then show ?case by (simp add: same_rest_def)
next
  case (Cons i "is")
  obtain d where d: "nth_device i (devices_on_bus (found g)) = Inr d"
    using Cons.prems(1) by (auto split: sum.splits)
  show ?case
  proof (cases "manufactoring_id d \<in> set ids")
    case True
    with Cons d show ?thesis by simp
  next
    case False
    then obtain u g1 where g1: "on_http (\<lambda>h. map_sum (\<lambda>f. f) (Pair ()) (add_controle_gear_to_db (pf_ops P) (in_str_ok I)
        (pf_server P) (popID g) (manufactoring_id d) h)) g = Inr (u, g1)" "new_gears_loop P I ids is g1 = Inr g'"
      using Cons.prems(1) d by (auto split: sum.splits prod.splits)
    have "Q (http.truncate g1) \<and> same_rest g g1"
      by (rule on_http_unit_kept [OF g1(1) Cons.prems(2)]) (rule add_gear_kept)
    with Cons.IH [OF g1(2)] show ?thesis by (simp add: same_rest_def)
  qed
qed

lemma post_gears_loop_kept:
  "post_gears_loop P I is g = Inr g' \<Longrightarrow> Q (http.truncate g) \<Longrightarrow> Q (http.truncate g') \<and> same_rest g g'"
proof (induction "is" arbitrary: g)
  case Nil
  then show ?case by (simp add: same_rest_def)
next
  case (Cons i "is")
  obtain d where d: "nth_device i (devices_on_bus (found g)) = Inr d"
    using Cons.prems(1) by (auto split: sum.splits)
  obtain gear lg l where f: "fetch_controle_gear_data (pf_bus P) (in_bytes I) (in_gear I) (short_address d)
      (link.truncate (dali g)) = (gear, lg, l)"
    by (cases "fetch_controle_gear_data (pf_bus P) (in_bytes I) (in_gear I) (short_address d) (link.truncate (dali g))")
  let ?g = "g\<lparr>dali := put_link l (dali g)\<rparr>"
  obtain st g1 where g1: "on_http (post_controle_gear_data (pf_ops P) (in_str_ok I) (pf_server P) (in_malloc_ok I)
      (in_alloc I) gear) ?g = Inr (st, g1)" "post_gears_loop P I is g1 = Inr g'"
    using Cons.prems(1) by (auto simp: d f Let_def split: sum.splits)
  have same: "http.truncate ?g = http.truncate g" "same_rest ?g x = same_rest g x" for x
    by (simp_all add: http.truncate_def same_rest_def)
  have "Q (http.truncate g1) \<and> same_rest ?g g1"
    by (rule on_http_kept [OF g1(1)]) (use Cons.prems(2) same(1) in \<open>auto intro: post_gear_kept\<close>)
  with Cons.IH [OF g1(2)] show ?case by (simp add: same_rest_def)
qed

end

lemma on_http_rest: "on_http f g = Inr (r, h) \<Longrightarrow> same_rest g h"
  by (auto simp: on_http_def same_rest_put_http split: sum.splits)

text \<open>What no request changes, whatever else holds.\<close>

interpretation http_any: http_invariant "\<lambda>_. True"
  by unfold_locales simp_all

text \<open>The types of the handler's globals.\<close>

interpretation http_types: http_invariant http_ok
  by unfold_locales (auto simp: http_ok_def)

lemma gateway_ok_http:
  assumes "gateway_ok g" and "http_ok (http.truncate g') \<and> same_rest g g'"
  shows "gateway_ok g'"
  using assms by (simp add: gateway_ok_def same_rest_def http_ok_def http.truncate_def)

lemma http_ok_truncate: "gateway_ok g \<Longrightarrow> http_ok (http.truncate g)"
  by (simp add: gateway_ok_def http_ok_def http.truncate_def)

section \<open>The inventory\<close>

lemma array_update_keeps_length: "array_update i f xs = Inr ys \<Longrightarrow> i < length xs \<and> length ys = length xs"
  by (auto simp: array_update_def split: if_splits)

lemma count_below: "unat (c :: u8) < 64 \<Longrightarrow> c + 1 \<le> 64"
  by (simp add: word_le_nat_alt unat_count_Suc)

lemma record_answer_ok: "record_answer r a iv = Inr iv' \<Longrightarrow> inventory_ok iv \<Longrightarrow> inventory_ok iv'"
  by (auto simp: record_answer_def inventory_ok_def split: option.splits sum.splits
      dest!: array_update_keeps_length intro: count_below)

lemma check_loop_ok: "check_loop bus fuel iv a s = Inr (iv', s') \<Longrightarrow> inventory_ok iv \<Longrightarrow> inventory_ok iv'"
proof (induction fuel arbitrary: iv a s)
  case (Suc fuel)
  then show ?case
    by (auto simp: Let_def split: prod.splits if_split_asm sum.splits dest: record_answer_ok)
qed simp

lemma check_ok: "check_drivers_commissioned bus fuel iv s = Inr (st, iv', s') \<Longrightarrow> inventory_ok iv \<Longrightarrow> inventory_ok iv'"
  by (auto simp: check_drivers_commissioned_def Let_def split: sum.splits prod.splits dest: check_loop_ok)

lemma number_devices_length: "number_devices is ds = Inr ds' \<Longrightarrow> length ds' = length ds"
  by (induction "is" arbitrary: ds) (auto split: sum.splits dest!: array_update_keeps_length)

lemma number_devices_index: "number_devices is ds = Inr ds' \<Longrightarrow> \<forall>i\<in>set is. i < length ds"
proof (induction "is" arbitrary: ds)
  case (Cons i "is")
  then obtain es where "array_update i (\<lambda>d. d\<lparr>short_address := of_nat i\<rparr>) ds = Inr es" "number_devices is es = Inr ds'"
    by (auto split: sum.splits)
  with Cons.IH show ?case
    using array_update_keeps_length by (metis set_ConsD)
qed simp

lemma numbered_count: "number_devices [0..<unat c] ds = Inr ds' \<Longrightarrow> length ds = 64 \<Longrightarrow> (c :: u8) \<le> 64"
  using number_devices_index [of "[0..<unat c]" ds ds'] by (force simp: word_le_nat_alt not_le [symmetric])

lemma sync_store_length:
  "sync_store_loop ops bus bytes h is ds s l = Inr (ok, ds', s', l') \<Longrightarrow> length ds' = length ds"
  by (induction "is" arbitrary: ds s l) (auto split: sum.splits prod.splits if_split_asm)

lemma sync_check_length:
  "sync_check_loop ops bus bytes jv h n is ds s l = Inr (ds', s', l') \<Longrightarrow> length ds' = length ds"
  by (induction "is" arbitrary: ds s l) (auto split: sum.splits prod.splits if_split_asm dest!: array_update_keeps_length)

lemma synchronize_length:
  "nvs_synchronize ops bus bytes jv n ds s l = Inr (ok, ds', s', l') \<Longrightarrow> length ds' = length ds"
  by (auto simp: nvs_synchronize_def split: prod.splits if_split_asm sum.splits
      dest: sync_store_length sync_check_length)

section \<open>The network\<close>

text \<open>
  The network only sets states, and never the first one: what setting a later state keeps
  of the state manager, every event and the start of the network keep.
\<close>

locale manager_invariant =
  fixes M :: "manager \<Rightarrow> bool"
  assumes set_kept: "M m \<Longrightarrow> st \<noteq> NVS_INIT_STATE \<Longrightarrow> M (snd (set_state st m))"
begin

lemma change_state_kept: "M (fst x) \<Longrightarrow> st \<noteq> NVS_INIT_STATE \<Longrightarrow> M (fst (change_state st x))"
  by (simp add: change_state_def set_kept)

lemma event_handler_kept: "M (fst x) \<Longrightarrow> M (fst (event_handler r e x))"
  by (auto simp: event_handler_def change_state_def Let_def set_kept
      split: prod.split esp_event.split prov_event_id.split wifi_event_id.split ip_event_id.split option.split)

lemma await_connection_kept: "await_connection r evs x = Inr (y, later) \<Longrightarrow> M (fst x) \<Longrightarrow> M (fst y)"
proof (induction evs arbitrary: x)
  case (Cons e evs)
  then show ?case
    using Cons.IH [of "event_handler r e x"] event_handler_kept [of x r e] by (auto split: if_split_asm)
qed (auto split: if_split_asm)

lemma wifi_init_sta_kept: "wifi_init_sta stk x = Inr y \<Longrightarrow> M (fst x) \<Longrightarrow> M (fst y)"
  by (auto simp: wifi_init_sta_def ESP_ERROR_CHECK_def Let_def change_state_kept split: if_splits)

lemma print_qr_fst: "fst (wifi_prov_print_qr a b c x) = fst x"
  by (simp add: wifi_prov_print_qr_def Let_def split: option.split)

lemma start_provisioning_kept: "start_provisioning stk r mac pop x = Inr y \<Longrightarrow> M (fst x) \<Longrightarrow> M (fst y)"
  by (auto simp: start_provisioning_def ESP_ERROR_CHECK_def Let_def change_state_kept print_qr_fst split: if_splits)

lemma init_wifi_kept:
  assumes "init_wifi_provisioning stk r re mac ip evs pop x = Inr (y, later)" and "M (fst x)"
  shows "M (fst y)"
proof -
  obtain z where z: "wifi_setup stk ip x = Inr z" "fst z = fst x"
    using assms(1) wifi_setup_result [of stk ip x] by (auto simp: init_wifi_provisioning_def split: if_splits)
  obtain u where u: "(if \<not> ip then start_provisioning stk re mac pop z
      else wifi_init_sta stk (fst z, called wifi_prov_mgr_deinit (snd z))) = Inr u" "await_connection r evs u = Inr (y, later)"
    using assms(1) by (auto simp: init_wifi_provisioning_def z(1) split: sum.splits)
  have "M (fst u)"
    using u(1) assms(2) z(2) by (auto split: if_splits dest!: start_provisioning_kept wifi_init_sta_kept)
  with u(2) show ?thesis by (rule await_connection_kept)
qed

end

interpretation network_types: manager_invariant good_manager
  by unfold_locales simp

lemmas init_wifi_good = network_types.init_wifi_kept
lemmas event_handler_good = network_types.event_handler_kept

section \<open>The server\<close>

lemma gateway_ok_simps [simp]:
  "gateway_ok (s\<lparr>nvs := n\<rparr>) = gateway_ok s" "gateway_ok (s\<lparr>rx_buffer := b\<rparr>) = gateway_ok s"
  "gateway_ok (s\<lparr>selected_driver := d\<rparr>) = gateway_ok s" "gateway_ok (s\<lparr>tcp_event_bit := e\<rparr>) = gateway_ok s"
  "gateway_ok (s\<lparr>error_message_send := e\<rparr>) = gateway_ok s" "gateway_ok (send_socket k m s) = gateway_ok s"
  by (simp_all add: gateway_ok_def http_ok_def send_socket_def)

lemma goto_ok [simp]: "gateway_ok g \<Longrightarrow> gateway_ok (goto st g)"
  by (simp add: gateway_ok_def http_ok_def goto_def)

text \<open>
  What the commands of the app can change: a property of the server's state that survives
  the single updates the code makes survives every message.
\<close>

locale tcp_invariant =
  fixes Q :: "('n, 'z) tcp_scheme \<Rightarrow> bool"
  assumes nvs_kept: "Q s \<Longrightarrow> Q (s\<lparr>nvs := n\<rparr>)"
    and buffer_kept: "Q s \<Longrightarrow> Q (s\<lparr>rx_buffer := b\<rparr>)"
    and driver_kept: "Q s \<Longrightarrow> Q (s\<lparr>selected_driver := d\<rparr>)"
    and event_kept: "Q s \<Longrightarrow> Q (s\<lparr>tcp_event_bit := e\<rparr>)"
    and message_kept: "Q s \<Longrightarrow> Q (s\<lparr>error_message_send := e\<rparr>)"
    and send_kept: "Q s \<Longrightarrow> Q (send_socket k m s)"
    and response_kept: "Q s \<Longrightarrow> length m < RESPONSE_SIZE \<Longrightarrow> Q (s\<lparr>response := m\<rparr>)"
    and goto_kept: "Q s \<Longrightarrow> st \<in> {DALI_COMMISION_BUS_STATE, BLINK_LAMP_STATE} \<Longrightarrow> Q (goto st s)"
    and stop_kept: "Q s \<Longrightarrow> Q (stop_command s)"
begin

lemma sprintf_kept: "sprintf_response m s = Inr s' \<Longrightarrow> Q s \<Longrightarrow> Q s'"
  by (auto simp: sprintf_response_def split: if_splits intro: response_kept)

lemma reply_kept: "reply k m s = Inr s' \<Longrightarrow> Q s \<Longrightarrow> Q s'"
  by (auto simp: reply_def split: sum.splits dest: sprintf_kept intro: send_kept)

lemma get_state_kept: "get_state_command k s = Inr s' \<Longrightarrow> Q s \<Longrightarrow> Q s'"
  by (auto simp: get_state_command_def get_controler_state_def split: sum.splits dest: sprintf_kept intro: send_kept)

lemma ids_kept: "ids_command ops a b c k s = Inr s' \<Longrightarrow> Q s \<Longrightarrow> Q s'"
  by (auto simp: ids_command_def split: prod.splits option.splits dest!: reply_kept intro: nvs_kept)

lemma set_refresh_token_kept: "set_refresh_token_command ops b k s = Inr s' \<Longrightarrow> Q s \<Longrightarrow> Q s'"
  by (auto simp: set_refresh_token_command_def Let_def split: sum.splits prod.splits if_splits
      dest!: reply_kept intro: nvs_kept send_kept)

lemma set_email_kept: "set_email_command ops b k s = Inr s' \<Longrightarrow> Q s \<Longrightarrow> Q s'"
  by (auto simp: set_email_command_def Let_def split: sum.splits prod.splits if_splits intro: nvs_kept send_kept)

lemma get_string_kept: "get_string_command ops a b c k s = Inr s' \<Longrightarrow> Q s \<Longrightarrow> Q s'"
  by (auto simp: get_string_command_def split: sum.splits prod.splits if_splits intro: nvs_kept send_kept)

lemma commands_kept: "Q s \<Longrightarrow> Q (commission_command s)" "Q s \<Longrightarrow> Q (blink_command m s)"
  unfolding commission_command_def blink_command_def blink_lamp_def
  by (intro event_kept driver_kept goto_kept; simp)+

lemma dispatch_kept: "dispatch ops j m b k s = Inr s' \<Longrightarrow> Q s \<Longrightarrow> Q s'"
  unfolding dispatch_def
  by (auto split: if_split_asm dest: get_state_kept ids_kept set_refresh_token_kept set_email_kept get_string_kept
      intro: stop_kept commands_kept message_kept)

lemma message_handler_kept: "message_handler ops j len k s = Inr s' \<Longrightarrow> Q s \<Longrightarrow> Q s'"
  by (auto simp: message_handler_dispatch dest: dispatch_kept buffer_kept)

end

interpretation tcp_types: tcp_invariant gateway_ok
  by unfold_locales (simp_all add: stop_command_def, simp_all add: gateway_ok_def http_ok_def)

lemmas message_handler_ok = tcp_types.message_handler_kept

section \<open>The main loop\<close>

lemma gateway_ok_fields [simp]:
  "gateway_ok (g\<lparr>dali := c\<rparr>) = gateway_ok g" "gateway_ok (g\<lparr>hour_timer_running := b\<rparr>) = gateway_ok g"
  "gateway_ok (g\<lparr>hour_timer_reload := b\<rparr>) = gateway_ok g"
  "gateway_ok (g\<lparr>configured := u\<rparr>) = gateway_ok g" "gateway_ok (g\<lparr>net := w\<rparr>) = gateway_ok g"
  "gateway_ok (g\<lparr>button := bt\<rparr>) = gateway_ok g" "gateway_ok (g\<lparr>button_ready := b\<rparr>) = gateway_ok g"
  "gateway_ok (g\<lparr>button_log := lg\<rparr>) = gateway_ok g" "gateway_ok (g\<lparr>published := ps\<rparr>) = gateway_ok g"
  "gateway_ok (g\<lparr>tcp_task_started := b\<rparr>) = gateway_ok g" "gateway_ok (g\<lparr>oneHourPassed := b\<rparr>) = gateway_ok g"
  "gateway_ok (g\<lparr>error_counter := k\<rparr>) = gateway_ok g" "gateway_ok (g\<lparr>await_user_action := b\<rparr>) = gateway_ok g"
  "gateway_ok (g\<lparr>leds := l\<rparr>) = gateway_ok g" "gateway_ok (main_wait bus g) = gateway_ok g"
  by (simp_all add: gateway_ok_def http_ok_def main_wait_def)

lemma gateway_ok_found [simp]: "gateway_ok g \<Longrightarrow> inventory_ok iv \<Longrightarrow> gateway_ok (g\<lparr>found := iv\<rparr>)"
  by (simp add: gateway_ok_def http_ok_def)

lemma gateway_ok_mgr [simp]: "gateway_ok g \<Longrightarrow> good_manager m \<Longrightarrow> gateway_ok (g\<lparr>mgr := m\<rparr>)"
  by (simp add: gateway_ok_def http_ok_def)

lemma fetch_tokens_ok:
  assumes "fetch_tokens P I g = Inr g'" and "gateway_ok g"
  shows "gateway_ok g'"
proof -
  obtain u h where h: "on_http (\<lambda>h. map_sum (\<lambda>f. f) (Pair ()) (refresh_access (pf_ops P) (in_str_ok I) (pf_server P) h)) g
      = Inr (u, h)" "g' = goto SYNCRONIZE_BACKEND_STATE h"
    using assms(1) by (auto simp: fetch_tokens_def split: sum.splits)
  have "http_ok (http.truncate h) \<and> same_rest g h"
    by (rule http_types.on_http_unit_kept [OF h(1) http_ok_truncate [OF assms(2)]]) (rule http_types.refresh_access_kept)
  with gateway_ok_http [OF assms(2)] show ?thesis by (simp add: h(2))
qed

text \<open>The states of the main loop, one by one.\<close>

lemma process_response_ok: "gateway_ok g \<Longrightarrow> gateway_ok (process_DALI_response st g)"
  by (simp add: process_DALI_response_def)

lemma analyze_state_ok: "analyze_state P I g = Inr g' \<Longrightarrow> gateway_ok g \<Longrightarrow> gateway_ok g'"
  using check_ok
  by (fastforce simp: analyze_state_def gateway_ok_def http_ok_def process_DALI_response_def goto_def split: sum.splits prod.splits)

lemma commission_state_ok: "commission_state P I g = Inr g' \<Longrightarrow> gateway_ok g \<Longrightarrow> gateway_ok g'"
  by (auto simp: commission_state_def Let_def gateway_ok_def http_ok_def goto_def inventory_ok_def
      split: sum.splits prod.splits dest: numbered_count number_devices_length)

lemma synchronize_nvs_state_ok: "synchronize_nvs_state P I g = Inr g' \<Longrightarrow> gateway_ok g \<Longrightarrow> gateway_ok g'"
  by (auto simp: synchronize_nvs_state_def gateway_ok_def http_ok_def goto_def inventory_ok_def
      split: sum.splits prod.splits dest!: synchronize_length)

lemma synchronize_backend_state_ok:
  assumes "synchronize_backend_state P I g = Inr g'" and "gateway_ok g"
  shows "gateway_ok g'"
proof -
  obtain res num h k where run: "on_http (getControleGearsRemote (pf_ops P) (in_str_ok I) (pf_server P) (popID g)) g = Inr ((res, num), h)"
    "new_gears_loop P I (take num res) [0..<unat (devices_on_bus_count (found h))] h = Inr k" "g' = goto SYSTEM_RUNNING_STATE k"
    using assms(1) by (auto simp: synchronize_backend_state_def split: sum.splits prod.splits)
  have h: "http_ok (http.truncate h) \<and> same_rest g h"
    by (rule http_types.on_http_kept [OF run(1) http_ok_truncate [OF assms(2)]]) (rule http_types.get_gears_kept)
  have "gateway_ok k"
    using gateway_ok_http [OF gateway_ok_http [OF assms(2) h]] http_types.new_gears_loop_kept [OF run(2)] h by blast
  then show ?thesis by (simp add: run(3))
qed

lemma post_gears_loop_ok: "post_gears_loop P I is g = Inr g' \<Longrightarrow> gateway_ok g \<Longrightarrow> gateway_ok g'"
  by (blast intro: gateway_ok_http dest: http_types.post_gears_loop_kept http_ok_truncate)

lemma authentication_ok:
  "authentication_state P I g = Inr g' \<Longrightarrow> gateway_ok g \<Longrightarrow> gateway_ok g'"
  "not_authenticated_state P I g = Inr g' \<Longrightarrow> gateway_ok g \<Longrightarrow> gateway_ok g'"
  by (auto simp: authentication_state_def not_authenticated_state_def Let_def split: prod.splits if_splits
      dest: fetch_tokens_ok)

lemma system_running_ok: "system_running_state P I g = Inr g' \<Longrightarrow> gateway_ok g \<Longrightarrow> gateway_ok g'"
  by (auto simp: system_running_state_def split: if_splits sum.splits)
    (cases "post_gears_loop P I [0..<unat (devices_on_bus_count (found g))] g"; auto dest: post_gears_loop_ok)

lemma await_wifi_ok: "await_wifi_state P I g = Inr g' \<Longrightarrow> gateway_ok g \<Longrightarrow> gateway_ok g'"
  by (auto simp: await_wifi_state_def split: sum.splits prod.splits dest!: init_wifi_good)
    (auto simp: gateway_ok_def http_ok_def)

lemma error_states_ok:
  "bus_corrupted_state P I g = Inr g' \<Longrightarrow> gateway_ok g \<Longrightarrow> gateway_ok g'"
  "bus_not_commissioned_state P I g = Inr g' \<Longrightarrow> gateway_ok g \<Longrightarrow> gateway_ok g'"
  "no_response_state P I g = Inr g' \<Longrightarrow> gateway_ok g \<Longrightarrow> gateway_ok g'"
  by (auto simp: bus_corrupted_state_def bus_not_commissioned_state_def no_response_state_def Let_def inventory_ok_def
      gateway_ok_def http_ok_def goto_def split: if_splits)

lemma init_pop_ok: "gateway_ok g \<Longrightarrow> gateway_ok (goto st (g\<lparr>popID := ''abcd1234''\<rparr>))"
  by (simp add: gateway_ok_def http_ok_def goto_def)

lemma init_states_ok:
  "nvs_init_state P I g = Inr g' \<Longrightarrow> gateway_ok g \<Longrightarrow> gateway_ok g'"
  "init_pop_state P I g = Inr g' \<Longrightarrow> gateway_ok g \<Longrightarrow> gateway_ok g'"
  "dali_init_state P I g = Inr g' \<Longrightarrow> gateway_ok g \<Longrightarrow> gateway_ok g'"
  "tcp_init_state P I g = Inr g' \<Longrightarrow> gateway_ok g \<Longrightarrow> gateway_ok g'"
  "mdns_init_state P I g = Inr g' \<Longrightarrow> gateway_ok g \<Longrightarrow> gateway_ok g'"
  "blink_state P I g = Inr g' \<Longrightarrow> gateway_ok g \<Longrightarrow> gateway_ok g'"
  by (auto simp: nvs_init_state_def init_pop_state_def dali_init_state_def tcp_init_state_def mdns_init_state_def
      blink_state_def Let_def intro: init_pop_ok split: if_splits sum.splits prod.splits)

lemma switch_ok: "app_main_switch P I g = Inr g' \<Longrightarrow> gateway_ok g \<Longrightarrow> gateway_ok g'"
  unfolding app_main_switch_def
  by (auto split: option.splits State_t.splits
      dest: init_states_ok error_states_ok await_wifi_ok system_running_ok authentication_ok synchronize_backend_state_ok
        synchronize_nvs_state_ok commission_state_ok analyze_state_ok)

lemma step_ok:
  assumes "gateway_step P ev g = Inr g'" and "gateway_ok g"
  shows "gateway_ok g'"
proof (cases "restarted (gateway.button g)")
  case False
  note run = assms(1) [unfolded gateway_step_def if_not_P [OF False]]
  show ?thesis
  proof (cases ev)
    case (Main I)
    then obtain h where "app_main_switch P I g = Inr h" "g' = main_wait (pf_bus P) h"
      using run by (cases "app_main_switch P I g") (simp_all add: app_main_iteration_def)
    then show ?thesis
      using switch_ok [OF _ assms(2)] by simp
  next
    case (Network e)
    have "good_manager (fst (event_handler (pf_max_retry P) e (mgr g, net g)))"
      using assms(2) by (intro event_handler_good) (simp add: gateway_ok_def http_ok_def)
    then show ?thesis
      using run assms(2) unfolding Network by (auto split: prod.splits if_splits)
  next
    case (App j sock cs)
    then show ?thesis
      using run assms(2) by (auto split: if_splits dest: message_handler_ok)
  qed (use run assms(2) in \<open>auto simp: button_event_step_def oneHourTimerCallback_def split: if_splits sum.splits\<close>)
qed (use assms in \<open>simp add: gateway_step_def\<close>)

section \<open>Property\<close>

lemma code_of_nth: "\<forall>st. all_states ! nat (code_of st) = st \<and> 0 \<le> code_of st \<and> nat (code_of st) < length all_states"
  by code_simp

lemma state_of_Some: "state_of n \<noteq> None \<longleftrightarrow> (\<exists>st. n = code_of st)"
proof
  assume "state_of n \<noteq> None"
  then have n: "0 \<le> n" "nat n < length all_states"
    by (auto simp: state_of_def split: if_splits)
  have "distinct all_states"
    by (simp add: all_states_def)
  then have "nat (code_of (all_states ! nat n)) = nat n"
    using code_of_nth n(2) by (metis nth_eq_iff_index_eq)
  then show "\<exists>st. n = code_of st"
    using code_of_nth n(1) by (metis eq_nat_nat_iff)
qed auto

lemma reachable_ok: "reachable P g \<Longrightarrow> gateway_ok g"
proof (induction rule: reachable.induct)
  case (reachable_start g)
  let ?g = "app_main_start g"
  have same: "found ?g = found g" "global_elements ?g = global_elements g" "global_num_elements ?g = global_num_elements g"
    "popID ?g = popID g" "response ?g = response g" "mgr ?g = mgr g\<lparr>state_manager_inited := True\<rparr>"
    by (simp_all add: app_main_start_def init_state_manager_def Let_def)
  note on = reachable_start [unfolded powered_on_def]
  from on have "inventory_ok (found g)"
    by (simp only: inventory_ok_def inventory.simps length_replicate) simp
  moreover from on have "length (global_elements g) = 64" "global_num_elements g \<le> 64" "popID g = []" "response g = []"
    by (simp_all only: length_replicate)
  moreover from on have "mgr g = initial_manager"
    by (simp only:)
  moreover have "good_manager (initial_manager\<lparr>state_manager_inited := True\<rparr>)"
    by (simp add: good_manager_def initial_manager_def) (simp add: state_of_def all_states_def)
  ultimately show ?case
    by (simp add: gateway_ok_def http_ok_def same RESPONSE_SIZE_def)
next
  case (reachable_step g ev g')
  show ?case by (rule step_ok [OF reachable_step.hyps(2) reachable_step.IH])
qed

text \<open>
  In every state the gateway can get into after power-up, in whatever order its tasks,
  the network, the app and the button act and whatever they receive: the state variable
  and the remembered state hold numbers of states (also after \<open>STOP_BLINK\<close>, which stores a
  number); the three arrays of 64 entries keep their sizes and their counts point inside
  them; and the name and the reply fit their buffers of 10 and 128 characters.
\<close>

theorem globals_keep_their_types:
  assumes "reachable P g"
  shows "(\<exists>st. get_state (mgr g) = code_of st) \<and> (\<exists>st. get_last_state (mgr g) = code_of st)
    \<and> length (devices_on_bus (found g)) = 64 \<and> devices_on_bus_count (found g) \<le> 64
    \<and> length (uncommissioned_addresses (found g)) = 64 \<and> uncommissioned_count (found g) \<le> 64
    \<and> length (global_elements g) = 64 \<and> global_num_elements g \<le> 64
    \<and> length (popID g) < 10 \<and> length (response g) < 128"
  using reachable_ok [OF assms]
  unfolding gateway_ok_def http_ok_def good_manager_def inventory_ok_def state_of_Some get_state_def get_last_state_def
  by (simp add: RESPONSE_SIZE_def)

text \<open>Power-up, with nothing on the line.\<close>

definition power_up :: "(ram, line) gateway" where
  "power_up = gateway_in NVS_INIT_STATE (line_of [])\<lparr>mgr := initial_manager, popID := []\<rparr>"

lemma powered_on_power_up: "powered_on power_up"
  by (simp add: powered_on_def power_up_def after_boot_def)
    (simp add: gateway_in_def tcp.defs fresh_tcp_def http.defs fresh_http_def empty_inventory_def RX_SIZE_def)

lemma init_ram: "init_nvs_handler ram_ops n = Inr n"
  by (simp add: init_nvs_handler_def ram_ops_def call_def ESP_ERR_NVS_NO_FREE_PAGES_def ESP_ERR_NVS_NEW_VERSION_FOUND_def)

lemma globals_keep_their_types_witness:
  "\<exists>g. gateway_run (platform_on (line_bus None) accepting) [Leds, Main smooth, Main smooth] (app_main_start power_up) = Inr g
    \<and> (\<exists>st. get_last_state (mgr g) = code_of st) \<and> devices_on_bus_count (found g) \<le> 64"
proof -
  let ?P = "platform_on (line_bus None) accepting"
  let ?evs = "[Leds, Main smooth, Main smooth]"
  have P: "pf_ops ?P = ram_ops" "in_timer_created smooth"
    by (simp_all add: platform_on_def smooth_def)
  obtain g where run: "gateway_run ?P ?evs (app_main_start power_up) = Inr g"
    by (simp add: gateway_step_def app_main_start_def init_state_manager_def Let_def initial_manager_def
        app_main_iteration_def state_simps power_up_def nvs_init_state_def init_pop_state_def P init_ram)
  have "reachable ?P g"
    by (rule reachable_run [OF run reachable_start [OF powered_on_power_up]])
  from globals_keep_their_types [OF this] run show ?thesis by blast
qed

end
