(* ===== verification/App_Graph.thy ===== *)
theory App_Graph
  imports App_Invariant
begin

text \<open>
  The abstract view of main/main.c: the graph of its states, as the comments and the
  \<open>set_state\<close> calls of the main loop draw it, and the proof that the main loop follows it.
\<close>

section \<open>The graph\<close>

inductive main_edge :: "State_t \<Rightarrow> State_t \<Rightarrow> bool" where
  boot_nvs: "main_edge NVS_INIT_STATE INIT_POP_STATE"
| boot_pop: "main_edge INIT_POP_STATE AWAIT_WIFI_PROVISIONING_STATE"
| boot_wifi: "main_edge AWAIT_WIFI_PROVISIONING_STATE DALI_COMMUNICATION_INIT_STATE"
| boot_dali: "main_edge DALI_COMMUNICATION_INIT_STATE TCP_SERVER_INIT_STATE"
| boot_tcp: "main_edge TCP_SERVER_INIT_STATE MDNS_INIT_STATE"
| boot_mdns: "main_edge MDNS_INIT_STATE ANALYZE_DALI_BUS_STATE"
| bus_ok: "main_edge ANALYZE_DALI_BUS_STATE DALI_COMMUNICATION_OK_STATE"
| bus_uncommissioned: "main_edge ANALYZE_DALI_BUS_STATE DALI_BUS_NOT_COMMISIONED_STATE"
| bus_silent: "main_edge ANALYZE_DALI_BUS_STATE NO_RESPONSE_ON_DALI_BUS"
| bus_corrupted: "main_edge ANALYZE_DALI_BUS_STATE DALI_BUS_CORRUPTED_STATE"
| retry_silent: "main_edge NO_RESPONSE_ON_DALI_BUS ANALYZE_DALI_BUS_STATE"
| retry_corrupted: "main_edge DALI_BUS_CORRUPTED_STATE ANALYZE_DALI_BUS_STATE"
| commissioned: "main_edge DALI_COMMISION_BUS_STATE ANALYZE_DALI_BUS_STATE"
| to_nvs: "main_edge DALI_COMMUNICATION_OK_STATE SYNCRONIZE_NVS_STATE"
| to_authentication: "main_edge SYNCRONIZE_NVS_STATE AUTHENTICATION_STATE"
| logged_in: "main_edge AUTHENTICATION_STATE SYNCRONIZE_BACKEND_STATE"
| logged_out: "main_edge AUTHENTICATION_STATE NOT_AUTHENTICATED_STATE"
| log_in_later: "main_edge NOT_AUTHENTICATED_STATE SYNCRONIZE_BACKEND_STATE"
| synchronized: "main_edge SYNCRONIZE_BACKEND_STATE SYSTEM_RUNNING_STATE"
| session_lost: "main_edge SYSTEM_RUNNING_STATE NOT_AUTHENTICATED_STATE"

inductive_cases main_edgeE: "main_edge st st'"
inductive_simps main_edge_from:
  "main_edge ANALYZE_DALI_BUS_STATE st" "main_edge AUTHENTICATION_STATE st" "main_edge NO_WIFI_STATE st"

text \<open>The states in which an iteration can leave the state as it is.\<close>

definition may_stay :: "State_t \<Rightarrow> bool" where
  "may_stay st \<longleftrightarrow> st \<in> {SYSTEM_RUNNING_STATE, NO_WIFI_STATE, DALI_BUS_CORRUPTED_STATE, DALI_BUS_NOT_COMMISIONED_STATE,
     NO_RESPONSE_ON_DALI_BUS, NOT_AUTHENTICATED_STATE, BLINK_LAMP_STATE, WIFI_PROVISIONING_STATE, WIFI_CONNECTED_STATE}"

section \<open>The main loop follows it\<close>

lemma bus_status_cases:
  "bus_status iv \<in> {DALI_OK, DALI_ERR_BUS_NOT_COMMISIONED, DALI_ERR_NO_RESPONSE_ON_BUS, DALI_ERR_BUS_CORRUPTED}"
  by (simp add: bus_status_def)

lemma analyze_edge:
  assumes "analyze_state P I g = Inr g'"
  shows "\<exists>st. in_state st g' \<and> main_edge ANALYZE_DALI_BUS_STATE st"
proof -
  obtain iv l where "check_drivers_commissioned (pf_bus P) (pf_fuel P) (found g) (link.truncate (dali g)) = Inr (bus_status iv, iv, l)"
    and g': "g' = process_DALI_response (bus_status iv) (g\<lparr>found := iv, dali := put_link l (dali g)\<rparr>)"
    using assms by (auto simp: analyze_state_def check_drivers_commissioned_def Let_def split: sum.splits prod.splits)
  then show ?thesis
    using bus_status_cases [of iv] unfolding g'
    by (auto simp: process_DALI_response_def main_edge_from)
qed

text \<open>Requests leave the state, or log out.\<close>

interpretation http_state: http_invariant
  "\<lambda>s. state_machine (mgr s) = c \<or> state_machine (mgr s) = code_of NOT_AUTHENTICATED_STATE" for c
  by unfold_locales auto

lemma mgr_truncate [simp]: "mgr (http.truncate g) = mgr g"
  by (simp add: http.truncate_def)

lemma running_edge:
  assumes "system_running_state P I g = Inr g'" and "in_state SYSTEM_RUNNING_STATE g"
  shows "in_state SYSTEM_RUNNING_STATE g' \<or> in_state NOT_AUTHENTICATED_STATE g'"
proof (cases "oneHourPassed g")
  case True
  then obtain h where "post_gears_loop P I [0..<unat (devices_on_bus_count (found g))] g = Inr h"
    and "g' = h\<lparr>oneHourPassed := False, tcp_event_bit := False\<rparr>"
    using assms(1)
    by (cases "post_gears_loop P I [0..<unat (devices_on_bus_count (found g))] g") (auto simp: system_running_state_def)
  then show ?thesis
    using http_state.post_gears_loop_kept [where c = "code_of SYSTEM_RUNNING_STATE"] assms(2) by fastforce
qed (use assms in \<open>auto simp: system_running_state_def\<close>)

lemma fetch_tokens_edge: "fetch_tokens P I g = Inr g' \<Longrightarrow> in_state SYNCRONIZE_BACKEND_STATE g'"
  by (auto simp: fetch_tokens_def split: sum.splits)

lemma switch_edge:
  assumes "app_main_switch P I g = Inr g'" and "in_state st g"
  shows "\<exists>st'. in_state st' g' \<and> (main_edge st st' \<or> st' = st \<and> may_stay st)"
proof -
  note run = assms(1) [unfolded app_main_switch_def in_stateD [OF assms(2)] option.case]
  show ?thesis
  proof (cases st)
    case ANALYZE_DALI_BUS_STATE
    then show ?thesis using run analyze_edge by fastforce
  next
    case SYSTEM_RUNNING_STATE
    then show ?thesis
      using run running_edge assms(2) by (fastforce simp: may_stay_def intro: main_edge.intros)
  next
    case AUTHENTICATION_STATE
    then show ?thesis
      using run fetch_tokens_edge by (fastforce simp: authentication_state_def Let_def split: prod.splits if_splits intro: main_edge.intros)
  next
    case NOT_AUTHENTICATED_STATE
    then show ?thesis
      using run fetch_tokens_edge assms(2)
      by (fastforce simp: not_authenticated_state_def Let_def may_stay_def split: prod.splits if_splits intro: main_edge.intros)
  qed (use run assms(2) in \<open>fastforce simp: nvs_init_state_def init_pop_state_def await_wifi_state_def dali_init_state_def
      tcp_init_state_def mdns_init_state_def commission_state_def synchronize_nvs_state_def synchronize_backend_state_def
      bus_corrupted_state_def bus_not_commissioned_state_def no_response_state_def blink_state_def Let_def may_stay_def
      split: sum.splits prod.splits if_splits intro: main_edge.intros\<close>)+
qed

lemma restarted_stays: "restarted (gateway.button g) \<Longrightarrow> gateway_run P evs g = Inr g"
  by (induction evs) (simp_all add: gateway_step_def)

definition graph_step :: "State_t \<Rightarrow> State_t \<Rightarrow> bool" where
  "graph_step st st' \<longleftrightarrow> main_edge st st' \<or> st' = st \<and> may_stay st"

definition is_main :: "gateway_event \<Rightarrow> bool" where
  "is_main ev \<longleftrightarrow> (case ev of Main I \<Rightarrow> True | _ \<Rightarrow> False)"

definition is_outside :: "gateway_event \<Rightarrow> bool" where
  "is_outside ev \<longleftrightarrow> (case ev of Network e \<Rightarrow> True | App j sock cs \<Rightarrow> True | _ \<Rightarrow> False)"

text \<open>One event, none of the network or the app.\<close>

lemma step_follows:
  assumes "gateway_step P ev g = Inr g'" and "in_state st g" and "\<not> is_outside ev" and "\<not> restarted (gateway.button g)"
  shows "\<exists>st'. in_state st' g' \<and> (if is_main ev then graph_step st st' else st' = st)"
proof (cases ev)
  case (Main I)
  then obtain h where "app_main_switch P I g = Inr h" "g' = main_wait (pf_bus P) h"
    using assms(1,4) by (cases "app_main_switch P I g") (simp_all add: gateway_step_def app_main_iteration_def)
  with switch_edge [OF _ assms(2)] show ?thesis
    by (auto simp: Main is_main_def graph_step_def)
qed (use assms in \<open>auto simp: gateway_step_def is_outside_def is_main_def button_event_step_def oneHourTimerCallback_def
    split: if_splits sum.splits\<close>)

section \<open>Property\<close>

text \<open>
  C6: As long as neither the network nor the app interferes, the main loop refines the graph
  of its states: n iterations take the gateway along n edges, and it stays where it is only
  in a state in which it waits for something (never during boot, analysis, commissioning,
  synchronisation or authentication), whatever the gears, the backend and the flash
  answer, and wherever LED task, timer and button come in between.
\<close>

theorem main_loop_follows_the_state_graph:
  assumes "gateway_run P evs g = Inr g'" and "get_state (mgr g) = code_of st"
    and "\<not> restarted (gateway.button g')" and "\<forall>ev\<in>set evs. \<not> is_outside ev"
  shows "\<exists>st'. get_state (mgr g') = code_of st' \<and> (graph_step ^^ length (filter is_main evs)) st st'"
  using assms
proof (induction evs arbitrary: g st)
  case (Cons ev evs)
  then obtain h where h: "gateway_step P ev g = Inr h" "gateway_run P evs h = Inr g'"
    by (auto split: sum.splits)
  have "\<not> restarted (gateway.button g)"
    using Cons.prems(1,3) restarted_stays [of g P "ev # evs"] by fastforce
  then obtain st1 where st1: "in_state st1 h" "if is_main ev then graph_step st st1 else st1 = st"
    using step_follows [OF h(1)] Cons.prems(2,4) by (auto simp: get_state_def)
  with Cons.IH [OF h(2), of st1] Cons.prems(3,4) obtain st' where
    "get_state (mgr g') = code_of st'" "(graph_step ^^ length (filter is_main evs)) st1 st'"
    by (auto simp: get_state_def)
  then show ?case
    using st1(2) by (auto intro: relpowp_Suc_I2 simp del: relpowp.simps split: if_splits)
qed (auto simp: get_state_def)

lemma main_loop_follows_the_state_graph_witness:
  "\<exists>g st. gateway_run (platform_on (line_bus None) accepting) [Main smooth, Leds, Main smooth, Hour]
      (gateway_in TCP_SERVER_INIT_STATE (line_of [])) = Inr g
    \<and> get_state (mgr g) = code_of st \<and> (graph_step ^^ 2) TCP_SERVER_INIT_STATE st"
proof -
  let ?P = "platform_on (line_bus None) accepting" and ?g = "gateway_in TCP_SERVER_INIT_STATE (line_of [])"
  let ?evs = "[Main smooth, Leds, Main smooth, Hour]"
  obtain g where run: "gateway_run ?P ?evs ?g = Inr g" "\<not> restarted (gateway.button g)"
    by (simp add: iteration state_simps tcp_init_state_def)
      (simp add: gateway_step_def app_main_iteration_def state_simps mdns_init_state_def)
  have "\<forall>ev\<in>set ?evs. \<not> is_outside ev" "length (filter is_main ?evs) = 2"
    by (simp_all add: is_outside_def is_main_def)
  with main_loop_follows_the_state_graph [OF run(1) _ run(2), of TCP_SERVER_INIT_STATE] run(1) show ?thesis
    by (auto simp: get_state_def)
qed

end
