(* ===== verification/App_Preemption.thy ===== *)
theory App_Preemption
  imports App_Graph
begin

text \<open>
  main/main.c, once more: the main loop has the lowest priority of all tasks, so the
  server, the network and the button can run inside one of its iterations. An iteration is
  cut where that matters most: the work of its case comes first, then what the other tasks
  do meanwhile, then the \<open>set_state\<close> or the wait that ends the case. Without other tasks
  in between this is the iteration of \<open>App_Main\<close>.
\<close>

section \<open>The work of a case, and how it ends\<close>

datatype main_end = Set_state State_t | Await_app | Just_wait

definition finish :: "main_end \<Rightarrow> ('n, 'z) tcp_scheme \<Rightarrow> ('n, 'z) tcp_scheme" where
  "finish e g = (case e of
      Set_state st \<Rightarrow> goto st g
    | Await_app \<Rightarrow> g\<lparr>tcp_event_bit := False\<rparr>
    | Just_wait \<Rightarrow> g)"

definition ending :: "main_end \<Rightarrow> fault + 'g \<Rightarrow> fault + main_end \<times> 'g" where
  "ending e r = map_sum (\<lambda>f. f) (Pair e) r"

definition status_end :: "DALI_Status \<Rightarrow> main_end" where
  "status_end status =
     (if status = DALI_OK then Set_state DALI_COMMUNICATION_OK_STATE
      else if status = DALI_ERR_BUS_NOT_COMMISIONED then Set_state DALI_BUS_NOT_COMMISIONED_STATE
      else if status = DALI_ERR_NO_RESPONSE_ON_BUS then Set_state NO_RESPONSE_ON_DALI_BUS
      else if status = DALI_ERR_BUS_CORRUPTED then Set_state DALI_BUS_CORRUPTED_STATE
      else Just_wait)"

definition tokens_work :: "('n, 'w) handler" where
  "tokens_work P I g =
     map_sum (\<lambda>f. f) snd (on_http (\<lambda>h. map_sum (\<lambda>f. f) (Pair ()) (refresh_access (pf_ops P) (in_str_ok I) (pf_server P) h)) g)"

definition main_work ::
    "('n, 'w) platform \<Rightarrow> inputs \<Rightarrow> ('n, 'w) gateway \<Rightarrow> fault + main_end \<times> ('n, 'w) gateway" where
  "main_work P I g =
     (case state_of (get_state (mgr g)) of
        Some NVS_INIT_STATE \<Rightarrow>
          if \<not> in_timer_created I then Inl Abort
          else ending (Set_state INIT_POP_STATE)
            (map_sum (\<lambda>f. f) (\<lambda>n. g\<lparr>hour_timer_reload := False, hour_timer_running := True, nvs := n\<rparr>) (init_nvs_handler (pf_ops P) (nvs g)))
      | Some INIT_POP_STATE \<Rightarrow> Inr (Set_state AWAIT_WIFI_PROVISIONING_STATE, g\<lparr>popID := ''abcd1234''\<rparr>)
      | Some AWAIT_WIFI_PROVISIONING_STATE \<Rightarrow>
          ending (Set_state DALI_COMMUNICATION_INIT_STATE)
            (map_sum (\<lambda>f. f) (\<lambda>((m, w), later). g\<lparr>mgr := m, net := w\<rparr>)
              (init_wifi_provisioning (pf_stack P) (pf_max_retry P) (pf_reprovisioning P) (pf_mac P)
                (in_provisioned I) (in_wifi_events I) (popID g) (mgr g, net g)))
      | Some DALI_COMMUNICATION_INIT_STATE \<Rightarrow>
          (case init_DALI_communication (in_gpio I) (in_timers I) (dali g, configured g) of (c, u) \<Rightarrow>
             Inr (Set_state TCP_SERVER_INIT_STATE,
               g\<lparr>button_log := button_log g @ init_input_button (in_button_config I) (in_button_install I) (in_button_add I),
                 button_ready := (in_button_add I = ESP_OK), dali := c, configured := u\<rparr>))
      | Some TCP_SERVER_INIT_STATE \<Rightarrow> Inr (Set_state MDNS_INIT_STATE, g\<lparr>tcp_task_started := True\<rparr>)
      | Some MDNS_INIT_STATE \<Rightarrow>
          Inr (Set_state ANALYZE_DALI_BUS_STATE, g\<lparr>published := published g @ mDNS_init (in_mdns I) (popID g)\<rparr>)
      | Some ANALYZE_DALI_BUS_STATE \<Rightarrow>
          map_sum (\<lambda>f. f) (\<lambda>(check, iv, l). (status_end check, g\<lparr>found := iv, dali := put_link l (dali g)\<rparr>))
            (check_drivers_commissioned (pf_bus P) (pf_fuel P) (found g) (link.truncate (dali g)))
      | Some DALI_COMMISION_BUS_STATE \<Rightarrow>
          (case commission_bus (pf_bus P) (pf_fuel P) (link.truncate (dali g)) of
             Inl f \<Rightarrow> Inl f
           | Inr (count, l) \<Rightarrow>
               let iv = (found g)\<lparr>devices_on_bus_count := count\<rparr>
               in ending (Set_state ANALYZE_DALI_BUS_STATE)
                    (map_sum (\<lambda>f. f) (\<lambda>ds. g\<lparr>found := iv\<lparr>devices_on_bus := ds\<rparr>, dali := put_link l (dali g)\<rparr>)
                      (number_devices [0..<unat count] (devices_on_bus iv))))
      | Some DALI_COMMUNICATION_OK_STATE \<Rightarrow> Inr (Set_state SYNCRONIZE_NVS_STATE, g)
      | Some SYNCRONIZE_NVS_STATE \<Rightarrow>
          ending (Set_state AUTHENTICATION_STATE)
            (map_sum (\<lambda>f. f) (\<lambda>(ok, ds, n, l). g\<lparr>found := (found g)\<lparr>devices_on_bus := ds\<rparr>, nvs := n, dali := put_link l (dali g)\<rparr>)
              (nvs_synchronize (pf_ops P) (pf_bus P) (in_bytes I) (in_value I)
                (devices_on_bus_count (found g)) (devices_on_bus (found g)) (nvs g) (link.truncate (dali g))))
      | Some AUTHENTICATION_STATE \<Rightarrow>
          (case authenticated (pf_ops P) (nvs g) of (ok, n) \<Rightarrow>
             if ok then ending (Set_state SYNCRONIZE_BACKEND_STATE) (tokens_work P I (g\<lparr>nvs := n\<rparr>))
             else Inr (Set_state NOT_AUTHENTICATED_STATE, g\<lparr>nvs := n\<rparr>))
      | Some SYNCRONIZE_BACKEND_STATE \<Rightarrow>
          (case on_http (getControleGearsRemote (pf_ops P) (in_str_ok I) (pf_server P) (popID g)) g of
             Inl f \<Rightarrow> Inl f
           | Inr ((res, num), g) \<Rightarrow>
               ending (Set_state SYSTEM_RUNNING_STATE)
                 (new_gears_loop P I (take num res) [0..<unat (devices_on_bus_count (found g))] g))
      | Some SYSTEM_RUNNING_STATE \<Rightarrow>
          ending Await_app
            (if oneHourPassed g
             then map_sum (\<lambda>f. f) (\<lambda>g. g\<lparr>oneHourPassed := False\<rparr>)
                    (post_gears_loop P I [0..<unat (devices_on_bus_count (found g))] g)
             else Inr g)
      | Some DALI_BUS_CORRUPTED_STATE \<Rightarrow>
          (let g = g\<lparr>found := (found g)\<lparr>devices_on_bus_count := 0, uncommissioned_count := 0\<rparr>\<rparr>
           in if error_counter g < 3
              then Inr (Set_state ANALYZE_DALI_BUS_STATE, g\<lparr>error_counter := error_counter g + 1\<rparr>)
              else Inr (Just_wait, g\<lparr>error_counter := 0\<rparr>))
      | Some DALI_BUS_NOT_COMMISIONED_STATE \<Rightarrow> ending Just_wait (bus_not_commissioned_state P I g)
      | Some NO_RESPONSE_ON_DALI_BUS \<Rightarrow>
          if error_counter g < 3
          then Inr (Set_state ANALYZE_DALI_BUS_STATE, g\<lparr>error_counter := error_counter g + 1\<rparr>)
          else Inr (Just_wait, g\<lparr>error_counter := 0\<rparr>)
      | Some NOT_AUTHENTICATED_STATE \<Rightarrow>
          (case authenticated (pf_ops P) (nvs g) of (ok, n) \<Rightarrow>
             if ok then ending (Set_state SYNCRONIZE_BACKEND_STATE) (tokens_work P I (g\<lparr>nvs := n\<rparr>))
             else Inr (Just_wait, g\<lparr>nvs := n\<rparr>))
      | Some BLINK_LAMP_STATE \<Rightarrow> ending Just_wait (blink_state P I g)
      | _ \<Rightarrow> Inr (Just_wait, g))"

text \<open>The iteration of \<open>App_Main\<close> is the work and then its end.\<close>

lemma finish_simps [simp]:
  "finish (Set_state st) g = goto st g" "finish Await_app h = h\<lparr>tcp_event_bit := False\<rparr>" "finish Just_wait g = g"
  by (simp_all add: finish_def)

lemma ending_simps [simp]: "ending e (Inl f) = Inl f" "ending e (Inr g) = Inr (e, g)"
  by (simp_all add: ending_def)

lemma process_is_finish: "process_DALI_response status g = finish (status_end status) g"
  by (simp add: process_DALI_response_def status_end_def)

definition finished :: "fault + main_end \<times> ('n, 'w) gateway \<Rightarrow> fault + ('n, 'w) gateway" where
  "finished r = map_sum (\<lambda>f. f) (\<lambda>(e, g). finish e g) r"

lemma finished_simps [simp]:
  "finished (Inl f) = Inl f" "finished (Inr (e, g)) = Inr (finish e g)"
  "finished (ending e r) = map_sum (\<lambda>f. f) (finish e) r"
  "finished (map_sum (\<lambda>f. f) k r) = map_sum (\<lambda>f. f) (\<lambda>x. case k x of (e, g) \<Rightarrow> finish e g) r"
  by (simp_all add: finished_def ending_def sum.map_comp o_def)

lemma finish_wait: "finish Just_wait = (\<lambda>g. g)"
  by (simp add: fun_eq_iff)

lemma tokens_finished: "map_sum (\<lambda>f. f) (finish (Set_state SYNCRONIZE_BACKEND_STATE)) (tokens_work P I g) = fetch_tokens P I g"
  by (auto simp: tokens_work_def fetch_tokens_def split: sum.split)

lemma app_main_switch_work: "app_main_switch P I g = finished (main_work P I g)"
proof (cases "state_of (get_state (mgr g))")
  case (Some st)
  have count: "goto st g\<lparr>error_counter := c\<rparr> = goto st (g\<lparr>error_counter := c\<rparr>)" for st c
    by (simp add: goto_def)
  from Some show ?thesis
    unfolding app_main_switch_def main_work_def
    by (cases st; simp add: nvs_init_state_def init_pop_state_def await_wifi_state_def dali_init_state_def
        tcp_init_state_def mdns_init_state_def analyze_state_def commission_state_def synchronize_nvs_state_def
        authentication_state_def not_authenticated_state_def synchronize_backend_state_def system_running_state_def
        bus_corrupted_state_def no_response_state_def Let_def tokens_finished process_is_finish finish_wait
        sum.map_ident count split: sum.split prod.split)
qed (simp add: app_main_switch_def main_work_def)

section \<open>Preempted iterations\<close>

text \<open>
  \<open>evs\<close> is what the other tasks do between the work and its end; when the button restarts
  the device meanwhile, the iteration never ends.
\<close>

definition preempted_iteration ::
    "('n, 'w) platform \<Rightarrow> inputs \<Rightarrow> gateway_event list \<Rightarrow> ('n, 'w) gateway \<Rightarrow> fault + ('n, 'w) gateway" where
  "preempted_iteration P I evs g =
     (if restarted (gateway.button g) then Inr g else
      case main_work P I g of
        Inl f \<Rightarrow> Inl f
      | Inr (e, g) \<Rightarrow>
          (case gateway_run P evs g of
             Inl f \<Rightarrow> Inl f
           | Inr g \<Rightarrow> Inr (if restarted (gateway.button g) then g else main_wait (pf_bus P) (finish e g))))"

datatype preemptive_event = Whole gateway_event | Cut inputs "gateway_event list"

definition preemptive_step ::
    "('n, 'w) platform \<Rightarrow> preemptive_event \<Rightarrow> ('n, 'w) gateway \<Rightarrow> fault + ('n, 'w) gateway" where
  "preemptive_step P ev g = (case ev of
      Whole e \<Rightarrow> gateway_step P e g
    | Cut I evs \<Rightarrow> preempted_iteration P I (filter (\<lambda>e. \<not> is_main e) evs) g)"

primrec preemptive_run ::
    "('n, 'w) platform \<Rightarrow> preemptive_event list \<Rightarrow> ('n, 'w) gateway \<Rightarrow> fault + ('n, 'w) gateway" where
  "preemptive_run P [] g = Inr g"
| "preemptive_run P (ev # evs) g =
     (case preemptive_step P ev g of Inl f \<Rightarrow> Inl f | Inr g \<Rightarrow> preemptive_run P evs g)"

interpretation preemption: runner "preemptive_step P" "preemptive_run P"
  by unfold_locales simp_all

section \<open>What the work leaves alone\<close>

lemma tokens_cases:
  assumes "tokens_work P I g = Inr h"
  obtains u where "on_http (\<lambda>h. map_sum (\<lambda>f. f) (Pair ()) (refresh_access (pf_ops P) (in_str_ok I) (pf_server P) h)) g = Inr (u, h)"
  using assms unfolding tokens_work_def
  by (cases "on_http (\<lambda>h. map_sum (\<lambda>f. f) (Pair ()) (refresh_access (pf_ops P) (in_str_ok I) (pf_server P) h)) g") auto

lemma ending_Inr: "ending e' r = Inr (e, h) \<longleftrightarrow> e = e' \<and> r = Inr h"
  by (cases r) auto

lemma map_sum_Inr: "map_sum (\<lambda>f. f) k r = Inr y \<longleftrightarrow> (\<exists>x. r = Inr x \<and> y = k x)"
  by (cases r) auto

definition work_frame :: "('n, 'w) gateway \<Rightarrow> ('n, 'w) gateway \<Rightarrow> bool" where
  "work_frame g h \<longleftrightarrow> gateway.button h = gateway.button g \<and> rx_buffer h = rx_buffer g
     \<and> (tcp_task_started g \<longrightarrow> tcp_task_started h)"

lemma same_rest_frame: "same_rest g h \<Longrightarrow> work_frame g h"
  by (simp add: same_rest_def work_frame_def)

lemma tokens_frame: "tokens_work P I (g\<lparr>nvs := n\<rparr>) = Inr h \<Longrightarrow> work_frame g h"
  by (erule tokens_cases) (drule on_http_rest, simp add: same_rest_def work_frame_def)

lemma posts_frame:
  "new_gears_loop P I ids is g = Inr h \<Longrightarrow> same_rest g0 g \<Longrightarrow> work_frame g0 h"
  "post_gears_loop P I is g = Inr h \<Longrightarrow> work_frame g h"
  using http_any.new_gears_loop_kept [of P I ids "is" g h] http_any.post_gears_loop_kept [of P I "is" g h]
  by (simp_all add: same_rest_def work_frame_def)

lemma work_keeps:
  assumes "main_work P I g = Inr (e, h)"
  shows "work_frame g h"
proof (cases "state_of (get_state (mgr g))")
  case (Some st)
  note run = assms [unfolded main_work_def Some option.case]
  show ?thesis
  proof (cases st)
    case SYNCRONIZE_BACKEND_STATE
    then show ?thesis
      using run by (auto simp: ending_Inr split: sum.splits intro: posts_frame(1) [OF _ on_http_rest])
  next
    case SYSTEM_RUNNING_STATE
    then show ?thesis
      using run by (auto simp: ending_Inr map_sum_Inr split: if_splits dest!: posts_frame(2)) (auto simp: work_frame_def)
  next
    case AUTHENTICATION_STATE
    then show ?thesis
      using run by (auto simp: ending_Inr split: if_splits prod.splits dest: tokens_frame) (auto simp: work_frame_def)
  next
    case NOT_AUTHENTICATED_STATE
    then show ?thesis
      using run by (auto simp: ending_Inr split: if_splits prod.splits dest: tokens_frame) (auto simp: work_frame_def)
  qed (use run in \<open>auto simp: ending_Inr map_sum_Inr Let_def work_frame_def bus_not_commissioned_state_def blink_state_def
      split: if_splits sum.splits prod.splits\<close>)
qed (use assms in \<open>simp add: main_work_def work_frame_def\<close>)

lemma work_sets_state:
  assumes "main_work P I g = Inr (e, h)" and "in_state st g" and "\<not> may_stay st"
  obtains t where "e = Set_state t"
proof -
  note run = assms(1) [unfolded main_work_def in_stateD [OF assms(2)] option.case]
  have "status_end (bus_status iv) \<noteq> Await_app \<and> status_end (bus_status iv) \<noteq> Just_wait" for iv
    using bus_status_cases [of iv] by (auto simp: status_end_def)
  then have "e \<noteq> Await_app \<and> e \<noteq> Just_wait"
    using run assms(3)
    by (cases st) (auto simp: ending_Inr map_sum_Inr Let_def may_stay_def check_drivers_commissioned_def
      split: if_splits sum.splits prod.splits)
  then show thesis
    by (cases e) (auto intro: that)
qed

lemma tokens_ok: "tokens_work P I g = Inr h \<Longrightarrow> gateway_ok g \<Longrightarrow> gateway_ok h"
  by (erule tokens_cases)
    (blast intro: gateway_ok_http http_types.refresh_access_kept dest: http_types.on_http_unit_kept http_ok_truncate)

lemma backend_ok:
  assumes "on_http (getControleGearsRemote ops ok srv pop) g = Inr (r, h)" and "new_gears_loop P I ids is h = Inr k"
    and "gateway_ok g"
  shows "gateway_ok k"
proof -
  have h: "http_ok (http.truncate h) \<and> same_rest g h"
    by (rule http_types.on_http_kept [OF assms(1) http_ok_truncate [OF assms(3)]]) (rule http_types.get_gears_kept)
  then show ?thesis
    using gateway_ok_http [OF gateway_ok_http [OF assms(3) h]] http_types.new_gears_loop_kept [OF assms(2)] by blast
qed

lemma work_is_ok:
  assumes "main_work P I g = Inr (e, h)" and "gateway_ok g"
  shows "gateway_ok h"
proof (cases "state_of (get_state (mgr g))")
  case (Some st)
  note run = assms(1) [unfolded main_work_def Some option.case]
  show ?thesis
  proof (cases st)
    case AWAIT_WIFI_PROVISIONING_STATE
    then show ?thesis
      using run assms(2)
      by (auto simp: ending_Inr map_sum_Inr dest!: init_wifi_good) (auto simp: gateway_ok_def http_ok_def)
  next
    case ANALYZE_DALI_BUS_STATE
    then show ?thesis
      using run assms(2) by (auto simp: map_sum_Inr gateway_ok_def http_ok_def dest: check_ok)
  next
    case DALI_COMMISION_BUS_STATE
    then show ?thesis
      using run assms(2)
      by (auto simp: ending_Inr map_sum_Inr Let_def gateway_ok_def http_ok_def inventory_ok_def
          split: sum.splits prod.splits dest: numbered_count number_devices_length)
  next
    case SYNCRONIZE_NVS_STATE
    then show ?thesis
      using run assms(2)
      by (auto simp: ending_Inr map_sum_Inr gateway_ok_def http_ok_def inventory_ok_def dest!: synchronize_length)
  next
    case SYNCRONIZE_BACKEND_STATE
    then show ?thesis
      using run assms(2) by (auto simp: ending_Inr split: sum.splits intro: backend_ok)
  next
    case DALI_BUS_CORRUPTED_STATE
    then show ?thesis
      using run assms(2)
      by (auto simp: Let_def gateway_ok_def http_ok_def inventory_ok_def split: if_splits)
  next
    case BLINK_LAMP_STATE
    then show ?thesis
      using run assms(2) by (auto simp: ending_Inr dest: init_states_ok(6))
  qed (use run assms(2) in \<open>auto simp: ending_Inr map_sum_Inr Let_def gateway_ok_def http_ok_def
      dest: tokens_ok error_states_ok(2) post_gears_loop_ok split: if_splits sum.splits prod.splits\<close>)
qed (use assms in \<open>simp add: main_work_def\<close>)

section \<open>Steps\<close>

lemma preempted_result:
  assumes "preempted_iteration P I evs g = Inr g'" and "\<not> restarted (gateway.button g')"
  obtains e h k where "main_work P I g = Inr (e, h)" and "gateway_run P evs h = Inr k"
    and "g' = main_wait (pf_bus P) (finish e k)"
proof -
  have "\<not> restarted (gateway.button g)"
    using assms by (auto simp: preempted_iteration_def)
  then obtain e h k where "main_work P I g = Inr (e, h)" "gateway_run P evs h = Inr k"
    "g' = (if restarted (gateway.button k) then k else main_wait (pf_bus P) (finish e k))"
    using assms(1) by (auto simp: preempted_iteration_def split: sum.splits)
  with assms(2) show thesis
    by (auto intro!: that split: if_splits)
qed

lemma preempted_by_nothing:
  "preempted_iteration P I [] g = gateway_step P (Main I) g"
  using work_keeps [of P I g]
  by (auto simp: preempted_iteration_def gateway_step_def app_main_iteration_def app_main_switch_work work_frame_def
      split: sum.split)

lemma finish_ok: "gateway_ok g \<Longrightarrow> gateway_ok (finish e g)"
  by (cases e) simp_all

lemma preempted_ok:
  assumes "preempted_iteration P I evs g = Inr g'" and "gateway_ok g"
  shows "gateway_ok g'"
proof (cases "restarted (gateway.button g)")
  case False
  then obtain e h k where run: "main_work P I g = Inr (e, h)" "gateway_run P evs h = Inr k"
    and g': "g' = (if restarted (gateway.button k) then k else main_wait (pf_bus P) (finish e k))"
    using assms(1) by (auto simp: preempted_iteration_def split: sum.splits)
  have "gateway_ok k"
    by (rule tasks.run_kept [where P = gateway_ok, OF _ run(2) work_is_ok [OF run(1) assms(2)]]) (rule step_ok)
  then show ?thesis
    by (simp add: g' finish_ok)
qed (use assms in \<open>simp add: preempted_iteration_def\<close>)

lemma preemptive_step_ok: "preemptive_step P ev g = Inr g' \<Longrightarrow> gateway_ok g \<Longrightarrow> gateway_ok g'"
  by (cases ev) (auto simp: preemptive_step_def dest: step_ok preempted_ok)

section \<open>Properties\<close>

text \<open>
  C5: In every state the gateway can get into after power-up, in whatever order its tasks,
  the network, the app and the button act, also inside the iterations of the main loop, and
  whatever they receive: the state variable and the remembered state hold numbers of states
  (also after \<open>STOP_BLINK\<close>, which stores a number); the three arrays of 64 entries keep
  their sizes and their counts point inside them; and the name and the reply fit their
  buffers of 10 and 128 characters.
\<close>

theorem globals_keep_their_types_when_preempted:
  assumes "powered_on g0" and "preemptive_run P evs (app_main_start g0) = Inr g"
  shows "(\<exists>st. get_state (mgr g) = code_of st) \<and> (\<exists>st. get_last_state (mgr g) = code_of st)
    \<and> length (devices_on_bus (found g)) = 64 \<and> devices_on_bus_count (found g) \<le> 64
    \<and> length (uncommissioned_addresses (found g)) = 64 \<and> uncommissioned_count (found g) \<le> 64
    \<and> length (global_elements g) = 64 \<and> global_num_elements g \<le> 64
    \<and> length (popID g) < 10 \<and> length (response g) < 128"
proof -
  have start: "gateway_ok (app_main_start g0)"
    by (rule reachable_ok [OF reachable_start [OF assms(1)]])
  have "gateway_ok g"
    by (rule preemption.run_kept [where P = gateway_ok, OF _ assms(2) start]) (rule preemptive_step_ok)
  then show ?thesis
    unfolding gateway_ok_def http_ok_def good_manager_def inventory_ok_def state_of_Some get_state_def get_last_state_def
    by (simp add: RESPONSE_SIZE_def)
qed

lemma nvs_work:
  assumes "in_state NVS_INIT_STATE g" and "pf_ops P = ram_ops" and "in_timer_created I"
  shows "main_work P I g = Inr (Set_state INIT_POP_STATE, g\<lparr>hour_timer_reload := False, hour_timer_running := True\<rparr>)"
  using assms(2,3) by (simp add: main_work_def in_stateD [OF assms(1)] init_ram)

lemma globals_keep_their_types_when_preempted_witness:
  "\<exists>g. preemptive_run (platform_on (line_bus None) accepting) [Whole Leds, Cut smooth [Leds, Hour], Whole (Main smooth)]
      (app_main_start power_up) = Inr g \<and> (\<exists>st. get_last_state (mgr g) = code_of st)"
proof -
  let ?P = "platform_on (line_bus None) accepting"
  let ?evs = "[Whole Leds, Cut smooth [Leds, Hour], Whole (Main smooth)]"
  have P: "pf_ops ?P = ram_ops" "in_timer_created smooth"
    by (simp_all add: platform_on_def smooth_def)
  obtain g where run: "preemptive_run ?P ?evs (app_main_start power_up) = Inr g"
    by (simp add: preemptive_step_def preempted_iteration_def nvs_work is_main_def gateway_step_def app_main_start_def
        init_state_manager_def Let_def initial_manager_def app_main_iteration_def state_simps power_up_def
        init_pop_state_def P init_ram oneHourTimerCallback_def)
  from globals_keep_their_types_when_preempted [OF powered_on_power_up run] run show ?thesis by blast
qed

text \<open>
  C13: What the other tasks ask for while the main loop works is lost: from a state in which
  the loop does not wait (boot, analysis, commissioning, synchronisation, authentication),
  an iteration ends in the same state, along an edge of the graph, whatever happens inside
  it. That holds for the app's \<open>BLINK_LAMP\<close> and \<open>COMMISION_DALI_BUS\<close> as well as for a
  connection that is lost.
\<close>

theorem commands_during_the_work_are_lost:
  assumes "get_state (mgr g) = code_of st" and "\<not> may_stay st"
    and "preempted_iteration P I evs g = Inr g'" and "\<not> restarted (gateway.button g')"
  shows "\<exists>g0 st'. gateway_step P (Main I) g = Inr g0 \<and> get_state (mgr g0) = code_of st' \<and> main_edge st st'
    \<and> get_state (mgr g') = code_of st'"
proof -
  obtain e h k where run: "main_work P I g = Inr (e, h)" "gateway_run P evs h = Inr k"
    and g': "g' = main_wait (pf_bus P) (finish e k)"
    by (rule preempted_result [OF assms(3,4)])
  have st: "in_state st g"
    using assms(1) by (simp add: get_state_def)
  obtain t where t: "e = Set_state t"
    by (rule work_sets_state [OF run(1) st assms(2)])
  have switch: "app_main_switch P I g = Inr (goto t h)"
    by (simp add: app_main_switch_work run(1) t)
  then have "main_edge st t"
    using switch_edge [OF switch st] assms(2) by auto
  moreover have "\<not> restarted (gateway.button g)"
    using assms(3,4) by (auto simp: preempted_iteration_def)
  ultimately show ?thesis
    by (intro exI [of _ "main_wait (pf_bus P) (goto t h)"] exI [of _ t])
      (simp add: iteration switch g' t get_state_def)
qed

lemma mdns_work:
  assumes "in_state MDNS_INIT_STATE g"
  shows "main_work P I g
    = Inr (Set_state ANALYZE_DALI_BUS_STATE, g\<lparr>published := published g @ mDNS_init (in_mdns I) (popID g)\<rparr>)"
  by (simp add: main_work_def in_stateD [OF assms])

lemma commands_during_the_work_are_lost_witness:
  "\<exists>g'. preempted_iteration (platform_on (line_bus None) accepting) smooth
      [Network (WIFI_EVENT WIFI_EVENT_STA_DISCONNECTED), Leds] (gateway_in MDNS_INIT_STATE (line_of [])) = Inr g'
    \<and> get_state (mgr g') = code_of ANALYZE_DALI_BUS_STATE"
proof -
  let ?P = "platform_on (line_bus None) accepting" and ?g = "gateway_in MDNS_INIT_STATE (line_of [])"
  let ?evs = "[Network (WIFI_EVENT WIFI_EVENT_STA_DISCONNECTED), Leds]"
  have registered: "handlers_registered \<lparr>provisioned = b, wifi_connected = c, retries = r, calls = boot_calls MDNS_INIT_STATE\<rparr>" for b c r
    by (simp add: handlers_registered_def boot_calls_def start_calls_def eval_nat_numeral)
  obtain g' where run: "preempted_iteration ?P smooth ?evs ?g = Inr g'" "\<not> restarted (gateway.button g')"
    by (simp add: preempted_iteration_def mdns_work gateway_step_def registered event_handler_def change_state_def)
  have "\<not> may_stay MDNS_INIT_STATE"
    by (simp add: may_stay_def)
  from commands_during_the_work_are_lost [OF _ this run] obtain st' where
    "main_edge MDNS_INIT_STATE st'" "get_state (mgr g') = code_of st'"
    by (auto simp: get_state_def)
  then show ?thesis
    using run(1) by (auto elim: main_edge.cases)
qed

text \<open>
  C14: And the other command does the opposite of what it says: when the \<open>BLINK_LAMP\<close> sent
  during such an iteration is lost, the blinking state is what the gateway remembers as
  its last state, so the \<open>STOP_BLINK\<close> that follows starts the blinking.
\<close>

theorem stop_after_a_lost_blink_starts_blinking:
  fixes ident :: u64
  assumes "get_state (mgr g) = code_of st" and "\<not> may_stay st" and "\<not> restarted (gateway.button g)"
    and "main_work P I g = Inr (e, h)" and "tcp_task_started g" and "length (rx_buffer g) = RX_SIZE"
  shows "\<exists>g1 g2. preempted_iteration P I [App j sock (''BLINK_LAMP'' @ dec (unat ident))] g = Inr g1
    \<and> (\<exists>st'. get_state (mgr g1) = code_of st' \<and> main_edge st st')
    \<and> gateway_step P (App j' sock' ''STOP_BLINK'') g1 = Inr g2
    \<and> get_state (mgr g2) = code_of BLINK_LAMP_STATE \<and> selected_driver g2 = ident"
proof -
  let ?m = "''BLINK_LAMP'' @ dec (unat ident)"
  have st: "in_state st g"
    using assms(1) by (simp add: get_state_def)
  obtain t where t: "e = Set_state t"
    by (rule work_sets_state [OF assms(4) st assms(2)])
  have edge: "main_edge st t"
    using switch_edge [OF _ st, of P I] assms(2,4) by (auto simp: app_main_switch_work t)
  have h: "\<not> restarted (gateway.button h)" "length (rx_buffer h) = RX_SIZE" "tcp_task_started h"
    using work_keeps [OF assms(4)] assms(3,5,6) by (auto simp: work_frame_def)
  obtain buf where 1: "gateway_step P (App j sock ?m) h = Inr (blink_command ?m (h\<lparr>rx_buffer := buf\<rparr>))"
    "length buf = RX_SIZE"
    by (rule blink_step [OF h])
  define g1 where "g1 = main_wait (pf_bus P) (goto t (blink_command ?m (h\<lparr>rx_buffer := buf\<rparr>)))"
  have "gateway_run P [App j sock ?m] h = Inr (blink_command ?m (h\<lparr>rx_buffer := buf\<rparr>))"
    by (simp only: gateway_run.simps 1(1) sum.case)
  then have g1: "preempted_iteration P I [App j sock ?m] g = Inr g1"
    using assms(3) h(1)
    by (simp only: preempted_iteration_def assms(4) sum.case prod.case t g1_def if_False finish_simps)
      (simp add: blink_command_def blink_lamp_def)
  have keeps: "in_state t g1" "last_state (mgr g1) = code_of BLINK_LAMP_STATE" "selected_driver g1 = ident"
    "\<not> restarted (gateway.button g1)" "length (rx_buffer g1) = RX_SIZE" "tcp_task_started g1"
    using h 1(2) by (simp_all add: g1_def blink_command_def blink_lamp_def main_wait_def goto_def)
  obtain buf' where 2: "gateway_step P (App j' sock' ''STOP_BLINK'') g1 = Inr (stop_command (g1\<lparr>rx_buffer := buf'\<rparr>))"
    by (rule stop_step [OF keeps(4-6)])
  show ?thesis
    using g1 2 keeps(1-3) edge
    by (intro exI [of _ g1] exI [of _ "stop_command (g1\<lparr>rx_buffer := buf'\<rparr>)"])
      (auto simp: stop_command_def get_state_def get_last_state_def)
qed

lemma stop_after_a_lost_blink_starts_blinking_witness:
  "\<exists>g1 g2. preempted_iteration (platform_on (line_bus None) accepting) smooth [App no_junk 5 ''BLINK_LAMP7'']
      (gateway_in MDNS_INIT_STATE (line_of [])) = Inr g1
    \<and> gateway_step (platform_on (line_bus None) accepting) (App no_junk 5 ''STOP_BLINK'') g1 = Inr g2
    \<and> get_state (mgr g2) = code_of BLINK_LAMP_STATE"
proof -
  let ?P = "platform_on (line_bus None) accepting" and ?g = "gateway_in MDNS_INIT_STATE (line_of [])"
  have id: "''BLINK_LAMP'' @ dec (unat (7 :: u64)) = ''BLINK_LAMP7''"
    by (simp add: digit_numerals)
  obtain e h where "main_work ?P smooth ?g = Inr (e, h)"
    by (simp add: mdns_work)
  from stop_after_a_lost_blink_starts_blinking [OF _ _ _ this, of MDNS_INIT_STATE no_junk 5 7 no_junk 5, unfolded id]
  show ?thesis
    by (auto simp: get_state_def may_stay_def after_boot_def RX_SIZE_def)
qed

end
