(* ===== verification/App_Hour.thy ===== *)
theory App_Hour
  imports App_Graph
begin

text \<open>
  main/main.c: how often the gateway posts its data. The flag \<open>oneHourPassed\<close> is set at
  power-up and by the timer, which \<open>NVS_INIT_STATE\<close> creates without reload; a round of posts
  in \<open>SYSTEM_RUNNING_STATE\<close> clears it. The rounds of a run are counted, and bounded by what the
  flag, the timer and the boot still have to give.
\<close>

section \<open>Rounds\<close>

definition posting_round :: "gateway_event \<Rightarrow> ('n, 'w) gateway \<Rightarrow> bool" where
  "posting_round ev g \<longleftrightarrow> is_main ev \<and> \<not> restarted (gateway.button g) \<and>
     get_state (mgr g) = code_of SYSTEM_RUNNING_STATE \<and> oneHourPassed g"

primrec posting_rounds :: "('n, 'w) platform \<Rightarrow> gateway_event list \<Rightarrow> ('n, 'w) gateway \<Rightarrow> nat" where
  "posting_rounds P [] g = 0"
| "posting_rounds P (ev # evs) g = (if posting_round ev g then 1 else 0) +
     (case gateway_step P ev g of Inl f \<Rightarrow> 0 | Inr g \<Rightarrow> posting_rounds P evs g)"

section \<open>The boot is not repeated\<close>

text \<open>
  Once the server takes commands, neither the state nor the state remembered, to which
  \<open>STOP_BLINK\<close> goes back, is the one that creates the timer.
\<close>

definition past_boot :: "manager \<Rightarrow> bool" where
  "past_boot m \<longleftrightarrow> state_machine m \<noteq> code_of NVS_INIT_STATE \<and> last_state m \<noteq> code_of NVS_INIT_STATE"

lemma past_boot_set_state: "past_boot m \<Longrightarrow> st \<noteq> NVS_INIT_STATE \<Longrightarrow> past_boot (snd (set_state st m))"
  by (simp add: past_boot_def)

lemma past_boot_goto: "past_boot (mgr g) \<Longrightarrow> st \<noteq> NVS_INIT_STATE \<Longrightarrow> past_boot (mgr (goto st g))"
  by (simp add: goto_def past_boot_set_state)

interpretation network_past: manager_invariant past_boot
  by unfold_locales (rule past_boot_set_state)

interpretation network_state: manager_invariant "\<lambda>m. state_machine m \<noteq> code_of NVS_INIT_STATE"
  by unfold_locales simp

interpretation http_past: http_invariant "\<lambda>s. past_boot (mgr s)"
  by unfold_locales (simp_all add: past_boot_set_state)

text \<open>A message changes neither the fields of the main loop nor, once the boot is past, that.\<close>

interpretation tcp_past: tcp_invariant "\<lambda>s. past_boot (mgr s) \<and> tcp.more s = x" for x
  by unfold_locales (auto simp: send_socket_def goto_def stop_command_def past_boot_def get_last_state_def)

lemma tcp_more_fields:
  assumes "tcp.more g' = tcp.more (g :: ('n, 'w) gateway)"
  shows "oneHourPassed g' = oneHourPassed g" "hour_timer_running g' = hour_timer_running g"
    "hour_timer_reload g' = hour_timer_reload g" "tcp_task_started g' = tcp_task_started g"
  using assms by (cases g; cases g'; simp)+

section \<open>What an iteration does to the flag and the timer\<close>

text \<open>Requests touch neither, and keep the boot past.\<close>

definition hour_frame :: "('n, 'w) gateway \<Rightarrow> ('n, 'w) gateway \<Rightarrow> bool" where
  "hour_frame g g' \<longleftrightarrow> oneHourPassed g' = oneHourPassed g \<and> hour_timer_running g' = hour_timer_running g
     \<and> hour_timer_reload g' = hour_timer_reload g \<and> tcp_task_started g' = tcp_task_started g
     \<and> (past_boot (mgr g) \<longrightarrow> past_boot (mgr g'))"

lemma hour_frame_goto: "hour_frame g h \<Longrightarrow> st \<noteq> NVS_INIT_STATE \<Longrightarrow> hour_frame g (goto st h)"
  by (simp add: hour_frame_def past_boot_set_state)

lemma hour_frameI: "same_rest g h \<Longrightarrow> (past_boot (mgr g) \<Longrightarrow> past_boot (mgr h)) \<Longrightarrow> hour_frame g h"
  by (simp add: hour_frame_def same_rest_def)

lemma fetch_tokens_hour:
  assumes "fetch_tokens P I g = Inr g'"
  shows "hour_frame g g'"
proof -
  obtain u h where run: "on_http (\<lambda>h. map_sum (\<lambda>f. f) (Pair ()) (refresh_access (pf_ops P) (in_str_ok I) (pf_server P) h)) g = Inr (u, h)"
    and g': "g' = goto SYNCRONIZE_BACKEND_STATE h"
    using assms by (auto simp: fetch_tokens_def split: sum.splits prod.splits)
  have "past_boot (mgr h)" if "past_boot (mgr g)"
    using http_past.on_http_unit_kept [OF run] http_past.refresh_access_kept that by fastforce
  then show ?thesis
    unfolding g' by (intro hour_frame_goto hour_frameI on_http_rest [OF run]) simp_all
qed

lemma synchronize_backend_hour:
  assumes "synchronize_backend_state P I g = Inr g'"
  shows "hour_frame g g'"
proof -
  obtain res num h k where run: "on_http (getControleGearsRemote (pf_ops P) (in_str_ok I) (pf_server P) (popID g)) g = Inr ((res, num), h)"
    "new_gears_loop P I (take num res) [0..<unat (devices_on_bus_count (found h))] h = Inr k" "g' = goto SYSTEM_RUNNING_STATE k"
    using assms by (auto simp: synchronize_backend_state_def split: sum.splits prod.splits)
  have "same_rest g k"
    using on_http_rest [OF run(1)] http_any.new_gears_loop_kept [OF run(2)] by (simp add: same_rest_def)
  moreover have "past_boot (mgr k)" if "past_boot (mgr g)"
    using http_past.on_http_kept [OF run(1)] http_past.get_gears_kept http_past.new_gears_loop_kept [OF run(2)] that
    by fastforce
  ultimately show ?thesis
    unfolding run(3) by (intro hour_frame_goto hour_frameI) simp_all
qed

lemma post_gears_hour:
  assumes "post_gears_loop P I is g = Inr g'"
  shows "hour_frame g g'"
  using http_any.post_gears_loop_kept [OF assms] http_past.post_gears_loop_kept [OF assms]
  by (intro hour_frameI) simp_all

lemma system_running_hour:
  assumes "system_running_state P I g = Inr g'"
  shows "\<not> oneHourPassed g'" and "hour_frame (g\<lparr>oneHourPassed := False\<rparr>) g'"
proof -
  consider (post) h where "oneHourPassed g" "post_gears_loop P I [0..<unat (devices_on_bus_count (found g))] g = Inr h"
      "g' = h\<lparr>oneHourPassed := False, tcp_event_bit := False\<rparr>"
    | (idle) "\<not> oneHourPassed g" "g' = g\<lparr>tcp_event_bit := False\<rparr>"
    using assms by (cases "post_gears_loop P I [0..<unat (devices_on_bus_count (found g))] g")
      (auto simp: system_running_state_def split: if_splits)
  then show "\<not> oneHourPassed g'" "hour_frame (g\<lparr>oneHourPassed := False\<rparr>) g'"
    by (cases; auto simp: hour_frame_def dest!: post_gears_hour)+
qed

text \<open>One iteration, by the state it starts in.\<close>

lemma switch_hour:
  assumes "app_main_switch P I g = Inr g'" and "in_state st g"
    and "st \<noteq> NVS_INIT_STATE" and "st \<noteq> TCP_SERVER_INIT_STATE" and "st \<noteq> SYSTEM_RUNNING_STATE"
  shows "hour_frame g g'"
proof -
  note run = assms(1) [unfolded app_main_switch_def in_stateD [OF assms(2)] option.case]
  show ?thesis
  proof (cases st)
    case AWAIT_WIFI_PROVISIONING_STATE
    then show ?thesis
      using run by (auto simp: await_wifi_state_def hour_frame_def past_boot_set_state split: sum.splits prod.splits
          dest: network_past.init_wifi_kept)
  next
    case SYNCRONIZE_BACKEND_STATE
    then show ?thesis using run synchronize_backend_hour by simp
  next
    case AUTHENTICATION_STATE
    then show ?thesis
      using run by (auto simp: authentication_state_def Let_def split: prod.splits if_splits dest!: fetch_tokens_hour)
        (auto simp: hour_frame_def past_boot_set_state)
  next
    case NOT_AUTHENTICATED_STATE
    then show ?thesis
      using run by (auto simp: not_authenticated_state_def Let_def split: prod.splits if_splits dest!: fetch_tokens_hour)
        (auto simp: hour_frame_def past_boot_set_state)
  qed (use run assms(3-5) in \<open>auto simp: init_pop_state_def dali_init_state_def mdns_init_state_def analyze_state_def
      process_DALI_response_def commission_state_def synchronize_nvs_state_def bus_corrupted_state_def
      bus_not_commissioned_state_def no_response_state_def blink_state_def Let_def hour_frame_def past_boot_set_state
      split: sum.splits prod.splits if_splits\<close>)
qed

section \<open>What is left to give\<close>

definition rounds_left :: "('n, 'w) gateway \<Rightarrow> nat" where
  "rounds_left g = of_bool (oneHourPassed g) + of_bool (hour_timer_running g) + of_bool (in_state NVS_INIT_STATE g)"

text \<open>The timer is not created again, and does not start again by itself.\<close>

definition not_again :: "('n, 'w) gateway \<Rightarrow> bool" where
  "not_again g \<longleftrightarrow> (tcp_task_started g \<longrightarrow> past_boot (mgr g)) \<and> (hour_timer_running g \<longrightarrow> \<not> hour_timer_reload g)"

lemma main_rounds:
  assumes "app_main_switch P I g = Inr g'" and "not_again g"
  shows "not_again g'"
    and "rounds_left g' + of_bool (in_state SYSTEM_RUNNING_STATE g \<and> oneHourPassed g) \<le> rounds_left g"
proof -
  have "not_again g' \<and> rounds_left g' + of_bool (in_state SYSTEM_RUNNING_STATE g \<and> oneHourPassed g) \<le> rounds_left g"
  proof (cases "state_of (get_state (mgr g))")
    case None
    then have "\<not> in_state SYSTEM_RUNNING_STATE g" by (auto simp: get_state_def)
    with None assms show ?thesis by (simp add: app_main_switch_def)
  next
    case (Some st)
    then have st: "in_state st g"
      by (metis state_of_Some get_state_def option.distinct(1) state_of_code_of option.inject)
    have left: "\<not> in_state NVS_INIT_STATE g'"
    proof -
      obtain st' where "in_state st' g'" "main_edge st st' \<or> st' = st \<and> may_stay st"
        using switch_edge [OF assms(1) st] by blast
      then show ?thesis by (auto simp: may_stay_def elim: main_edgeE)
    qed
    show ?thesis
    proof (cases "st \<in> {NVS_INIT_STATE, TCP_SERVER_INIT_STATE, SYSTEM_RUNNING_STATE}")
      case True
      then show ?thesis
        using assms st left system_running_hour [of P I g g']
        by (auto simp: state_simps nvs_init_state_def tcp_init_state_def not_again_def rounds_left_def hour_frame_def
            past_boot_def split: if_splits sum.splits)
    next
      case False
      then have "hour_frame g g'" "\<not> in_state SYSTEM_RUNNING_STATE g"
        using switch_hour [OF assms(1) st] st by auto
      with left assms(2) show ?thesis
        by (auto simp: hour_frame_def not_again_def rounds_left_def)
    qed
  qed
  then show "not_again g'"
    and "rounds_left g' + of_bool (in_state SYSTEM_RUNNING_STATE g \<and> oneHourPassed g) \<le> rounds_left g" by simp_all
qed

lemma step_rounds:
  assumes "gateway_step P ev g = Inr g'" and "not_again g"
  shows "not_again g' \<and> rounds_left g' + of_bool (posting_round ev g) \<le> rounds_left g"
proof (cases "restarted (gateway.button g)")
  case False
  note run = assms(1) [unfolded gateway_step_def if_not_P [OF False]]
  show ?thesis
  proof (cases ev)
    case (Main I)
    then obtain h where h: "app_main_switch P I g = Inr h" "g' = main_wait (pf_bus P) h"
      using run by (cases "app_main_switch P I g") (simp_all add: app_main_iteration_def)
    then show ?thesis
      using main_rounds [OF h(1) assms(2)] False
      by (simp add: Main posting_round_def is_main_def get_state_def not_again_def rounds_left_def)
  next
    case (Network e)
    obtain m w where mw: "event_handler (pf_max_retry P) e (mgr g, net g) = (m, w)"
      by (cases "event_handler (pf_max_retry P) e (mgr g, net g)")
    have past: "past_boot (mgr g) \<longrightarrow> past_boot m" "\<not> in_state NVS_INIT_STATE g \<longrightarrow> state_machine m \<noteq> code_of NVS_INIT_STATE"
      using network_past.event_handler_kept [of "(mgr g, net g)" "pf_max_retry P" e]
        network_state.event_handler_kept [of "(mgr g, net g)" "pf_max_retry P" e] by (simp_all add: mw)
    have "g' = g \<or> g' = g\<lparr>mgr := m, net := w\<rparr>"
      using run by (auto simp: Network mw split: if_splits)
    then show ?thesis
      using assms(2) past
      by (auto simp: Network posting_round_def is_main_def not_again_def rounds_left_def)
  next
    case (App j sock cs)
    show ?thesis
    proof (cases "tcp_task_started g \<and> cs \<noteq> [] \<and> length cs < RX_SIZE")
      case True
      let ?g = "g\<lparr>rx_buffer := receive_into cs (rx_buffer g)\<rparr>"
      have past: "past_boot (mgr g)"
        using True assms(2) by (simp add: not_again_def)
      have "past_boot (mgr g') \<and> tcp.more g' = tcp.more ?g"
        by (rule tcp_past.message_handler_kept [of "pf_ops P" j "length cs" sock ?g]) (use run True past in \<open>simp_all add: App\<close>)
      then show ?thesis
        using past assms(2) tcp_more_fields [of g' ?g]
        by (auto simp: App posting_round_def is_main_def not_again_def rounds_left_def past_boot_def)
    next
      case False
      then have "g' = g" using run by (auto simp: App)
      then show ?thesis
        using assms(2) by (simp add: App posting_round_def is_main_def)
    qed
  qed (use run assms(2) in \<open>auto simp: button_event_step_def oneHourTimerCallback_def posting_round_def is_main_def
      not_again_def rounds_left_def split: if_splits sum.splits\<close>)
qed (use assms in \<open>simp add: gateway_step_def posting_round_def\<close>)

lemma posting_round_left: "posting_round ev g \<Longrightarrow> 1 \<le> rounds_left g"
  by (simp add: posting_round_def rounds_left_def)

lemma posting_rounds_bound: "not_again g \<Longrightarrow> posting_rounds P evs g \<le> rounds_left g"
proof (induction evs arbitrary: g)
  case (Cons ev evs)
  show ?case
  proof (cases "gateway_step P ev g")
    case (Inl f)
    then show ?thesis using posting_round_left [of ev g] by simp
  next
    case (Inr h)
    from step_rounds [OF Inr Cons.prems] Cons.IH [of h] Inr show ?thesis by auto
  qed
qed simp

section \<open>Property\<close>

text \<open>
  C34: After power-up the data of the gears is posted in at most two rounds, whatever the
  gears, the backend and the flash answer, and in whatever order the main loop, the
  network, the app, the button and the timer act: the first round is the one the flag
  starts with, the second the one of the one-shot timer, which nothing starts again. Every
  other iteration of a running gateway makes no request and reads no gear: it only waits.
\<close>

theorem data_is_posted_at_most_twice:
  assumes "powered_on g"
  shows "posting_rounds P evs (app_main_start g) \<le> 2
    \<and> (\<forall>h I. get_state (mgr h) = code_of SYSTEM_RUNNING_STATE \<and> \<not> restarted (gateway.button h)
        \<and> \<not> posting_round (Main I) h
      \<longrightarrow> gateway_step P (Main I) h = Inr (main_wait (pf_bus P) (h\<lparr>tcp_event_bit := False\<rparr>)))"
proof -
  have "rounds_left (app_main_start g) \<le> 2" "not_again (app_main_start g)"
    using assms by (simp_all add: powered_on_def app_main_start_def init_state_manager_def Let_def rounds_left_def
        not_again_def of_bool_def)
  then have "posting_rounds P evs (app_main_start g) \<le> 2"
    using posting_rounds_bound [of "app_main_start g" P evs] by linarith
  moreover have "gateway_step P (Main I) h = Inr (main_wait (pf_bus P) (h\<lparr>tcp_event_bit := False\<rparr>))"
    if "in_state SYSTEM_RUNNING_STATE h" "\<not> restarted (gateway.button h)" "\<not> posting_round (Main I) h" for h I
    using that by (intro iteration)
      (simp_all add: state_simps system_running_state_def posting_round_def is_main_def get_state_def)
  ultimately show ?thesis
    by (simp add: get_state_def)
qed

lemma data_is_posted_at_most_twice_witness:
  "posting_rounds (platform_on (line_bus None) accepting)
      (replicate 1000 (Main smooth) @ [Hour, Main smooth, Hour] @ replicate 1000 (Main smooth)) (app_main_start power_up) \<le> 2"
  using data_is_posted_at_most_twice [OF powered_on_power_up] by blast

text \<open>Both rounds are made: the one at start, and the one of the timer.\<close>

lemma two_rounds_are_made:
  "posting_rounds (platform_on (line_bus None) accepting) [Main smooth, Main smooth, Hour, Main smooth, Hour, Main smooth]
      ((gateway_in SYSTEM_RUNNING_STATE (line_of []))\<lparr>hour_timer_running := True\<rparr>) = 2"
proof -
  have "devices_on_bus_count empty_inventory = 0"
    by (simp add: empty_inventory_def)
  then show ?thesis
    by (simp add: posting_round_def is_main_def gateway_step_def app_main_iteration_def state_simps get_state_def
        system_running_state_def oneHourTimerCallback_def)
qed

end
