(* ===== verification/App_Session.thy ===== *)
theory App_Session
  imports App_Properties
begin

text \<open>
  The session with the backend across the parts: the token comes from the app through the
  TCP server into the flash, the main loop finds it there, and the HTTP handler exchanges
  it for the tokens the requests use.
\<close>

text \<open>The two steps of a login: the app's message stores the token, and the main loop exchanges it.\<close>

lemma token_step:
  fixes g :: "('n, 'w) gateway"
  assumes "nvs_store (pf_ops P) view" and "\<not> restarted (gateway.button g)"
    and "tok \<noteq> []" and "\<not> isspace (last tok)" and "NUL \<notin> set tok" and "\<forall>c\<in>set ws. isspace c"
    and "length (''SET_REFRESH_TOKEN '' @ tok @ ws) < RX_SIZE" and "length (rx_buffer g) = RX_SIZE"
    and "length (popID g) \<le> 9" and "tcp_task_started g"
  shows "\<exists>g1. gateway_step P (App j sock (''SET_REFRESH_TOKEN '' @ tok @ ws)) g = Inr g1
    \<and> mgr g1 = mgr g \<and> gateway.button g1 = gateway.button g
    \<and> sent g1 = sent g @ [(sock, with_pop ''Refresh token set successfully'' (popID g))]
    \<and> view (drv (nvs g1)) = put_entry ''authentication'' ''refresh_token'' (Some (Str tok)) (view (drv (nvs g)))"
proof -
  let ?msg = "''SET_REFRESH_TOKEN '' @ tok @ ws" and ?reply = "with_pop ''Refresh token set successfully'' (popID g)"
  obtain n buf where n: "message_handler (pf_ops P) j (length ?msg) sock (receive ?msg g)
      = Inr (send_socket sock ?reply (g\<lparr>rx_buffer := buf, nvs := n, response := ?reply\<rparr>))"
    "view (drv n) = put_entry ''authentication'' ''refresh_token'' (Some (Str tok)) (view (drv (nvs g)))"
    by (rule token_message [OF assms(1,3-9)])
  show ?thesis
    using n(1) assms(2,7,10)
    by (intro exI [of _ "send_socket sock ?reply (g\<lparr>rx_buffer := buf, nvs := n, response := ?reply\<rparr>)"])
      (simp add: gateway_step_def receive_def send_socket_def n(2))
qed

lemma exchange_step:
  fixes g :: "('n, 'w) gateway"
  assumes "nvs_store (pf_ops P) view" and "in_state NOT_AUTHENTICATED_STATE g" and "\<not> restarted (gateway.button g)"
    and "entries (view (drv (nvs g))) ''authentication'' ''refresh_token'' = Some (Str tok)"
    and "length tok < 512" and "in_str_ok I"
    and "\<And>req. req_url req = ''http://95.217.159.233/auth/controller/refresh_token'' \<Longrightarrow>
      req_body req = json_object [(''refreshToken'', tok)] \<Longrightarrow>
      pf_server P req = (e, [answer (json_object [(''accessToken'', a), (''refreshToken'', r)]) rest])"
    and "length (json_object [(''accessToken'', a), (''refreshToken'', r)]) < 512" and "length a < 256"
    and "set a \<inter> {NUL, CHR 0x22} = {}" and "set r \<inter> {NUL, CHR 0x22} = {}"
  shows "\<exists>g'. gateway_step P (Main I) g = Inr g'
    \<and> get_state (mgr g') = code_of SYNCRONIZE_BACKEND_STATE \<and> new_access_token g' = a
    \<and> entries (view (drv (nvs g'))) ''authentication'' ''access_token'' = Some (Str a)
    \<and> entries (view (drv (nvs g'))) ''authentication'' ''refresh_token'' = Some (Str r)
    \<and> sent g' = sent g"
proof -
  obtain m where m: "authenticated (pf_ops P) (nvs g) = (True, m)"
    "entries (view (drv m)) = entries (view (drv (nvs g)))"
    using authenticated_store [OF assms(1), of "nvs g"] assms(4,5)
    by (cases "authenticated (pf_ops P) (nvs g)") auto
  define g2 where "g2 = g\<lparr>nvs := m\<rparr>"
  have nvs2: "nvs (http.truncate g2) = m"
    by (simp add: g2_def http.defs)
  obtain h where h: "refresh_access (pf_ops P) True (pf_server P) (http.truncate g2) = Inr h" "new_access_token h = a"
    "entries (view (drv (nvs h))) ''authentication'' ''access_token'' = Some (Str a)"
    "entries (view (drv (nvs h))) ''authentication'' ''refresh_token'' = Some (Str r)"
    using refresh_with_tokens [OF assms(1), of "http.truncate g2" tok "pf_server P" e a r rest "[]"] assms(4,5,7-11)
    by (auto simp: nvs2 m(2))
  have "app_main_switch P I g = fetch_tokens P I g2"
    using assms(2) m(1) by (simp add: state_simps not_authenticated_state_def Let_def g2_def)
  also have "\<dots> = Inr (goto SYNCRONIZE_BACKEND_STATE (put_http h g2))"
    using h(1) assms(6) by (simp add: fetch_tokens_def on_http_def)
  finally have "gateway_step P (Main I) g = Inr (main_wait (pf_bus P) (goto SYNCRONIZE_BACKEND_STATE (put_http h g2)))"
    using assms(3) by (simp add: iteration)
  then show ?thesis
    using h(2-4) by (simp add: get_state_def put_http_def g2_def main_wait_def goto_def)
qed

text \<open>
  C11: Logging in works from the app to the backend: when a gateway that waits for a login is
  sent a token the backend accepts, the next iteration of the main loop exchanges it. The
  new tokens are in the flash, the access token is the one requests are made with, the app
  has its answer, and the gateway goes on to synchronise with the backend.
\<close>

theorem login_brings_the_gateway_online:
  fixes g :: "('n, 'w) gateway"
  assumes "nvs_store (pf_ops P) view" and "in_state NOT_AUTHENTICATED_STATE g" and "\<not> restarted (gateway.button g)"
    and "tok \<noteq> []" and "\<not> isspace (last tok)" and "NUL \<notin> set tok" and "\<forall>c\<in>set ws. isspace c"
    and "length (''SET_REFRESH_TOKEN '' @ tok @ ws) < RX_SIZE" and "length (rx_buffer g) = RX_SIZE"
    and "length (popID g) \<le> 9" and "in_str_ok I" and started: "tcp_task_started g"
    and "\<And>req. req_url req = ''http://95.217.159.233/auth/controller/refresh_token'' \<Longrightarrow>
      req_body req = json_object [(''refreshToken'', tok)] \<Longrightarrow>
      pf_server P req = (e, [answer (json_object [(''accessToken'', a), (''refreshToken'', r)]) rest])"
    and "length (json_object [(''accessToken'', a), (''refreshToken'', r)]) < 512" and "length a < 256"
    and "set a \<inter> {NUL, CHR 0x22} = {}" and "set r \<inter> {NUL, CHR 0x22} = {}"
  shows "\<exists>g'. gateway_run P [App j sock (''SET_REFRESH_TOKEN '' @ tok @ ws), Main I] g = Inr g'
    \<and> get_state (mgr g') = code_of SYNCRONIZE_BACKEND_STATE \<and> new_access_token g' = a
    \<and> entries (view (drv (nvs g'))) ''authentication'' ''access_token'' = Some (Str a)
    \<and> entries (view (drv (nvs g'))) ''authentication'' ''refresh_token'' = Some (Str r)
    \<and> sent g' = sent g @ [(sock, with_pop ''Refresh token set successfully'' (popID g))]"
proof -
  let ?msg = "''SET_REFRESH_TOKEN '' @ tok @ ws"
  obtain g1 where g1: "gateway_step P (App j sock ?msg) g = Inr g1" "mgr g1 = mgr g"
    "gateway.button g1 = gateway.button g" "sent g1 = sent g @ [(sock, with_pop ''Refresh token set successfully'' (popID g))]"
    "view (drv (nvs g1)) = put_entry ''authentication'' ''refresh_token'' (Some (Str tok)) (view (drv (nvs g)))"
    using token_step [OF assms(1,3-10) started] by blast
  have len: "length tok < 512"
    using assms(8) by (simp add: RX_SIZE_def)
  have "in_state NOT_AUTHENTICATED_STATE g1" "\<not> restarted (gateway.button g1)"
    "entries (view (drv (nvs g1))) ''authentication'' ''refresh_token'' = Some (Str tok)"
    using assms(2,3) g1(2,3,5) by (simp_all)
  from exchange_step [OF assms(1) this len assms(11,13-17)] obtain g' where g':
    "gateway_step P (Main I) g1 = Inr g'" "get_state (mgr g') = code_of SYNCRONIZE_BACKEND_STATE"
    "new_access_token g' = a" "entries (view (drv (nvs g'))) ''authentication'' ''access_token'' = Some (Str a)"
    "entries (view (drv (nvs g'))) ''authentication'' ''refresh_token'' = Some (Str r)" "sent g' = sent g1"
    by blast
  have "gateway_run P [App j sock ?msg, Main I] g = Inr g'"
    by (simp only: gateway_run.simps g1(1) g'(1) sum.case)
  with g' g1(4) show ?thesis
    by (intro exI [of _ g']) (simp del: gateway_run.simps)
qed

lemma login_brings_the_gateway_online_witness:
  "\<exists>g'. gateway_run (platform_on (line_bus None)
        (\<lambda>_. (0, [answer (json_object [(''accessToken'', ''a2''), (''refreshToken'', ''r2'')]) []])))
      [App no_junk 5 ''SET_REFRESH_TOKEN t1'', Main smooth] (gateway_in NOT_AUTHENTICATED_STATE (line_of [])) = Inr g'
    \<and> get_state (mgr g') = code_of SYNCRONIZE_BACKEND_STATE \<and> new_access_token g' = ''a2''"
proof -
  let ?P = "platform_on (line_bus None)
        (\<lambda>_. (0, [answer (json_object [(''accessToken'', ''a2''), (''refreshToken'', ''r2'')]) []]))"
  have store: "nvs_store (pf_ops ?P) ram_view"
    by (simp add: platform_on_def nvs_store_ram)
  have len: "length (json_object [(''accessToken'', ''a2''), (''refreshToken'', ''r2'')]) < 512"
    by (simp add: length_json_object)
  show ?thesis
    using login_brings_the_gateway_online [OF store, of "gateway_in NOT_AUTHENTICATED_STATE (line_of [])" "''t1''" "[]"
        smooth 0 "''a2''" "''r2''" "[]" no_junk 5] len
    by (auto simp: platform_on_def smooth_def RX_SIZE_def isspace_def after_boot_def simp del: gateway_run.simps)
qed

end
