(* ===== verification/Api_Controler.thy ===== *)
theory Api_Controler
  imports Tcp_Properties
begin

text \<open>
  components/API_controler: the place the interface to the app was meant to move to. Its
  component lists no sources, so the build leaves it out; the report it holds is an older
  copy of the one in the TCP server, compared with that here. Its other functions are
  empty.
\<close>

section \<open>Data\<close>

record Controle_gear_t =
  cg_short_address :: u8
  cg_manufactoring_id :: u8

definition RESPONSE_BUFFER_SIZE :: nat where "RESPONSE_BUFFER_SIZE = 128"

text \<open>What \<open>response\<close> holds before the first call.\<close>

definition api_response_init :: string where
  "api_response_init = ''{\"status\":\"Error fetching state\"}''"

section \<open>Operations\<close>

definition get_all_controle_gear_as_json_string :: "string option" where
  "get_all_controle_gear_as_json_string = None"

definition store_controle_gear :: "Controle_gear_t \<Rightarrow> 's \<Rightarrow> 's" where
  "store_controle_gear controle_gear s = s"

definition api_state_text :: "State_t \<Rightarrow> string option" where
  "api_state_text st = (case st of
      NVS_INIT_STATE \<Rightarrow> Some ''NVS initialization state''
    | AWAIT_WIFI_PROVISIONING_STATE \<Rightarrow> Some ''Awaiting WiFi provisioning''
    | WIFI_PROVISIONING_STATE \<Rightarrow> Some ''WiFi provisioning state''
    | WIFI_CONNECTED_STATE \<Rightarrow> Some ''WiFi connected state''
    | DALI_COMMUNICATION_INIT_STATE \<Rightarrow> Some ''DALI communication initialization state''
    | DALI_COMMUNICATION_OK_STATE \<Rightarrow> Some ''DALI communication OK state''
    | ANALYZE_DALI_BUS_STATE \<Rightarrow> Some ''Analyzing DALI bus state''
    | TCP_SERVER_INIT_STATE \<Rightarrow> Some ''TCP server initialization state''
    | MDNS_INIT_STATE \<Rightarrow> Some ''mDNS initialization state''
    | SYSTEM_RUNNING_STATE \<Rightarrow> Some ''System is running''
    | NO_WIFI_STATE \<Rightarrow> Some ''No WiFi connection''
    | DALI_BUS_CORRUPTED_STATE \<Rightarrow> Some ''DALI bus corrupted state''
    | DALI_BUS_NOT_COMMISIONED_STATE \<Rightarrow> Some ''DALI bus not commissioned state''
    | NO_RESPONSE_ON_DALI_BUS \<Rightarrow> Some ''No response on DALI bus''
    | _ \<Rightarrow> None)"

text \<open>The new contents of \<open>response\<close>.\<close>

definition api_get_controler_state :: "manager \<Rightarrow> fault + string" where
  "api_get_controler_state m =
     (let msg = ''{\"status\":\"'' @
            (case Option.bind (state_of (get_state m)) api_state_text of
               Some status \<Rightarrow> status | None \<Rightarrow> ''Unknown state'') @ ''\"}''
      in if length msg < RESPONSE_BUFFER_SIZE then Inr msg else Inl Out_of_bounds)"

section \<open>The two copies\<close>

lemma api_state_text_eq:
  "api_state_text st = (if st \<in> {AUTHENTICATION_STATE, NOT_AUTHENTICATED_STATE} then None else state_text st)"
  by (cases st) (simp_all add: api_state_text_def state_text_def)

lemma api_state_text_length: "api_state_text st = Some a \<Longrightarrow> length a \<le> 41"
  using state_text_head [of st a] by (simp add: api_state_text_eq split: if_splits)

text \<open>
  The copy reports without fault for every value of the state variable; for the states the
  server reports, apart from the two of the session, it is the server's report without
  the name.
\<close>

lemma api_report_in_bounds: "\<exists>msg. api_get_controler_state m = Inr msg"
proof (cases "Option.bind (state_of (get_state m)) api_state_text")
  case (Some a)
  then have "length a \<le> 41"
    by (auto simp: Option.bind_eq_Some_conv intro: api_state_text_length)
  then show ?thesis
    by (simp add: api_get_controler_state_def Some RESPONSE_BUFFER_SIZE_def)
qed (simp add: api_get_controler_state_def RESPONSE_BUFFER_SIZE_def)

lemma api_report_agrees:
  assumes "state_of (get_state (mgr s)) = Some st" and "st \<notin> {AUTHENTICATION_STATE, NOT_AUTHENTICATED_STATE}"
    and "state_text st = Some status" and "length (popID s) \<le> 9"
  shows "api_get_controler_state (mgr s) = Inr (''{\"status\":\"'' @ status @ ''\"}'')"
    and "get_controler_state s = Inr (s\<lparr>response := ''{\"status\":\"'' @ status @ ''\", \"popID\":\"'' @ popID s @ ''\"}''\<rparr>)"
proof -
  have "api_state_text st = Some status"
    using assms(2,3) by (simp add: api_state_text_eq)
  then show "api_get_controler_state (mgr s) = Inr (''{\"status\":\"'' @ status @ ''\"}'')"
    using api_state_text_length [of st status] assms(1)
    by (simp add: api_get_controler_state_def RESPONSE_BUFFER_SIZE_def)
  show "get_controler_state s = Inr (s\<lparr>response := ''{\"status\":\"'' @ status @ ''\", \"popID\":\"'' @ popID s @ ''\"}''\<rparr>)"
    using get_controler_state_report [OF assms(1,4)] assms(3) by (simp add: report_def with_pop_def)
qed

end
