(* ===== verification/Spec2Isabelle.thy ===== *)
theory Spec2Isabelle
  imports Dali_Init Dali_World Dali_Diagnostics App_Preemption App_Hour App_Session Api_Controler
begin

text \<open>
  NPC Controler: the firmware of an ESP32 gateway between the control gears of a DALI line, a
  phone app on the local network and a backend. This library models the firmware's own code
  (main/ and the components of the same names below components/) and proves what it does,
  including where that is not what it should do.

  \<^bold>\<open>The program and its parts.\<close> main/main.c runs a loop over a state variable, which the
  LED task, the network events and the app's commands read and write too. On the line, an
  interrupt-driven driver sends 16-bit frames and reads 8-bit answers; addressing searches for
  gears, gives them short addresses and lists them; memory banks and diagnostics read their
  data. The flash keeps the ids of the gears and the tokens of the session; the HTTP handler
  renews the tokens and exchanges JSON with the backend; the TCP server serves the app.

  \<^bold>\<open>Theories and sources.\<close>
  \<^item> \<open>Prelude\<close>: word types, status codes (main/constants.h), pin configurations, the locales
    \<open>machine\<close> (total step functions and their invariants) and \<open>runner\<close> (runs of steps that can
    fail), lemmas on words. \<open>Device\<close>: components/device/include/device.h.
  \<^item> \<open>Dali_Communication\<close>, \<open>Dali_Init\<close>: components/DALI_communication. The record \<open>link\<close> holds the
    globals other parts see, \<open>comm\<close> those of the two interrupt handlers. The gears are a
    parameter \<open>bus\<close>, which says what a frame does to them and what they answer. Other parts
    use the abstract wait \<open>vTaskDelay\<close>; \<open>interrupts_implement_wait\<close> shows that the handlers,
    alarm by alarm and edge by edge, refine it.
  \<^item> \<open>Dali_Addressing\<close>, \<open>Dali_Commissioning\<close>, \<open>Dali_World\<close>: components/DALI_addressing. \<open>dali_bus\<close>
    states what the standard demands of gears; \<open>line_bus\<close> is a concrete line that satisfies it.
  \<^item> \<open>Dali_Memory_Bank\<close>, \<open>Dali_Diagnostics\<close>: components/DALI_memory_bank_handler and
    components/DALI_diagnostics_and_maintenance.
  \<^item> \<open>State_Manager\<close>: components/State_manager, the state variable and the LED patterns.
  \<^item> \<open>Nvs_Handler\<close>, \<open>Nvs_Store\<close>: components/Nvs_handler over the flash library, a record of
    functions (\<open>nvs_ops\<close>) of which \<open>nvs_store\<close> states the documented behaviour; \<open>ram_ops\<close> is a
    concrete one. The locale \<open>kv_store\<close> is the store the strings and the ids are kept in.
  \<^item> \<open>CStrings\<close>, \<open>Http_Handler\<close>, \<open>Http_Json\<close>, \<open>Http_Properties\<close>, \<open>Http_Invariant\<close>:
    components/Http_handler. The HTTP client with the backend is a function from requests to
    events; \<open>http_invariant\<close> is the interface of what a request can change.
  \<^item> \<open>Tcp_Server\<close>, \<open>Tcp_Properties\<close>: components/Tcp_server. Its state extends the HTTP handler's.
  \<^item> \<open>Wifi_Provisioning\<close>: components/Wifi_provisioning. \<open>Input_Button\<close>: components/Input_button.
  \<^item> \<open>App_Main\<close>: main/main.c and components/mDNS_handler. The record \<open>gateway\<close> joins the state of
    all parts; \<open>app_main_switch\<close> has one function per case of the loop; \<open>gateway_step\<close> is one
    event of any task, \<open>gateway_run\<close> a sequence of them, \<open>reachable\<close> what can follow power-up.
  \<^item> \<open>App_Properties\<close>, \<open>App_Invariant\<close>, \<open>App_Graph\<close>, \<open>App_Session\<close>: what the gateway does as a
    whole. \<open>App_Preemption\<close>: the same loop with the other tasks inside its iterations: \<open>main_work\<close>
    is the work of a case and \<open>finish\<close> how it ends, \<open>preempted_iteration\<close> lets other tasks run
    in between, and \<open>preempted_by_nothing\<close> shows that without them it is the iteration above.
    \<open>App_Hour\<close>: the rounds of posts, and what bounds them. The locales \<open>manager_invariant\<close>,
    \<open>http_invariant\<close> and \<open>tcp_invariant\<close> are what the network, the requests and the app's
    messages can change of the state.
  \<^item> \<open>Api_Controler\<close>: components/API_controler, an older copy of the server's report that the
    build leaves out, and how it differs.

  \<^bold>\<open>What is shown.\<close>
  \<^item> The line: a frame's waveform is its Manchester code and the driver is ready again; any
    answer within timing tolerance is read back; the handlers' indices and counters stay in
    bounds from reset on, in any interleaving (\<open>driver_step\<close>); a send during a frame splices the two.
  \<^item> Addressing: the binary search finds the lowest participant in at most 24 comparisons;
    commissioning numbers the gears in the order of their random addresses; a check lists every
    gear, and overruns its arrays exactly when they are too small for the counts it is given.
  \<^item> Data: an id is the number its eight bytes spell and tells gears apart; fetched values are memory contents; the object posted can be
    read back field by field, or the id overruns its buffer; the ids the backend lists arrive.
  \<^item> Flash: what is stored is found, and nothing else; first and later synchronisations with the bus; the list of
    ids is complete or NULL, never cut short.
  \<^item> Network, app, button: start-up returns exactly when an address arrives; the server task
    leaves no socket open; a token logs in, a bare command stores stale bytes; the status report
    tells the states apart it knows; five real ids overrun the reply; only a long press resets,
    unless a press bounces.
  \<^item> The gateway: in every reachable state, preempted or not, the globals have their types, counts
    and strings fit; the main loop refines the graph of its states; booting reaches the analysis
    of the bus; a login from the app brings the gateway to the backend; bus errors are retried. And the
    defects of the composition: a lost connection is never recovered from, a rejected session
    goes on as if accepted, commissioned gears are counted twice, data is posted at most twice;
    what the app asks for while the loop works is lost, and a \<open>STOP_BLINK\<close> after it blinks.

  \<^bold>\<open>Conventions.\<close> Machine integers are words, except where the range is proved as an
  invariant (the handlers' \<open>int8_t\<close> counters). An access outside an array, a string that is not
  terminated inside its buffer and a null pointer are \<open>Inl Out_of_bounds\<close>; a failed assertion or
  \<open>ESP_ERROR_CHECK\<close> is \<open>Inl Abort\<close>. Uninitialised variables and the results of library calls are
  arguments. Loops the environment ends are structural recursion over what it delivers, or take
  fuel: \<open>commission_loop\<close> and \<open>check_loop\<close> make one round per gear that answers, so fuel above
  the number of participants is enough (their theorems conclude \<open>Inr\<close>); \<open>Inl Still_running\<close> says
  that the fuel ran out or the task still waits. The binary search terminates by its own measure.

  \<^bold>\<open>Not modelled.\<close> Log output, except where the log is what tells the caller; task stacks and
  priorities; preemption of an iteration of the main loop at other points than before its end,
  and of a message or an event (they are atomic); the timer calls inside a search or a request
  succeed (\<open>send_DALI_Tx ESP_OK\<close>), while the driver itself is modelled with their failure; time, except as ticks of timers and of the
  receive timer. The ESP-IDF framework and the mDNS and QR code libraries are vendored under
  components/components and managed_components, and parameters here. components/API and
  components/JSON_handler are commented out or empty, as are components/device/device.c and
  components/DALI_commands.
\<close>

end
